(* ===== verification/Prelude.thy ===== *)
theory Prelude
  imports "HOL-Library.Word" "HOL-Library.Log_Nat"
begin

unbundle bit_operations_syntax

text \<open>
  What every component shares: the machine integer types of the C++ code, the exceptions
  it throws as values of a sum type, the sequencing of fallible steps, and the few string
  operations of the standard library that the components use.
\<close>

section \<open>Machine integers\<close>

type_synonym u8 = "8 word"
type_synonym u16 = "16 word"
type_synonym u32 = "32 word"
type_synonym u64 = "64 word"
type_synonym i32 = "32 word"  \<comment> \<open>an int32_t, read with sint\<close>

text \<open>Steady-clock readings and durations are signed 64-bit nanosecond counts.\<close>

type_synonym ticks = int

definition ticks_max :: ticks where
  "ticks_max = 9223372036854775807"

definition int_max :: int where
  "int_max = 2147483647"

section \<open>Exceptions and fallible results\<close>

datatype exn =
    InvalidArgument string
  | DiscoveryError string
  | ProtocolError string
  | NotConnectedError string
  | LogicError string
  | RuntimeError string

type_synonym 'a result = "exn + 'a"

fun what :: "exn \<Rightarrow> string" where
  "what (InvalidArgument m) = m"
| "what (DiscoveryError m) = m"
| "what (ProtocolError m) = m"
| "what (NotConnectedError m) = m"
| "what (LogicError m) = m"
| "what (RuntimeError m) = m"

fun and_then :: "'e + 'a \<Rightarrow> ('a \<Rightarrow> 'e + 'b) \<Rightarrow> 'e + 'b" where
  "and_then (Inl e) k = Inl e"
| "and_then (Inr x) k = k x"

definition throw_if :: "bool \<Rightarrow> exn \<Rightarrow> unit result" where
  "throw_if b e = (if b then Inl e else Inr ())"

fun succeeds :: "'e + 'a \<Rightarrow> bool" where
  "succeeds (Inl e) = False"
| "succeeds (Inr x) = True"

lemma and_then_Inr [simp]:
  "and_then m k = Inr y \<longleftrightarrow> (\<exists>x. m = Inr x \<and> k x = Inr y)"
  by (cases m) auto

lemma throw_if_Inr [simp]: "throw_if b e = Inr u \<longleftrightarrow> \<not> b"
  by (simp add: throw_if_def)

lemma throw_if_Inl [simp]: "throw_if b e = Inl e' \<longleftrightarrow> b \<and> e' = e"
  by (auto simp: throw_if_def)

lemma succeeds_iff: "succeeds m \<longleftrightarrow> (\<exists>x. m = Inr x)"
  by (cases m) auto

lemma succeeds_and_then [simp]:
  "succeeds (and_then m k) \<longleftrightarrow> (\<exists>x. m = Inr x \<and> succeeds (k x))"
  by (cases m) auto

lemma succeeds_throw_if [simp]: "succeeds (throw_if b e) \<longleftrightarrow> \<not> b"
  by (simp add: throw_if_def)

section \<open>Strings\<close>

definition nl :: char where "nl = CHR 0x0A"
definition dquote :: char where "dquote = CHR 0x22"

text \<open>\<open>std::isspace\<close> in the C locale, and the six ASCII blanks the code lists itself.\<close>

definition is_space :: "char \<Rightarrow> bool" where
  "is_space c \<longleftrightarrow> c \<in> {CHR 0x20, CHR 0x09, CHR 0x0A, CHR 0x0D, CHR 0x0C, CHR 0x0B}"

definition all_blank :: "string \<Rightarrow> bool" where
  "all_blank s \<longleftrightarrow> list_all is_space s"

text \<open>\<open>std::to_string\<close> on unsigned values.\<close>

definition digit_char :: "nat \<Rightarrow> char" where
  "digit_char d = char_of (48 + d)"

fun dec_of_nat :: "nat \<Rightarrow> string" where
  "dec_of_nat n = (if n < 10 then [digit_char n] else dec_of_nat (n div 10) @ [digit_char (n mod 10)])"

declare dec_of_nat.simps [simp del]

definition dec_of_int :: "int \<Rightarrow> string" where
  "dec_of_int i = (if i < 0 then CHR ''-'' # dec_of_nat (nat (- i)) else dec_of_nat (nat i))"

definition dec_of_word :: "'a::len word \<Rightarrow> string" where
  "dec_of_word w = dec_of_nat (unat w)"

text \<open>Lower-case hexadecimal digits: the table \<open>kLowerHex\<close> and its lookup.\<close>

definition hex_digits :: string where
  "hex_digits = ''0123456789abcdef''"

definition hex_char :: "nat \<Rightarrow> char" where
  "hex_char d = hex_digits ! d"

lemma hex_char_inj: "a < 16 \<Longrightarrow> b < 16 \<Longrightarrow> hex_char a = hex_char b \<longleftrightarrow> a = b"
  unfolding hex_char_def
  by (rule nth_eq_iff_index_eq) (simp_all add: hex_digits_def)

end
