(* ===== verification/Floating.thy ===== *)
theory Floating
  imports Prelude
begin

text \<open>
  The floating-point values of the C++ code: IEEE binary64 for \<open>double\<close> and the 80-bit
  x87 format for \<open>long double\<close> (the x86-64 Linux targets the driver builds for), both as
  instances of one format with a precision and an exponent range. A finite value \<open>Fin s q\<close>
  is a sign bit and a rational magnitude \<open>\<bar>q\<bar>\<close>, so the two zeros are distinct, and every
  operation is the exact rational result rounded once, to nearest with ties to even.
\<close>

section \<open>Formats and values\<close>

text \<open>
  \<open>prec\<close> counts the significand bits, \<open>emin\<close> is the exponent of the least subnormal and
  every finite magnitude lies below \<open>2 powi emax\<close>.
\<close>

record fmt =
  prec :: int
  emin :: int
  emax :: int

definition binary64 :: fmt where
  "binary64 = \<lparr>prec = 53, emin = -1074, emax = 1024\<rparr>"

definition extended80 :: fmt where
  "extended80 = \<lparr>prec = 64, emin = -16445, emax = 16384\<rparr>"

datatype fp = NaN | Inf bool | Fin bool rat  \<comment> \<open>the flag is the sign bit\<close>

fun fval :: "fp \<Rightarrow> rat" where
  "fval (Fin s q) = (if s then - \<bar>q\<bar> else \<bar>q\<bar>)"
| "fval _ = 0"

fun isfinite :: "fp \<Rightarrow> bool" where
  "isfinite (Fin s q) = True"
| "isfinite _ = False"

section \<open>Rounding\<close>

text \<open>The exponent of a positive rational: the integer \<open>e\<close> with \<open>2^e \<le> q < 2^(e+1)\<close>.\<close>

definition ilog2 :: "rat \<Rightarrow> int" where
  "ilog2 q = (if 1 \<le> q then bitlen \<lfloor>q\<rfloor> - 1 else - bitlen (\<lceil>1 / q\<rceil> - 1))"

definition round_half_even :: "rat \<Rightarrow> int" where
  "round_half_even x =
     (let f = \<lfloor>x\<rfloor>; r = x - of_int f
      in if r < 1/2 then f else if r > 1/2 then f + 1 else if even f then f else f + 1)"

definition ulp_exp :: "fmt \<Rightarrow> rat \<Rightarrow> int" where
  "ulp_exp f q = max (ilog2 q - prec f + 1) (emin f)"

definition round_mag :: "fmt \<Rightarrow> rat \<Rightarrow> rat" where
  "round_mag f q =
     (if q = 0 then 0
      else of_int (round_half_even (q / 2 powi ulp_exp f q)) * 2 powi ulp_exp f q)"

definition fround :: "fmt \<Rightarrow> bool \<Rightarrow> rat \<Rightarrow> fp" where
  "fround f s q =
     (let r = round_mag f q in if 2 powi emax f \<le> r then Inf s else Fin s r)"

text \<open>The largest finite magnitude of a format, \<open>numeric_limits<double>::max()\<close>.\<close>

definition max_mag :: "fmt \<Rightarrow> rat" where
  "max_mag f = (2 powi prec f - 1) * 2 powi (emax f - prec f)"

definition dbl_max :: fp where
  "dbl_max = Fin False (max_mag binary64)"

definition representable :: "fmt \<Rightarrow> fp \<Rightarrow> bool" where
  "representable f x =
     (case x of Fin s q \<Rightarrow> 0 \<le> q \<and> q < 2 powi emax f \<and> round_mag f q = q | _ \<Rightarrow> True)"

section \<open>Operations\<close>

fun fsign :: "fp \<Rightarrow> bool" where
  "fsign (Fin s q) = s"
| "fsign (Inf s) = s"
| "fsign NaN = False"

definition fround_val :: "fmt \<Rightarrow> bool \<Rightarrow> rat \<Rightarrow> fp" where
  "fround_val f zero_sign v =
     (if v = 0 then Fin zero_sign 0 else fround f (v < 0) \<bar>v\<bar>)"

fun fmul :: "fmt \<Rightarrow> fp \<Rightarrow> fp \<Rightarrow> fp" where
  "fmul f NaN y = NaN"
| "fmul f x NaN = NaN"
| "fmul f (Inf s) (Inf t) = Inf (s \<noteq> t)"
| "fmul f (Inf s) (Fin t q) = (if q = 0 then NaN else Inf (s \<noteq> t))"
| "fmul f (Fin s p) (Inf t) = (if p = 0 then NaN else Inf (s \<noteq> t))"
| "fmul f (Fin s p) (Fin t q) = fround f (s \<noteq> t) \<bar>p * q\<bar>"

fun fdiv :: "fmt \<Rightarrow> fp \<Rightarrow> fp \<Rightarrow> fp" where
  "fdiv f NaN y = NaN"
| "fdiv f x NaN = NaN"
| "fdiv f (Inf s) (Inf t) = NaN"
| "fdiv f (Inf s) (Fin t q) = Inf (s \<noteq> t)"
| "fdiv f (Fin s p) (Inf t) = Fin (s \<noteq> t) 0"
| "fdiv f (Fin s p) (Fin t q) =
     (if q = 0 then (if p = 0 then NaN else Inf (s \<noteq> t)) else fround f (s \<noteq> t) \<bar>p / q\<bar>)"

fun fadd :: "fmt \<Rightarrow> fp \<Rightarrow> fp \<Rightarrow> fp" where
  "fadd f NaN y = NaN"
| "fadd f x NaN = NaN"
| "fadd f (Inf s) (Inf t) = (if s = t then Inf s else NaN)"
| "fadd f (Inf s) (Fin t q) = Inf s"
| "fadd f (Fin s p) (Inf t) = Inf t"
| "fadd f (Fin s p) (Fin t q) = fround_val f (s \<and> t) (fval (Fin s p) + fval (Fin t q))"

fun fneg :: "fp \<Rightarrow> fp" where
  "fneg NaN = NaN"
| "fneg (Inf s) = Inf (\<not> s)"
| "fneg (Fin s q) = Fin (\<not> s) q"

definition fsub :: "fmt \<Rightarrow> fp \<Rightarrow> fp \<Rightarrow> fp" where
  "fsub f x y = fadd f x (fneg y)"

fun fabs :: "fp \<Rightarrow> fp" where
  "fabs NaN = NaN"
| "fabs (Inf s) = Inf False"
| "fabs (Fin s q) = Fin False q"

text \<open>Comparisons are false on a NaN.\<close>

fun flt :: "fp \<Rightarrow> fp \<Rightarrow> bool" where
  "flt NaN y = False"
| "flt x NaN = False"
| "flt (Inf s) (Inf t) = (s \<and> \<not> t)"
| "flt (Inf s) (Fin t q) = s"
| "flt (Fin s p) (Inf t) = (\<not> t)"
| "flt (Fin s p) (Fin t q) = (fval (Fin s p) < fval (Fin t q))"

fun fle :: "fp \<Rightarrow> fp \<Rightarrow> bool" where
  "fle NaN y = False"
| "fle x NaN = False"
| "fle (Inf s) (Inf t) = (s \<or> \<not> t)"
| "fle (Inf s) (Fin t q) = s"
| "fle (Fin s p) (Inf t) = (\<not> t)"
| "fle (Fin s p) (Fin t q) = (fval (Fin s p) \<le> fval (Fin t q))"

definition feq :: "fp \<Rightarrow> fp \<Rightarrow> bool" where
  "feq x y \<longleftrightarrow> fle x y \<and> fle y x"

text \<open>\<open>std::min(a, b)\<close> is \<open>b < a ? b : a\<close>; \<open>std::max(a, b)\<close> is \<open>a < b ? b : a\<close>.\<close>

definition fmin :: "fp \<Rightarrow> fp \<Rightarrow> fp" where
  "fmin a b = (if flt b a then b else a)"

definition fmax :: "fp \<Rightarrow> fp \<Rightarrow> fp" where
  "fmax a b = (if flt a b then b else a)"

text \<open>Conversions: an integer rounds to the format; \<open>std::ceil\<close> keeps the sign.\<close>

definition fof_int :: "fmt \<Rightarrow> int \<Rightarrow> fp" where
  "fof_int f i = fround f (i < 0) (of_int \<bar>i\<bar>)"

fun fceil :: "fp \<Rightarrow> fp" where
  "fceil (Fin s q) = Fin s (of_int \<bar>\<lceil>fval (Fin s q)\<rceil>\<bar>)"
| "fceil x = x"

text \<open>\<open>static_cast<int64_t>\<close> of a finite value truncates towards zero.\<close>

fun ftrunc :: "fp \<Rightarrow> int" where
  "ftrunc (Fin s q) = (if s then - \<lfloor>\<bar>q\<bar>\<rfloor> else \<lfloor>\<bar>q\<bar>\<rfloor>)"
| "ftrunc _ = 0"

definition fzero :: fp where "fzero = Fin False 0"
definition fone :: fp where "fone = Fin False 1"

section \<open>Lemmas on the exponent and on rounding to an integer\<close>

named_theorems fp_eval \<open>rules that evaluate the rounding of a concrete rational\<close>

lemma bitlen_numeral [fp_eval]:
  "bitlen 1 = 1"
  "bitlen (numeral (num.Bit0 n)) = bitlen (numeral n) + 1"
  "bitlen (numeral (num.Bit1 n)) = bitlen (numeral n) + 1"
  by (simp_all add: compute_bitlen [of 1] compute_bitlen [of "numeral (num.Bit0 n)"]
      compute_bitlen [of "numeral (num.Bit1 n)"])

lemma floor_rat_numeral [fp_eval]:
  "\<lfloor>numeral a / numeral b :: rat\<rfloor> = numeral a div numeral b"
  "\<lfloor>1 / numeral b :: rat\<rfloor> = 1 div numeral b"
  using floor_divide_of_int_eq [of "numeral a" "numeral b", where ?'a = rat]
    floor_divide_of_int_eq [of 1 "numeral b", where ?'a = rat]
  by simp_all

lemma ceiling_rat_numeral [fp_eval]:
  "\<lceil>numeral a / numeral b :: rat\<rceil> = - ((- numeral a) div numeral b)"
  "\<lceil>1 / numeral b :: rat\<rceil> = - ((- 1) div numeral b)"
  using ceiling_divide_eq_div [of "numeral a" "numeral b", where ?'a = rat]
    ceiling_divide_eq_div [of 1 "numeral b", where ?'a = rat]
  by simp_all

lemma bitlen_powi:
  assumes "0 < n"
  shows "2 powi (bitlen n - 1) \<le> (of_int n :: rat)" and "of_int n + 1 \<le> (2 powi bitlen n :: rat)"
proof -
  have b: "1 \<le> bitlen n" using assms bitlen_eq_zero_iff [of n] bitlen_nonneg [of n] by linarith
  from bitlen_bounds [OF assms]
  have "2 ^ nat (bitlen n - 1) \<le> n" and "n + 1 \<le> 2 ^ nat (bitlen n)" by linarith+
  then have "of_int (2 ^ nat (bitlen n - 1)) \<le> (of_int n :: rat)"
    and "(of_int (n + 1) :: rat) \<le> of_int (2 ^ nat (bitlen n))"
    by (simp_all only: of_int_le_iff)
  with b show "2 powi (bitlen n - 1) \<le> (of_int n :: rat)"
    and "of_int n + 1 \<le> (2 powi bitlen n :: rat)"
    by (simp_all add: power_int_nonneg_exp)
qed

lemma ilog2_bounds:
  assumes "0 < q"
  shows "2 powi ilog2 q \<le> q" and "q < 2 powi (ilog2 q + 1)"
proof -
  have "2 powi ilog2 q \<le> q \<and> q < 2 powi (ilog2 q + 1)"
  proof (cases "1 \<le> q")
    case True
    then have "0 < \<lfloor>q\<rfloor>" by simp
    note b = bitlen_powi [OF this]
    have "2 powi (bitlen \<lfloor>q\<rfloor> - 1) \<le> q" and "q < 2 powi bitlen \<lfloor>q\<rfloor>"
      using b of_int_floor_le [of q] floor_correct [of q] by linarith+
    then show ?thesis using True by (simp add: ilog2_def)
  next
    case False
    define m where "m = \<lceil>1 / q\<rceil> - 1"
    from False assms have "1 < 1 / q" by simp
    then have "0 < m" unfolding m_def by linarith
    note b = bitlen_powi [OF this]
    have "of_int m < 1 / q" and "1 / q \<le> of_int m + 1" unfolding m_def by linarith+
    with b have lo: "2 powi (bitlen m - 1) < 1 / q" and hi: "1 / q \<le> 2 powi bitlen m"
      by linarith+
    have "1 / 2 powi bitlen m \<le> q"
      using hi assms by (simp add: field_simps)
    moreover have "q < 1 / 2 powi (bitlen m - 1)"
      using lo assms by (simp add: field_simps)
    ultimately show ?thesis
      using False by (simp add: ilog2_def m_def [symmetric] flip: power_int_minus_divide)
  qed
  then show "2 powi ilog2 q \<le> q" and "q < 2 powi (ilog2 q + 1)" by simp_all
qed

lemma powi2_less_iff [simp]: "(2::rat) powi a < 2 powi b \<longleftrightarrow> a < b"
  by (metis linorder_not_less one_less_numeral_iff power_int_increasing
      power_int_strict_increasing rel_simps(9) less_eq_rat_def one_le_numeral semiring_norm(76))

lemma powi2_le_iff [simp]: "(2::rat) powi a \<le> 2 powi b \<longleftrightarrow> a \<le> b"
  using powi2_less_iff [of b a] by linarith

lemma powi2_add: "(2::rat) powi (a + b) = 2 powi a * 2 powi b"
  by (simp add: power_int_add)

lemma ilog2_unique:
  assumes "2 powi k \<le> q" and "q < 2 powi (k + 1)"
  shows "ilog2 q = k"
proof -
  have "0 < q" using assms(1) by (rule less_le_trans [rotated]) simp
  note b = ilog2_bounds [OF this]
  from assms(1) b(2) have "(2::rat) powi k < 2 powi (ilog2 q + 1)" by (rule le_less_trans)
  moreover from b(1) assms(2) have "(2::rat) powi ilog2 q < 2 powi (k + 1)" by (rule le_less_trans)
  ultimately show ?thesis by simp
qed

lemma ilog2_less:
  assumes "0 < q" and "q < 2 powi k"
  shows "ilog2 q < k"
  using le_less_trans [OF ilog2_bounds(1) [OF assms(1)] assms(2)] by simp

lemma ilog2_mono: "0 < p \<Longrightarrow> p \<le> q \<Longrightarrow> ilog2 p \<le> ilog2 q"
  using ilog2_less [of p "ilog2 q + 1"] ilog2_bounds(2) [of q] by simp

lemma ilog2_scale:
  assumes "0 < q"
  shows "ilog2 (q * 2 powi j) = ilog2 q + j"
proof (rule ilog2_unique)
  note b = ilog2_bounds [OF assms]
  show "2 powi (ilog2 q + j) \<le> q * 2 powi j"
    using b(1) by (simp add: power_int_add)
  have "ilog2 q + j + 1 = (ilog2 q + 1) + j" by simp
  then have "(2::rat) powi (ilog2 q + j + 1) = 2 powi (ilog2 q + 1) * 2 powi j"
    by (simp only: powi2_add)
  then show "q * 2 powi j < 2 powi (ilog2 q + j + 1)" using b(2) by simp
qed

lemma round_half_even_floor:
  "round_half_even x = \<lfloor>x\<rfloor> \<or> round_half_even x = \<lfloor>x\<rfloor> + 1"
  by (simp add: round_half_even_def Let_def)

lemma round_half_even_int [simp]: "round_half_even (of_int i) = i"
  by (simp add: round_half_even_def)

lemma round_half_even_nearest: "\<bar>of_int (round_half_even x) - x\<bar> \<le> 1 / 2"
proof -
  have "of_int \<lfloor>x\<rfloor> \<le> x" and "x < of_int \<lfloor>x\<rfloor> + 1" by linarith+
  then show ?thesis by (auto simp: round_half_even_def Let_def abs_le_iff)
qed

lemma round_half_even_mono:
  assumes "x \<le> y"
  shows "round_half_even x \<le> round_half_even y"
proof (cases "\<lfloor>x\<rfloor> = \<lfloor>y\<rfloor>")
  case True
  then show ?thesis using assms by (auto simp: round_half_even_def Let_def)
next
  case False
  from assms have "\<lfloor>x\<rfloor> \<le> \<lfloor>y\<rfloor>" by (rule floor_mono)
  with False have "\<lfloor>x\<rfloor> + 1 \<le> \<lfloor>y\<rfloor>" by simp
  then show ?thesis using round_half_even_floor [of x] round_half_even_floor [of y] by linarith
qed

lemma round_half_even_le_int: "x \<le> of_int n \<Longrightarrow> round_half_even x \<le> n"
  using round_half_even_mono [of x "of_int n"] by simp

lemma round_half_even_ge_int: "of_int n \<le> x \<Longrightarrow> n \<le> round_half_even x"
  using round_half_even_mono [of "of_int n" x] by simp

section \<open>The contract of correct rounding\<close>

text \<open>
  What the components rely on is stated once for any sensible format: rounding is
  monotone, exact on representable values, stays below the format's limit for any
  magnitude the format can reach, and commutes with scaling by powers of two where
  nothing underflows.
\<close>

locale rounding =
  fixes f :: fmt
  assumes prec_pos: "1 < prec f"
    and emin_le: "emin f \<le> emax f - prec f"
begin

lemma ulp_exp_ge: "emin f \<le> ulp_exp f q" and ulp_exp_ge_ilog2: "ilog2 q - prec f + 1 \<le> ulp_exp f q"
  by (simp_all add: ulp_exp_def)

lemma scaled_less:
  assumes "0 < q"
  shows "q / 2 powi ulp_exp f q < 2 powi prec f"
proof -
  have "q < 2 powi (ilog2 q + 1)" using assms by (rule ilog2_bounds)
  also have "\<dots> \<le> 2 powi (prec f + ulp_exp f q)" using ulp_exp_ge_ilog2 [of q] by simp
  finally show ?thesis by (simp add: power_int_add field_simps)
qed

lemma significand_bounds:
  assumes "0 < q"
  shows "0 \<le> round_half_even (q / 2 powi ulp_exp f q)"
    and "of_int (round_half_even (q / 2 powi ulp_exp f q)) \<le> (2::rat) powi prec f"
proof -
  show "0 \<le> round_half_even (q / 2 powi ulp_exp f q)"
    using assms by (intro round_half_even_ge_int) simp
  have p: "(2::rat) powi prec f = of_int (2 ^ nat (prec f))"
    using prec_pos by (simp add: power_int_nonneg_exp)
  then have "round_half_even (q / 2 powi ulp_exp f q) \<le> 2 ^ nat (prec f)"
    using scaled_less [OF assms] by (intro round_half_even_le_int) simp
  then show "of_int (round_half_even (q / 2 powi ulp_exp f q)) \<le> (2::rat) powi prec f"
    unfolding p of_int_le_iff .
qed

lemma round_mag_nonneg: "0 \<le> q \<Longrightarrow> 0 \<le> round_mag f q"
  using significand_bounds(1) [of q] by (simp add: round_mag_def zero_le_mult_iff)

lemma round_mag_error:
  assumes "0 \<le> q"
  shows "\<bar>round_mag f q - q\<bar> \<le> 2 powi (ulp_exp f q - 1)"
proof (cases "q = 0")
  case False
  let ?u = "(2::rat) powi ulp_exp f q"
  have "round_mag f q - q = (of_int (round_half_even (q / ?u)) - q / ?u) * ?u"
    using False by (simp add: round_mag_def field_simps)
  then have "\<bar>round_mag f q - q\<bar> = \<bar>of_int (round_half_even (q / ?u)) - q / ?u\<bar> * ?u"
    by (simp add: abs_mult)
  also have "\<dots> \<le> 1 / 2 * ?u"
    by (intro mult_right_mono round_half_even_nearest) simp
  finally show ?thesis by (simp add: power_int_diff)
qed (simp add: round_mag_def)

text \<open>In the normal range the error is at most half a unit in the last place.\<close>

lemma round_mag_relative:
  assumes "0 < q" and "emin f \<le> ilog2 q - prec f + 1"
  shows "q * (1 - 2 powi (- prec f)) \<le> round_mag f q"
proof -
  have "\<bar>round_mag f q - q\<bar> \<le> 2 powi (ulp_exp f q - 1)"
    using assms(1) by (intro round_mag_error) simp
  also have "ulp_exp f q - 1 = ilog2 q + - prec f" using assms(2) by (simp add: ulp_exp_def)
  also have "(2::rat) powi (ilog2 q + - prec f) = 2 powi ilog2 q * 2 powi (- prec f)" by (rule powi2_add)
  also have "\<dots> \<le> q * 2 powi (- prec f)"
    using ilog2_bounds(1) [OF assms(1)] by (intro mult_right_mono) simp_all
  finally show ?thesis by (simp add: abs_le_iff field_simps)
qed

text \<open>A value with at most \<open>prec\<close> significant bits above the least exponent is kept.\<close>

lemma round_mag_exact_less:
  assumes "0 < m" and "of_int m < (2::rat) powi prec f" and "emin f \<le> j"
  shows "round_mag f (of_int m * 2 powi j) = of_int m * 2 powi j"
proof -
  let ?q = "(of_int m :: rat) * 2 powi j"
  have "?q < 2 powi (prec f + j)" using assms(2) by (simp add: power_int_add)
  then have "ilog2 ?q < prec f + j" using assms(1) by (intro ilog2_less) simp_all
  then have k: "ulp_exp f ?q \<le> j" using assms(3) by (simp add: ulp_exp_def)
  define e where "e = ulp_exp f ?q"
  define n where "n = nat (j - e)"
  have "j = int n + e" using k by (simp add: n_def e_def)
  then have j: "(2::rat) powi j = 2 ^ n * 2 powi e" by (simp add: powi2_add)
  have "?q / 2 powi e = of_int (m * 2 ^ n)" by (simp add: j)
  then have h: "round_half_even (?q / 2 powi e) = m * 2 ^ n"
    by (simp only: round_half_even_int)
  have "round_mag f ?q = of_int (round_half_even (?q / 2 powi e)) * 2 powi e"
    using assms(1) by (simp add: round_mag_def e_def)
  also have "\<dots> = ?q" by (simp only: h) (simp add: j)
  finally show ?thesis .
qed

lemma round_mag_exact:
  assumes "0 \<le> m" and "of_int m \<le> (2::rat) powi prec f" and "emin f \<le> j"
  shows "round_mag f (of_int m * 2 powi j) = of_int m * 2 powi j"
proof -
  consider "m = 0" | "0 < m" "of_int m < (2::rat) powi prec f" | "of_int m = (2::rat) powi prec f"
    using assms(1,2) by fastforce
  then show ?thesis
  proof cases
    case 3
    have "(of_int m :: rat) * 2 powi j = of_int 1 * 2 powi (prec f + j)"
      by (simp add: 3 powi2_add)
    moreover have "(of_int 1 :: rat) < 2 powi prec f"
      using prec_pos powi2_less_iff [of 0 "prec f"] by simp
    moreover have "emin f \<le> prec f + j" using prec_pos assms(3) by simp
    ultimately show ?thesis using round_mag_exact_less [of 1 "prec f + j"] by simp
  qed (use round_mag_exact_less assms(3) in \<open>simp_all add: round_mag_def\<close>)
qed

lemma round_mag_idem: "0 \<le> q \<Longrightarrow> round_mag f (round_mag f q) = round_mag f q"
proof -
  assume "0 \<le> q"
  moreover have "round_mag f 0 = 0" by (simp add: round_mag_def)
  moreover have "round_mag f (round_mag f q) = round_mag f q" if "0 < q"
  proof -
    have "round_mag f q = of_int (round_half_even (q / 2 powi ulp_exp f q)) * 2 powi ulp_exp f q"
      using that by (simp add: round_mag_def)
    then show ?thesis
      using round_mag_exact [OF significand_bounds [OF that] ulp_exp_ge] by simp
  qed
  ultimately show ?thesis by (cases "q = 0") auto
qed

text \<open>Monotonicity: within a binade by the rounding to an integer, across binades by the bounds.\<close>

lemma round_mag_le_binade:
  assumes "0 < q"
  shows "round_mag f q \<le> 2 powi (prec f + ulp_exp f q)"
  using significand_bounds(2) [OF assms] assms
  by (simp add: round_mag_def powi2_add)

lemma round_mag_ge_binade:
  assumes "0 < q" and "emin f \<le> ilog2 q - prec f + 1"
  shows "2 powi ilog2 q \<le> round_mag f q"
proof -
  let ?u = "ulp_exp f q"
  have u: "?u = ilog2 q - prec f + 1" using assms(2) by (simp add: ulp_exp_def)
  have p: "(2::rat) powi (prec f - 1) = of_int (2 ^ nat (prec f - 1))"
    using prec_pos by (simp add: power_int_nonneg_exp)
  have "2 powi (prec f - 1) * 2 powi ?u \<le> q"
    using ilog2_bounds(1) [OF assms(1)] by (simp add: u flip: powi2_add)
  then have "of_int (2 ^ nat (prec f - 1)) \<le> q / 2 powi ?u"
    unfolding p by (simp add: field_simps)
  then have "2 ^ nat (prec f - 1) \<le> round_half_even (q / 2 powi ?u)"
    by (rule round_half_even_ge_int)
  then have "2 powi (prec f - 1) \<le> (of_int (round_half_even (q / 2 powi ?u)) :: rat)"
    unfolding p of_int_le_iff .
  then have "2 powi (prec f - 1) * 2 powi ?u \<le> round_mag f q"
    using assms(1) by (simp add: round_mag_def)
  then show ?thesis by (simp add: u flip: powi2_add)
qed

lemma round_mag_mono:
  assumes "0 \<le> p" and "p \<le> q"
  shows "round_mag f p \<le> round_mag f q"
proof (cases "p = 0")
  case True
  then show ?thesis using round_mag_nonneg [of q] assms by (simp add: round_mag_def)
next
  case False
  with assms have p: "0 < p" and q: "0 < q" by simp_all
  have le: "ulp_exp f p \<le> ulp_exp f q"
    using ilog2_mono [OF p assms(2)] by (simp add: ulp_exp_def)
  show ?thesis
  proof (cases "ulp_exp f p = ulp_exp f q")
    case True
    have "round_half_even (p / 2 powi ulp_exp f q) \<le> round_half_even (q / 2 powi ulp_exp f q)"
      using assms(2) by (intro round_half_even_mono divide_right_mono) simp_all
    then show ?thesis using p q True by (simp add: round_mag_def)
  next
    case False
    with le have less: "ulp_exp f p < ulp_exp f q" by simp
    with ulp_exp_ge [of p] have u: "ulp_exp f q = ilog2 q - prec f + 1"
      by (auto simp: ulp_exp_def max_def split: if_splits)
    have "round_mag f p \<le> 2 powi (prec f + ulp_exp f p)" by (rule round_mag_le_binade [OF p])
    also have "\<dots> \<le> 2 powi ilog2 q" using less u by simp
    also have "\<dots> \<le> round_mag f q"
      using ulp_exp_ge [of q] u by (intro round_mag_ge_binade [OF q]) simp
    finally show ?thesis .
  qed
qed

lemma max_mag_exact: "round_mag f (max_mag f) = max_mag f"
  and max_mag_nonneg: "0 \<le> max_mag f"
  and max_mag_less: "max_mag f < 2 powi emax f"
proof -
  define m :: int where "m = 2 ^ nat (prec f) - 1"
  have m: "(of_int m :: rat) = 2 powi prec f - 1"
    using prec_pos by (simp add: m_def power_int_nonneg_exp)
  have "0 \<le> m" by (simp add: m_def)
  then show "round_mag f (max_mag f) = max_mag f"
    using round_mag_exact [of m "emax f - prec f"] emin_le by (simp add: max_mag_def m)
  show "0 \<le> max_mag f"
    using \<open>0 \<le> m\<close> by (simp add: max_mag_def flip: m)
  have "max_mag f < 2 powi prec f * 2 powi (emax f - prec f)"
    by (simp add: max_mag_def)
  then show "max_mag f < 2 powi emax f" by (simp flip: powi2_add)
qed

lemma fround_finite:
  assumes "0 \<le> q" and "q \<le> max_mag f"
  shows "isfinite (fround f s q)"
  using round_mag_mono [OF assms] max_mag_exact max_mag_less
  by (simp add: fround_def Let_def)

lemma fround_representable: "0 \<le> q \<Longrightarrow> representable f (fround f s q)"
  by (simp add: fround_def Let_def representable_def round_mag_idem round_mag_nonneg)

lemma fround_id: "representable f (Fin s q) \<Longrightarrow> fround f t q = Fin t q"
  by (simp add: fround_def Let_def representable_def)

text \<open>Scaling by a power of two is exact unless it leaves the normal range below.\<close>

lemma round_mag_scale:
  assumes "0 < q" and "emin f \<le> ilog2 q - prec f + 1" and "emin f \<le> ilog2 q + j - prec f + 1"
  shows "round_mag f (q * 2 powi j) = round_mag f q * 2 powi j"
proof -
  have "ulp_exp f (q * 2 powi j) = ulp_exp f q + j"
    using assms by (simp add: ulp_exp_def ilog2_scale)
  then show ?thesis using assms(1) by (simp add: round_mag_def powi2_add)
qed

end

interpretation b64: rounding binary64
  by unfold_locales (simp_all add: binary64_def)

interpretation x87: rounding extended80
  by unfold_locales (simp_all add: extended80_def)

text \<open>The rules that evaluate an operation on concrete rationals, as one bundle.\<close>

lemmas fround_eval = fround_def fround_val_def round_mag_def ulp_exp_def ilog2_def
  round_half_even_def binary64_def extended80_def Let_def power_int_minus fp_eval

text \<open>A value between two powers of two well inside the range rounds to one between them.\<close>

lemma fround_between:
  assumes "2 powi a \<le> q" and "q \<le> 2 powi b" and "-1000 \<le> a" and "b \<le> 1000"
  shows "\<exists>r. fround binary64 s q = Fin s r \<and> 2 powi a \<le> r \<and> r \<le> 2 powi b"
proof -
  have pos: "0 < q" by (rule less_le_trans [OF _ assms(1)]) simp
  have exact: "round_mag binary64 (2 powi j) = 2 powi j" if "-1000 \<le> j" for j
    using that b64.round_mag_exact [of 1 j] by (simp add: binary64_def)
  have "a \<le> b" using order.trans [OF assms(1,2)] by simp
  then have ge: "2 powi a \<le> round_mag binary64 q" and le: "round_mag binary64 q \<le> 2 powi b"
    using b64.round_mag_mono [OF _ assms(1)] b64.round_mag_mono [OF _ assms(2)] pos exact assms(3,4)
    by simp_all
  have "b < emax binary64" using assms(4) by (simp add: binary64_def)
  then have "(2::rat) powi b < 2 powi emax binary64" by (simp only: powi2_less_iff)
  then have "\<not> 2 powi emax binary64 \<le> round_mag binary64 q" using le by linarith
  with ge le show ?thesis by (simp add: fround_def Let_def)
qed

lemma fof_int_exact:
  assumes "\<bar>i\<bar> \<le> 2 ^ 53"
  shows "fof_int binary64 i = Fin (i < 0) (of_int \<bar>i\<bar>)"
proof -
  have "(of_int \<bar>i\<bar> :: rat) \<le> of_int (2 ^ 53)" using assms by (simp only: of_int_le_iff)
  then have "round_mag binary64 (of_int \<bar>i\<bar> * 2 powi 0) = of_int \<bar>i\<bar> * 2 powi 0"
    by (intro b64.round_mag_exact) (simp_all add: binary64_def)
  moreover have "(of_int \<bar>i\<bar> :: rat) < 2 powi emax binary64"
    using \<open>(of_int \<bar>i\<bar> :: rat) \<le> of_int (2 ^ 53)\<close> powi2_less_iff [of 53 1024]
    by (simp add: binary64_def)
  ultimately show ?thesis by (simp add: fof_int_def fround_def Let_def)
qed

lemma fround_x87_int:
  assumes "0 \<le> i" and "i \<le> 2 ^ 63"
  shows "fround extended80 s (of_int i) = Fin s (of_int i)"
proof -
  have le: "(of_int i :: rat) \<le> of_int (2 ^ 63)" using assms(2) by (simp only: of_int_le_iff)
  then have "round_mag extended80 (of_int i * 2 powi 0) = of_int i * 2 powi 0"
    using assms(1) by (intro x87.round_mag_exact) (simp_all add: extended80_def)
  moreover have "(of_int i :: rat) < 2 powi emax extended80"
  proof -
    have "(of_int i :: rat) \<le> 2 powi 63" using le by simp
    also have "(2::rat) powi 63 < 2 powi emax extended80"
      unfolding powi2_less_iff by (simp add: extended80_def)
    finally show ?thesis .
  qed
  ultimately show ?thesis by (simp add: fround_def Let_def)
qed

lemma isfinite_iff: "isfinite x \<longleftrightarrow> (\<exists>s q. x = Fin s q)"
  by (cases x) simp_all

end
