(* ===== verification/Types.thy ===== *)
theory Types
  imports Floating
begin

text \<open>
  The data model of the acquisition core and its validation:
  \<open>src/core/include/netft/types.hpp\<close>, \<open>src/core/src/types.cpp\<close> and
  \<open>src/core/src/detail/time.hpp\<close>. Structs are records, enums are datatypes, a
  \<open>std::chrono::duration<double>\<close> is the double it holds and a steady-clock time point
  is its nanosecond count.
\<close>

section \<open>Enumerations\<close>

datatype force_unit = FU_Unknown | PoundForce | Newton | KiloPoundForce | KiloNewton | KilogramForce

datatype torque_unit =
    TU_Unknown | PoundForceInch | PoundForceFoot | NewtonMeter | NewtonMillimeter
  | KilogramForceCentimeter | KiloNewtonMeter

datatype calibration_source = Sensor | Override
datatype recovery_policy = Reconnect | FailStop
datatype client_state = CS_Stopped | CS_Connecting | CS_Streaming | CS_Backoff | CS_Faulted

datatype fault_code =
    FC_None | FC_SensorConfiguration | FC_Timeout | FC_Socket | FC_SeriousStatus
  | FC_FtStall | FC_FtBackward | FC_MalformedStorm | FC_Callback

section \<open>Records\<close>

record calibration =
  counts_per_force_unit :: fp
  counts_per_torque_unit :: fp
  force_unit :: force_unit
  torque_unit :: torque_unit

record sensor_configuration =
  product_name :: string
  calibration :: calibration
  cfg_source :: calibration_source
  revision :: u64

record config =
  sensor_host :: string
  rdt_port :: int
  http_port :: int
  receive_timeout :: fp
  configuration_connect_timeout :: fp
  configuration_timeout :: fp
  reconnect_initial_delay :: fp
  reconnect_max_delay :: fp
  sample_rate_limit_hz :: fp
  deliver_samples_with_error_status :: bool
  recovery_policy :: recovery_policy
  calibration_override :: "calibration option"

text \<open>The member initialisers of \<open>Config\<close>: 0.1, 0.5, 1.0, 0.25, 5.0 as doubles.\<close>

definition dbl_0_1 :: fp where
  "dbl_0_1 = fround binary64 False (1 / 10)"

definition default_config :: config where
  "default_config =
     \<lparr>sensor_host = ''192.168.1.1'', rdt_port = 49152, http_port = 80,
      receive_timeout = dbl_0_1,
      configuration_connect_timeout = Fin False (1/2), configuration_timeout = fone,
      reconnect_initial_delay = Fin False (1/4), reconnect_max_delay = Fin False 5,
      sample_rate_limit_hz = fzero, deliver_samples_with_error_status = False,
      recovery_policy = Reconnect, calibration_override = None\<rparr>"

record sample =
  smp_rdt_sequence :: u32
  smp_ft_sequence :: u32
  smp_status :: u32
  raw_wrench :: "i32 list"
  smp_force :: "fp list"
  smp_torque :: "fp list"
  smp_force_unit :: force_unit
  smp_torque_unit :: torque_unit
  configuration_revision :: u64
  smp_received_at :: ticks

record health_snapshot =
  h_state :: client_state
  h_fault_code :: fault_code
  h_sensor_host :: string
  h_rdt_port :: int
  sensor_configuration :: "sensor_configuration option"
  last_rdt_sequence :: "u32 option"
  last_ft_sequence :: "u32 option"
  last_status :: u32
  receive_rate_hz :: fp
  delivery_rate_hz :: fp
  received_count :: u64
  delivered_count :: u64
  rate_limited_count :: u64
  device_error_count :: u64
  warning_count :: u64
  lost_count :: u64
  duplicate_count :: u64
  out_of_order_count :: u64
  malformed_count :: u64
  reconnect_count :: u64
  timeout_count :: u64
  callback_error_count :: u64
  ft_stall_count :: u64
  ft_backward_count :: u64
  ft_restart_count :: u64
  calibration_change_count :: u64
  last_record_age :: "fp option"
  last_error :: string
  last_ft_progress :: string

definition default_health :: health_snapshot where
  "default_health =
     \<lparr>h_state = CS_Stopped, h_fault_code = FC_None, h_sensor_host = [], h_rdt_port = 0,
      sensor_configuration = None, last_rdt_sequence = None, last_ft_sequence = None,
      last_status = 0, receive_rate_hz = fzero, delivery_rate_hz = fzero,
      received_count = 0, delivered_count = 0, rate_limited_count = 0,
      device_error_count = 0, warning_count = 0, lost_count = 0, duplicate_count = 0,
      out_of_order_count = 0, malformed_count = 0, reconnect_count = 0, timeout_count = 0,
      callback_error_count = 0, ft_stall_count = 0, ft_backward_count = 0,
      ft_restart_count = 0, calibration_change_count = 0, last_record_age = None,
      last_error = [], last_ft_progress = ''unknown''\<rparr>"

section \<open>Names of the enumerations\<close>

fun force_unit_to_string :: "force_unit \<Rightarrow> string" where
  "force_unit_to_string PoundForce = ''lbf''"
| "force_unit_to_string Newton = ''N''"
| "force_unit_to_string KiloPoundForce = ''klbf''"
| "force_unit_to_string KiloNewton = ''kN''"
| "force_unit_to_string KilogramForce = ''kgf''"
| "force_unit_to_string FU_Unknown = ''unknown''"

fun torque_unit_to_string :: "torque_unit \<Rightarrow> string" where
  "torque_unit_to_string PoundForceInch = ''lbf-in''"
| "torque_unit_to_string PoundForceFoot = ''lbf-ft''"
| "torque_unit_to_string NewtonMeter = ''N-m''"
| "torque_unit_to_string NewtonMillimeter = ''N-mm''"
| "torque_unit_to_string KilogramForceCentimeter = ''kgf-cm''"
| "torque_unit_to_string KiloNewtonMeter = ''kN-m''"
| "torque_unit_to_string TU_Unknown = ''unknown''"

definition force_unit_from_string :: "string \<Rightarrow> force_unit option" where
  "force_unit_from_string value =
     List.find (\<lambda>u. force_unit_to_string u = value)
       [FU_Unknown, PoundForce, Newton, KiloPoundForce, KiloNewton, KilogramForce]"

definition torque_unit_from_string :: "string \<Rightarrow> torque_unit option" where
  "torque_unit_from_string value =
     List.find (\<lambda>u. torque_unit_to_string u = value)
       [TU_Unknown, PoundForceInch, PoundForceFoot, NewtonMeter, NewtonMillimeter,
        KilogramForceCentimeter, KiloNewtonMeter]"

fun client_state_to_string :: "client_state \<Rightarrow> string" where
  "client_state_to_string CS_Stopped = ''stopped''"
| "client_state_to_string CS_Connecting = ''connecting''"
| "client_state_to_string CS_Streaming = ''streaming''"
| "client_state_to_string CS_Backoff = ''backoff''"
| "client_state_to_string CS_Faulted = ''faulted''"

fun fault_code_to_string :: "fault_code \<Rightarrow> string" where
  "fault_code_to_string FC_None = ''none''"
| "fault_code_to_string FC_SensorConfiguration = ''sensor_configuration''"
| "fault_code_to_string FC_Timeout = ''timeout''"
| "fault_code_to_string FC_Socket = ''socket''"
| "fault_code_to_string FC_SeriousStatus = ''serious_status''"
| "fault_code_to_string FC_FtStall = ''ft_stall''"
| "fault_code_to_string FC_FtBackward = ''ft_backward''"
| "fault_code_to_string FC_MalformedStorm = ''malformed_storm''"
| "fault_code_to_string FC_Callback = ''callback''"

text \<open>
  Both unit enumerations use the same lookup: the first enumerator whose name is the
  given string. The contract of a name table is that names are distinct and that every
  enumerator is listed; then the lookup inverts the printing.
\<close>

locale name_table =
  fixes to_str :: "'u \<Rightarrow> string" and from_str :: "string \<Rightarrow> 'u option" and units :: "'u list"
  assumes from_str_find: "from_str v = List.find (\<lambda>u. to_str u = v) units"
    and all_units: "u \<in> set units"
    and names_distinct: "to_str u = to_str u' \<Longrightarrow> u = u'"
begin

lemma from_str_iff: "from_str v = Some u \<longleftrightarrow> to_str u = v"
proof
  assume "from_str v = Some u"
  then show "to_str u = v" by (auto simp: from_str_find find_Some_iff)
next
  assume "to_str u = v"
  then show "from_str v = Some u"
    using all_units [of u] names_distinct
    by (cases "from_str v") (auto simp: from_str_find find_Some_iff find_None_iff)
qed

lemma from_str_to_str: "from_str (to_str u) = Some u"
  by (simp add: from_str_iff)

lemma from_str_None: "from_str v = None \<longleftrightarrow> v \<notin> range to_str"
  by (metis from_str_iff not_None_eq range_eqI rangeE option.discI)

end

interpretation force_names: name_table force_unit_to_string force_unit_from_string
  "[FU_Unknown, PoundForce, Newton, KiloPoundForce, KiloNewton, KilogramForce]"
proof unfold_locales
  show "u \<in> set [FU_Unknown, PoundForce, Newton, KiloPoundForce, KiloNewton, KilogramForce]" for u
    by (cases u) simp_all
  show "force_unit_to_string u = force_unit_to_string u' \<Longrightarrow> u = u'" for u u'
    by (cases u; cases u') simp_all
qed (rule force_unit_from_string_def)

interpretation torque_names: name_table torque_unit_to_string torque_unit_from_string
  "[TU_Unknown, PoundForceInch, PoundForceFoot, NewtonMeter, NewtonMillimeter,
    KilogramForceCentimeter, KiloNewtonMeter]"
proof unfold_locales
  show "u \<in> set [TU_Unknown, PoundForceInch, PoundForceFoot, NewtonMeter, NewtonMillimeter,
    KilogramForceCentimeter, KiloNewtonMeter]" for u
    by (cases u) simp_all
  show "torque_unit_to_string u = torque_unit_to_string u' \<Longrightarrow> u = u'" for u u'
    by (cases u; cases u') simp_all
qed (rule torque_unit_from_string_def)

section \<open>Checked durations and deadlines\<close>

definition checked_duration :: "fp \<Rightarrow> ticks result" where
  "checked_duration duration =
     (let ticks = fdiv extended80 (fmul extended80 duration (Fin False 1000000000)) fone
      in if \<not> isfinite ticks \<or> flt ticks fzero \<or> fle (Fin False (of_int ticks_max)) ticks
         then Inl (InvalidArgument ''duration is outside the supported steady-clock range'')
         else Inr (ftrunc ticks))"

definition checked_deadline :: "ticks \<Rightarrow> fp \<Rightarrow> ticks result" where
  "checked_deadline origin duration =
     and_then (checked_duration duration) (\<lambda>ticks.
       if origin > ticks_max - ticks
       then Inl (InvalidArgument ''deadline is outside the supported steady-clock range'')
       else Inr (origin + ticks))"

section \<open>Validation\<close>

definition is_blank :: "string \<Rightarrow> bool" where
  "is_blank value \<longleftrightarrow> value = [] \<or> list_all is_space value"

definition require_positive_finite :: "string \<Rightarrow> fp \<Rightarrow> unit result" where
  "require_positive_finite name value =
     throw_if (\<not> isfinite value \<or> fle value fzero)
       (InvalidArgument (name @ '' must be finite and positive''))"

text \<open>The steady-clock reading that \<open>checked_deadline\<close> starts from is the argument \<open>now\<close>.\<close>

definition require_safe_timeout :: "string \<Rightarrow> fp \<Rightarrow> bool \<Rightarrow> ticks \<Rightarrow> unit result" where
  "require_safe_timeout name value http now =
     and_then (require_positive_finite name value) (\<lambda>_.
     and_then (checked_duration value) (\<lambda>ticks.
     and_then (throw_if (ticks \<le> 0)
                (InvalidArgument (name @ '' is below the steady-clock resolution''))) (\<lambda>_.
     and_then (checked_deadline now value) (\<lambda>_.
     throw_if (http \<and> fle (Fin False (of_int ticks_max))
                            (fceil (fmul extended80 value (Fin False 1000))))
       (InvalidArgument (name @ '' is outside the HTTP timer range''))))))"

definition require_port :: "string \<Rightarrow> int \<Rightarrow> unit result" where
  "require_port name value =
     throw_if (value < 1 \<or> value > 65535)
       (InvalidArgument (name @ '' must be in the range 1..65535''))"

definition safe_count_minimum :: fp where
  "safe_count_minimum =
     fmul binary64 (fdiv binary64 (Fin False 2147483648) dbl_max)
                   (fadd binary64 fone (Fin False (2 powi -52)))"

definition require_safe_count :: "string \<Rightarrow> fp \<Rightarrow> unit result" where
  "require_safe_count name value =
     and_then (require_positive_finite name value) (\<lambda>_.
     throw_if (flt value safe_count_minimum)
       (InvalidArgument (name @ '' cannot represent the full raw count range'')))"

definition validate_calibration :: "calibration \<Rightarrow> unit result" where
  "validate_calibration c =
     and_then (require_safe_count ''counts_per_force_unit'' (counts_per_force_unit c)) (\<lambda>_.
     and_then (require_safe_count ''counts_per_torque_unit'' (counts_per_torque_unit c)) (\<lambda>_.
     throw_if (force_unit c = FU_Unknown \<or> torque_unit c = TU_Unknown)
       (InvalidArgument ''calibration units must be known'')))"

text \<open>Each timeout check reads the clock once, in this order: \<open>now k\<close> is the k-th reading.\<close>

definition validate_config :: "(nat \<Rightarrow> ticks) \<Rightarrow> config \<Rightarrow> unit result" where
  "validate_config now c =
     and_then (throw_if (is_blank (sensor_host c))
                (InvalidArgument ''sensor_host must not be blank'')) (\<lambda>_.
     and_then (require_port ''rdt_port'' (rdt_port c)) (\<lambda>_.
     and_then (require_port ''http_port'' (http_port c)) (\<lambda>_.
     and_then (require_safe_timeout ''receive_timeout'' (receive_timeout c) False (now 0)) (\<lambda>_.
     and_then (require_safe_timeout ''configuration_connect_timeout''
                (configuration_connect_timeout c) True (now 1)) (\<lambda>_.
     and_then (require_safe_timeout ''configuration_timeout''
                (configuration_timeout c) True (now 2)) (\<lambda>_.
     and_then (require_safe_timeout ''reconnect_initial_delay''
                (reconnect_initial_delay c) False (now 3)) (\<lambda>_.
     and_then (require_safe_timeout ''reconnect_max_delay''
                (reconnect_max_delay c) False (now 4)) (\<lambda>_.
     and_then (throw_if (flt (reconnect_max_delay c) (reconnect_initial_delay c))
                (InvalidArgument
                  ''reconnect_max_delay must not be below reconnect_initial_delay'')) (\<lambda>_.
     and_then (throw_if (\<not> isfinite (sample_rate_limit_hz c) \<or> flt (sample_rate_limit_hz c) fzero)
                (InvalidArgument ''sample_rate_limit_hz must be finite and non-negative'')) (\<lambda>_.
     (case calibration_override c of
        None \<Rightarrow> Inr ()
      | Some cal \<Rightarrow> validate_calibration cal)))))))))))"

section \<open>What validation guarantees\<close>


lemma fround_mag_nonneg: "0 \<le> q \<Longrightarrow> fround extended80 s q = Fin t r \<Longrightarrow> 0 \<le> r"
  by (auto simp: fround_def Let_def x87.round_mag_nonneg split: if_splits)

lemma checked_duration_bounds:
  assumes "checked_duration d = Inr t"
  shows "0 \<le> t" and "t < ticks_max"
proof -
  define x where "x = fdiv extended80 (fmul extended80 d (Fin False 1000000000)) fone"
  from assms have fin: "isfinite x" and pos: "\<not> flt x fzero"
    and less: "\<not> fle (Fin False (of_int ticks_max)) x" and t: "t = ftrunc x"
    by (auto simp: checked_duration_def Let_def x_def split: if_splits)
  from fin obtain s q where x: "x = Fin s q" by (auto simp: isfinite_iff)
  show "0 \<le> t" using pos by (auto simp: t x fzero_def split: if_splits)
  have "ftrunc x < ticks_max"
    using less floor_of_int [of 0, where ?'a = rat] zero_le_floor [of "\<bar>q\<bar>"]
    by (auto simp: x floor_less_iff ticks_max_def simp del: zero_le_floor split: if_splits)
  then show "t < ticks_max" by (simp add: t)
qed

lemma checked_deadline_bounds:
  assumes "checked_deadline origin d = Inr t"
  shows "origin \<le> t" and "t \<le> ticks_max"
  using assms checked_duration_bounds(1) [of d]
  by (auto simp: checked_deadline_def split: if_splits)

lemma checked_deadline_Inr:
  "checked_duration d = Inr t \<Longrightarrow> origin + t \<le> ticks_max \<Longrightarrow> checked_deadline origin d = Inr (origin + t)"
  by (auto simp: checked_deadline_def)

text \<open>The smallest accepted scale, computed as the compiler computes the constant.\<close>

lemma fround_eq: "round_mag f q = r \<Longrightarrow> r < 2 powi emax f \<Longrightarrow> fround f s q = Fin s r"
  by (simp add: fround_def)

definition safe_count_bound :: rat where
  "safe_count_bound = (1 + 1 / 2 ^ 51) * 2 powi -993"

lemma safe_count_bound_pos: "0 < safe_count_bound"
  by (simp add: safe_count_bound_def)

lemma safe_count_minimum_value: "safe_count_minimum = Fin False safe_count_bound"
proof -
  define k :: int where "k = -993"
  let ?y = "9007199254740992 / 9007199254740991 :: rat"
  let ?a = "1 + 1 / 2 ^ 52 :: rat" and ?b = "1 + 1 / 2 ^ 51 :: rat"
  have small: "a * 2 powi k < 2 powi emax binary64" if "a \<le> 2" for a :: rat
  proof -
    have "a * 2 powi k \<le> 2 powi (1 + k)" using that by (simp add: powi2_add)
    also have "\<dots> < 2 powi emax binary64" by (simp add: k_def binary64_def)
    finally show ?thesis .
  qed
  have scale: "round_mag binary64 (a * 2 powi k) = round_mag binary64 a * 2 powi k"
    if "1 \<le> a" and "ilog2 a = 0" for a
    using that by (intro b64.round_mag_scale) (simp_all add: k_def binary64_def)
  have y: "round_mag binary64 ?y = ?a" and a: "round_mag binary64 (?a * ?a) = ?b"
    and l: "ilog2 ?y = 0" "ilog2 (?a * ?a) = 0"
    by (simp_all add: fround_eval)
  have "max_mag binary64 = 9007199254740991 * 2 powi 971"
    by (simp add: max_mag_def binary64_def)
  moreover have "(2147483648 :: rat) / 2 powi 971 = 9007199254740992 * 2 powi k"
  proof -
    have "(2147483648 :: rat) = 9007199254740992 * 2 powi -22"
      by (simp add: power_int_minus)
    moreover have "(2::rat) powi -22 / 2 powi 971 = 2 powi k"
      by (simp add: k_def flip: power_int_diff)
    ultimately show ?thesis by simp
  qed
  ultimately have q: "2147483648 / max_mag binary64 = ?y * 2 powi k"
    by (simp add: field_simps)
  have m: "0 < max_mag binary64"
    by (simp add: max_mag_def binary64_def)
  have "round_mag binary64 (2147483648 / max_mag binary64) = ?a * 2 powi k"
    unfolding q using scale [of ?y] y l by simp
  from fround_eq [OF this small]
  have d: "fdiv binary64 (Fin False 2147483648) dbl_max = Fin False (?a * 2 powi k)"
    using m by (simp add: dbl_max_def)
  have e: "fadd binary64 fone (Fin False (2 powi -52)) = Fin False ?a"
    by (simp add: fone_def fround_eval)
  have "round_mag binary64 \<bar>?a * 2 powi k * ?a\<bar> = ?b * 2 powi k"
  proof -
    have "\<bar>?a * 2 powi k * ?a\<bar> = (?a * ?a) * 2 powi k" by simp
    then show ?thesis using scale [of "?a * ?a"] a l by simp
  qed
  from fround_eq [OF this small]
  have "fmul binary64 (Fin False (?a * 2 powi k)) (Fin False ?a) = Fin False (?b * 2 powi k)"
    by simp
  then show ?thesis by (simp only: safe_count_minimum_def safe_count_bound_def d e k_def)
qed

lemma require_safe_count_iff:
  "require_safe_count name v = Inr () \<longleftrightarrow> (\<exists>q. v = Fin False q \<and> safe_count_bound \<le> \<bar>q\<bar>)"
  using safe_count_bound_pos
  by (cases v)
    (auto simp: require_safe_count_def require_positive_finite_def fzero_def safe_count_minimum_value)

definition calibration_ok :: "calibration \<Rightarrow> bool" where
  "calibration_ok c \<longleftrightarrow>
     succeeds (require_safe_count [] (counts_per_force_unit c)) \<and>
     succeeds (require_safe_count [] (counts_per_torque_unit c)) \<and>
     force_unit c \<noteq> FU_Unknown \<and> torque_unit c \<noteq> TU_Unknown"

lemma validate_calibration_iff: "validate_calibration c = Inr () \<longleftrightarrow> calibration_ok c"
  by (auto simp: validate_calibration_def calibration_ok_def succeeds_iff require_safe_count_iff)

text \<open>A scaled raw count of a validated calibration is a finite double.\<close>

lemma safe_count_finite:
  assumes "require_safe_count name v = Inr ()"
  shows "isfinite (fdiv binary64 (fof_int binary64 (sint (raw :: i32))) v)"
proof -
  from assms obtain q where v: "v = Fin False q" and q: "safe_count_bound \<le> \<bar>q\<bar>"
    unfolding require_safe_count_iff by blast
  have qpos: "0 < \<bar>q\<bar>" using safe_count_bound_pos q by (rule less_le_trans)
  have raw: "\<bar>sint raw\<bar> \<le> 2 ^ 31"
    using sint_greater_eq [of raw] sint_less [of raw] by (simp add: abs_le_iff)
  then have n: "fof_int binary64 (sint raw) = Fin (sint raw < 0) (of_int \<bar>sint raw\<bar>)"
    by (intro fof_int_exact) simp
  have "(of_int \<bar>sint raw\<bar> :: rat) \<le> of_int (2 ^ 31)" using raw by (simp only: of_int_le_iff)
  then have "of_int \<bar>sint raw\<bar> / \<bar>q\<bar> \<le> 2 ^ 31 / safe_count_bound"
    using q safe_count_bound_pos by (intro frac_le) simp_all
  also have "\<dots> \<le> max_mag binary64"
    by (simp add: safe_count_bound_def max_mag_def binary64_def power_int_minus)
  finally have "isfinite (fround binary64 s (of_int \<bar>sint raw\<bar> / \<bar>q\<bar>))" for s
    using qpos by (intro b64.fround_finite) simp_all
  then show ?thesis using qpos by (simp add: n v)
qed

text \<open>
  The readable contract of an accepted configuration. Every timeout is a positive finite
  double of at least one clock tick whose deadline did not overflow when it was checked.
\<close>

definition timeout_ok :: "ticks \<Rightarrow> fp \<Rightarrow> bool" where
  "timeout_ok now v \<longleftrightarrow>
     (\<exists>t. checked_duration v = Inr t \<and> 0 < t \<and> now + t \<le> ticks_max) \<and>
     isfinite v \<and> flt fzero v"

definition http_timeout_ok :: "fp \<Rightarrow> bool" where
  "http_timeout_ok v \<longleftrightarrow> \<not> fle (Fin False (of_int ticks_max)) (fceil (fmul extended80 v (Fin False 1000)))"

lemma fle_fzero_iff: "isfinite v \<Longrightarrow> fle v fzero \<longleftrightarrow> \<not> flt fzero v"
  by (cases v) (auto simp: fzero_def)

lemma checked_deadline_iff:
  "checked_deadline origin d = Inr t \<longleftrightarrow>
     (\<exists>k. checked_duration d = Inr k \<and> origin + k \<le> ticks_max \<and> t = origin + k)"
  by (cases "checked_duration d") (auto simp: checked_deadline_def)

lemma require_safe_timeout_iff:
  "require_safe_timeout name v http now = Inr () \<longleftrightarrow>
     timeout_ok now v \<and> (http \<longrightarrow> http_timeout_ok v)"
  by (auto simp: require_safe_timeout_def require_positive_finite_def timeout_ok_def
      http_timeout_ok_def checked_deadline_iff fle_fzero_iff)

definition config_ok :: "(nat \<Rightarrow> ticks) \<Rightarrow> config \<Rightarrow> bool" where
  "config_ok now c \<longleftrightarrow>
     \<not> is_blank (sensor_host c) \<and> rdt_port c \<in> {1..65535} \<and> http_port c \<in> {1..65535} \<and>
     timeout_ok (now 0) (receive_timeout c) \<and>
     timeout_ok (now 1) (configuration_connect_timeout c) \<and>
     http_timeout_ok (configuration_connect_timeout c) \<and>
     timeout_ok (now 2) (configuration_timeout c) \<and> http_timeout_ok (configuration_timeout c) \<and>
     timeout_ok (now 3) (reconnect_initial_delay c) \<and>
     timeout_ok (now 4) (reconnect_max_delay c) \<and>
     \<not> flt (reconnect_max_delay c) (reconnect_initial_delay c) \<and>
     isfinite (sample_rate_limit_hz c) \<and> \<not> flt (sample_rate_limit_hz c) fzero \<and>
     pred_option calibration_ok (calibration_override c)"

lemma validate_config_iff: "validate_config now c = Inr () \<longleftrightarrow> config_ok now c"
  by (auto simp: validate_config_def config_ok_def require_port_def require_safe_timeout_iff
      validate_calibration_iff split: option.splits)

text \<open>
  What acceptance of a configuration means: a host, ports in range, every timeout and
  delay positive, finite, at least one tick and not overflowing the clock, delays in order, a
  usable rate limit, and a usable calibration if one is given.
\<close>

theorem accepted_config_contract: "validate_config now c = Inr () \<longleftrightarrow> config_ok now c"
  by (rule validate_config_iff)

text \<open>A calibration of a real sensor, for the concrete instances of the theorems.\<close>

definition example_calibration :: calibration where
  "example_calibration =
     \<lparr>counts_per_force_unit = Fin False 1000000, counts_per_torque_unit = Fin False 1000000,
      force_unit = Newton, torque_unit = NewtonMeter\<rparr>"

lemma safe_count_bound_le_1: "safe_count_bound \<le> 1"
  by (simp add: safe_count_bound_def power_int_minus)

lemma example_calibration_validates: "validate_calibration example_calibration = Inr ()"
  using order.trans [OF safe_count_bound_le_1, of 1000000]
  by (simp add: validate_calibration_iff calibration_ok_def succeeds_iff require_safe_count_iff
      example_calibration_def)

text \<open>
  A calibration that validates scales every raw count, the full 32-bit range included,
  to a finite double; the rejected ones are exactly those below the rounded-up minimum.
\<close>

theorem validated_counts_scale_finitely:
  assumes "validate_calibration c = Inr ()"
  shows "isfinite (fdiv binary64 (fof_int binary64 (sint (raw :: i32))) (counts_per_force_unit c))
    \<and> isfinite (fdiv binary64 (fof_int binary64 (sint raw)) (counts_per_torque_unit c))"
  using assms by (auto simp: validate_calibration_def intro: safe_count_finite)

theorem validated_counts_scale_finitely_witness:
  "isfinite (fdiv binary64 (fof_int binary64 (sint (0x80000000 :: i32))) (counts_per_force_unit example_calibration))"
  using validated_counts_scale_finitely [where c = example_calibration and raw = "0x80000000"]
  by (simp add: example_calibration_validates)

end
