(* ===== verification/Protocol.thy ===== *)
theory Protocol
  imports Types
begin

text \<open>
  The RDT wire format, \<open>src/core/src/detail/protocol.{hpp,cpp}\<close>: the 8-byte request and
  the 36-byte record, all fields in network byte order. Bytes are 8-bit words; the record
  parser gets the possibly null data pointer and the size, as the code does.
\<close>

section \<open>Requests\<close>

datatype command =
  StopStreaming | StartRealtime | StartBuffered | ResetConditionLatch | SetSoftwareBias

fun command_value :: "command \<Rightarrow> u16" where
  "command_value StopStreaming = 0x0000"
| "command_value StartRealtime = 0x0002"
| "command_value StartBuffered = 0x0003"
| "command_value ResetConditionLatch = 0x0041"
| "command_value SetSoftwareBias = 0x0042"

definition encode_request :: "command \<Rightarrow> u32 \<Rightarrow> u8 list" where
  "encode_request command count =
     (let v = command_value command
      in [0x12, 0x34, ucast (drop_bit 8 v), ucast v,
          ucast (drop_bit 24 count), ucast (drop_bit 16 count),
          ucast (drop_bit 8 count), ucast count])"

section \<open>Records\<close>

record raw_record =
  raw_rdt_sequence :: u32
  raw_ft_sequence :: u32
  raw_status :: u32
  fx :: i32
  fy :: i32
  fz :: i32
  tx :: i32
  ty :: i32
  tz :: i32

text \<open>The pointer argument \<open>data + n\<close> is the byte string and the offset \<open>n\<close>.\<close>

definition read_u32 :: "u8 list \<Rightarrow> nat \<Rightarrow> u32" where
  "read_u32 data n =
     push_bit 24 (ucast (data ! n)) OR push_bit 16 (ucast (data ! (n + 1)))
     OR push_bit 8 (ucast (data ! (n + 2))) OR ucast (data ! (n + 3))"

definition read_i32 :: "u8 list \<Rightarrow> nat \<Rightarrow> i32" where
  "read_i32 data n =
     (let v = read_u32 data n
      in if v \<le> 0x7fffffff then v else - (NOT v) - 1)"

definition decode_record :: "u8 list option \<Rightarrow> nat \<Rightarrow> raw_record result" where
  "decode_record data n =
     (if n \<noteq> 36
      then Inl (ProtocolError (''RDT record must be exactly 36 bytes, received '' @ dec_of_nat n))
      else case data of
        None \<Rightarrow> Inl (ProtocolError ''RDT record data must not be null'')
      | Some d \<Rightarrow> Inr
          \<lparr>raw_rdt_sequence = read_u32 d 0, raw_ft_sequence = read_u32 d 4,
           raw_status = read_u32 d 8, fx = read_i32 d 12, fy = read_i32 d 16,
           fz = read_i32 d 20, tx = read_i32 d 24, ty = read_i32 d 28, tz = read_i32 d 32\<rparr>)"

section \<open>The reference serialiser\<close>

text \<open>Big-endian bytes of a word, and the record a sensor sends.\<close>

definition be32 :: "u32 \<Rightarrow> u8 list" where
  "be32 w = [ucast (drop_bit 24 w), ucast (drop_bit 16 w), ucast (drop_bit 8 w), ucast w]"

definition serialise_record :: "raw_record \<Rightarrow> u8 list" where
  "serialise_record r =
     be32 (raw_rdt_sequence r) @ be32 (raw_ft_sequence r) @ be32 (raw_status r) @
     be32 (fx r) @ be32 (fy r) @ be32 (fz r) @ be32 (tx r) @ be32 (ty r) @ be32 (tz r)"

lemma be32_nth [simp]:
  "be32 w ! 0 = ucast (drop_bit 24 w)" "be32 w ! Suc 0 = ucast (drop_bit 16 w)"
  "be32 w ! 2 = ucast (drop_bit 8 w)" "be32 w ! 3 = ucast w"
  by (simp_all add: be32_def numeral_2_eq_2 numeral_3_eq_3)

lemma length_be32 [simp]: "length (be32 w) = 4"
  by (simp add: be32_def)

lemma bytes_of_word32:
  "push_bit 24 (ucast (ucast (drop_bit 24 w) :: u8)) OR push_bit 16 (ucast (ucast (drop_bit 16 w) :: u8))
   OR push_bit 8 (ucast (ucast (drop_bit 8 w) :: u8)) OR ucast (ucast w :: u8) = (w :: u32)"
  (is "?l = w")
proof (rule bit_word_eqI)
  fix n assume "n < LENGTH(32)"
  then consider "n < 8" | "8 \<le> n" "n < 16" | "16 \<le> n" "n < 24" | "24 \<le> n" "n < 32"
    by fastforce
  then show "bit ?l n = bit w n"
    by cases (auto simp: bit_or_iff bit_push_bit_iff bit_ucast_iff bit_drop_bit_eq)
qed

lemma word32_of_bytes:
  fixes a b c d :: u8
  defines "w \<equiv> (push_bit 24 (ucast a) OR push_bit 16 (ucast b) OR push_bit 8 (ucast c) OR ucast d :: u32)"
  shows "ucast (drop_bit 24 w) = a" and "ucast (drop_bit 16 w) = b"
    and "ucast (drop_bit 8 w) = c" and "ucast w = d"
  unfolding w_def
  by (rule bit_word_eqI,
      auto simp: bit_or_iff bit_push_bit_iff bit_ucast_iff bit_drop_bit_eq
        dest: bit_imp_le_length)+

lemma take_4_drop:
  assumes "n + 4 \<le> length d"
  shows "take 4 (drop n d) = [d ! n, d ! (n + 1), d ! (n + 2), d ! (n + 3)]"
proof -
  have "drop n d = d ! n # d ! (n + 1) # d ! (n + 2) # d ! (n + 3) # drop (n + 4) d"
    using assms by (simp add: Cons_nth_drop_Suc numeral_eq_Suc)
  then show ?thesis by (simp add: numeral_eq_Suc)
qed

lemma be32_read_u32:
  "n + 4 \<le> length d \<Longrightarrow> be32 (read_u32 d n) = take 4 (drop n d)"
  unfolding take_4_drop be32_def read_u32_def by (simp only: word32_of_bytes)

text \<open>The sign conversion is the identity on the bits: a two's complement reading.\<close>

lemma read_i32_eq: "read_i32 d n = read_u32 d n"
  by (simp add: read_i32_def Let_def not_eq_complement)

lemma read_u32_be32:
  assumes "n + 4 \<le> length d" and "take 4 (drop n d) = be32 w"
  shows "read_u32 d n = w"
proof -
  have "d ! (n + k) = be32 w ! k" if "k < 4" for k
    using that assms(1) by (simp flip: assms(2))
  from this [of 0] this [of 1] this [of 2] this [of 3] show ?thesis
    by (simp add: read_u32_def bytes_of_word32)
qed

lemma serialise_drop:
  "take 4 (drop 0 (serialise_record r)) = be32 (raw_rdt_sequence r)"
  "take 4 (drop 4 (serialise_record r)) = be32 (raw_ft_sequence r)"
  "take 4 (drop 8 (serialise_record r)) = be32 (raw_status r)"
  "take 4 (drop 12 (serialise_record r)) = be32 (fx r)"
  "take 4 (drop 16 (serialise_record r)) = be32 (fy r)"
  "take 4 (drop 20 (serialise_record r)) = be32 (fz r)"
  "take 4 (drop 24 (serialise_record r)) = be32 (tx r)"
  "take 4 (drop 28 (serialise_record r)) = be32 (ty r)"
  "take 4 (drop 32 (serialise_record r)) = be32 (tz r)"
  by (simp_all add: serialise_record_def)

lemma length_serialise_record [simp]: "length (serialise_record r) = 36"
  by (simp add: serialise_record_def)

lemma decode_serialised:
  "decode_record (Some (serialise_record r)) (length (serialise_record r)) = Inr r"
proof -
  have "read_u32 (serialise_record r) 0 = raw_rdt_sequence r"
    "read_u32 (serialise_record r) 4 = raw_ft_sequence r"
    "read_u32 (serialise_record r) 8 = raw_status r"
    "read_u32 (serialise_record r) 12 = fx r" "read_u32 (serialise_record r) 16 = fy r"
    "read_u32 (serialise_record r) 20 = fz r" "read_u32 (serialise_record r) 24 = tx r"
    "read_u32 (serialise_record r) 28 = ty r" "read_u32 (serialise_record r) 32 = tz r"
    by (simp_all add: serialise_drop [THEN read_u32_be32 [rotated]])
  then show ?thesis by (simp add: decode_record_def read_i32_eq)
qed

text \<open>Parsing what the reference serialiser wrote gives the record back.\<close>

theorem decode_serialise_record:
  "decode_record (Some (serialise_record r)) (length (serialise_record r)) = Inr r"
  by (rule decode_serialised)

lemma take_chunk: "take n (drop k d) @ drop (k + n) d = drop k d"
  by (metis append_take_drop_id drop_drop add.commute)

text \<open>Every datagram of 36 bytes is accepted, and its record serialises to those bytes.\<close>

lemma decode_record_complete:
  assumes "length d = 36"
  shows "\<exists>r. decode_record (Some d) 36 = Inr r \<and> serialise_record r = d"
proof -
  obtain r where r: "decode_record (Some d) 36 = Inr r"
    by (simp add: decode_record_def)
  have "serialise_record r =
      take 4 (drop 0 d) @ take 4 (drop 4 d) @ take 4 (drop 8 d) @ take 4 (drop 12 d) @
      take 4 (drop 16 d) @ take 4 (drop 20 d) @ take 4 (drop 24 d) @ take 4 (drop 28 d) @
      take 4 (drop 32 d)"
    using r assms by (auto simp: decode_record_def read_i32_eq serialise_record_def be32_read_u32)
  also have "\<dots> = d"
    using assms take_chunk [of 4 0 d] take_chunk [of 4 4 d] take_chunk [of 4 8 d]
      take_chunk [of 4 12 d] take_chunk [of 4 16 d] take_chunk [of 4 20 d]
      take_chunk [of 4 24 d] take_chunk [of 4 28 d] take_chunk [of 4 32 d]
    by simp
  finally show ?thesis using r by blast
qed

lemma decode_record_Inl:
  "n \<noteq> 36 \<Longrightarrow> \<exists>m. decode_record d n = Inl (ProtocolError m)"
  by (simp add: decode_record_def)

text \<open>
  C26: exactly the datagrams of 36 bytes are records. Such a datagram is accepted and its
  record serialises to the same bytes, so no byte is ignored; any other is a protocol error.
\<close>

theorem decode_record_exact:
  "case decode_record (Some d) (length d) of
     Inr r \<Rightarrow> length d = 36 \<and> serialise_record r = d
   | Inl e \<Rightarrow> length d \<noteq> 36 \<and> (\<exists>m. e = ProtocolError m)"
proof (cases "length d = 36")
  case True
  then show ?thesis using decode_record_complete [OF True] by auto
next
  case False
  then show ?thesis using decode_record_Inl [OF False, of "Some d"] by auto
qed

end
