(* ===== verification/Sequence.thy ===== *)
theory Sequence
  imports Types
begin

text \<open>
  The two progress trackers of \<open>src/core/src/detail/sequence.{hpp,cpp}\<close>: the RDT sequence
  of the UDP session and the free-running FT counter of the device, both 32-bit and
  compared modulo wrap-around.
\<close>

section \<open>RDT sequence\<close>

datatype sequence_kind = Seq_First | Contiguous | Gap | Duplicate | OutOfOrder

record sequence_observation =
  seq_kind :: sequence_kind
  gap :: u32

record rdt_tracker =
  rdt_has_last :: bool
  rdt_previous :: u32

definition rdt_init :: rdt_tracker where
  "rdt_init = \<lparr>rdt_has_last = False, rdt_previous = 0\<rparr>"

definition rdt_observe :: "u32 \<Rightarrow> rdt_tracker \<Rightarrow> rdt_tracker \<times> sequence_observation" where
  "rdt_observe current t =
     (if \<not> rdt_has_last t
      then (t\<lparr>rdt_has_last := True, rdt_previous := current\<rparr>, \<lparr>seq_kind = Seq_First, gap = 0\<rparr>)
      else let delta = current - rdt_previous t in
        if delta = 0 then (t, \<lparr>seq_kind = Duplicate, gap = 0\<rparr>)
        else if delta < 0x80000000
        then (t\<lparr>rdt_previous := current\<rparr>,
              if delta = 1 then \<lparr>seq_kind = Contiguous, gap = 0\<rparr>
              else \<lparr>seq_kind = Gap, gap = delta - 1\<rparr>)
        else (t, \<lparr>seq_kind = OutOfOrder, gap = 0\<rparr>))"

definition rdt_reset :: "rdt_tracker \<Rightarrow> rdt_tracker" where
  "rdt_reset t = t\<lparr>rdt_has_last := False\<rparr>"

section \<open>FT counter\<close>

datatype ft_sequence_kind = Ft_First | Forward | Stall | Backward | Restart

record ft_tracker =
  ft_has_last :: bool
  ft_previous :: u32
  has_restart_candidate :: bool
  restart_candidate :: u32

definition ft_init :: ft_tracker where
  "ft_init = \<lparr>ft_has_last = False, ft_previous = 0, has_restart_candidate = False,
     restart_candidate = 0\<rparr>"

definition restart_low_max :: u32 where
  "restart_low_max = 0x0000ffff"

definition restart_min_baseline :: u32 where
  "restart_min_baseline = restart_low_max + 1"

definition ft_begin_session :: "ft_tracker \<Rightarrow> ft_tracker" where
  "ft_begin_session t = t\<lparr>has_restart_candidate := False\<rparr>"

definition restart_confirmed :: "u32 \<Rightarrow> ft_tracker \<Rightarrow> bool" where
  "restart_confirmed current t \<longleftrightarrow>
     restart_min_baseline \<le> ft_previous t \<and> has_restart_candidate t \<and>
     restart_candidate t \<le> restart_low_max \<and> current \<le> restart_low_max \<and>
     (let candidate_delta = current - restart_candidate t
      in 0 < candidate_delta \<and> candidate_delta < 0x80000000)"

definition ft_observe :: "u32 \<Rightarrow> ft_tracker \<Rightarrow> ft_tracker \<times> ft_sequence_kind" where
  "ft_observe current t =
     (if \<not> ft_has_last t then (t\<lparr>ft_has_last := True, ft_previous := current\<rparr>, Ft_First)
      else if current = ft_previous t then (t\<lparr>has_restart_candidate := False\<rparr>, Stall)
      else if current - ft_previous t < 0x80000000
      then (t\<lparr>ft_previous := current, has_restart_candidate := False\<rparr>, Forward)
      else if restart_confirmed current t
      then (t\<lparr>ft_previous := current, has_restart_candidate := False\<rparr>, Restart)
      else (t\<lparr>restart_candidate := current, has_restart_candidate := True\<rparr>, Backward))"

section \<open>The contract of a progress tracker\<close>

text \<open>
  The client relies on both trackers in the same way: the first observation is taken as
  the baseline, an observation that advances becomes the new baseline, any other leaves
  the baseline alone, a repeated value never advances and a value within the forward half
  of the circle always does.
\<close>

locale progress_tracker =
  fixes observe :: "u32 \<Rightarrow> 't \<Rightarrow> 't \<times> 'k"
    and has_last :: "'t \<Rightarrow> bool" and last_value :: "'t \<Rightarrow> u32"
    and advances :: "'k \<Rightarrow> bool"
  assumes keeps_has_last: "has_last (fst (observe v t))"
    and first: "\<not> has_last t \<Longrightarrow> advances (snd (observe v t))"
    and moves: "advances (snd (observe v t)) \<Longrightarrow> last_value (fst (observe v t)) = v"
    and stays: "\<not> advances (snd (observe v t)) \<Longrightarrow> last_value (fst (observe v t)) = last_value t"
    and repeats: "has_last t \<Longrightarrow> v = last_value t \<Longrightarrow> \<not> advances (snd (observe v t))"
    and forward: "has_last t \<Longrightarrow> v \<noteq> last_value t \<Longrightarrow> v - last_value t < 0x80000000 \<Longrightarrow>
      advances (snd (observe v t))"
begin

text \<open>Accepting a value makes it the baseline, so an immediate repeat is refused.\<close>

lemma accepted_once:
  "advances (snd (observe v t)) \<Longrightarrow> \<not> advances (snd (observe v (fst (observe v t))))"
  by (simp add: repeats keeps_has_last moves)

primrec observe_all :: "u32 list \<Rightarrow> 't \<Rightarrow> 't" where
  "observe_all [] t = t"
| "observe_all (v # vs) t = observe_all vs (fst (observe v t))"

lemma observe_all_last:
  "vs \<noteq> [] \<Longrightarrow> has_last (observe_all vs t) \<and>
     (last_value (observe_all vs t) \<in> set vs \<or> last_value (observe_all vs t) = last_value t)"
proof (induction vs arbitrary: t)
  case (Cons v vs)
  show ?case
    using Cons.IH [of "fst (observe v t)"] moves [of v t] stays [of v t] keeps_has_last [of v t]
    by (cases "vs = []"; cases "advances (snd (observe v t))") auto
qed simp

end

definition rdt_advances :: "sequence_observation \<Rightarrow> bool" where
  "rdt_advances ob \<longleftrightarrow> seq_kind ob \<in> {Seq_First, Contiguous, Gap}"

definition ft_advances :: "ft_sequence_kind \<Rightarrow> bool" where
  "ft_advances k \<longleftrightarrow> k \<in> {Ft_First, Forward, Restart}"

interpretation rdt: progress_tracker rdt_observe rdt_has_last rdt_previous rdt_advances
  by unfold_locales (auto simp: rdt_observe_def rdt_advances_def Let_def split: if_splits)

interpretation ft: progress_tracker ft_observe ft_has_last ft_previous ft_advances
  by unfold_locales (auto simp: ft_observe_def ft_advances_def split: if_splits)

section \<open>Loss accounting across wrap-around\<close>

text \<open>What the client adds to its 64-bit loss counter over a list of observations.\<close>

fun rdt_lost :: "u32 list \<Rightarrow> rdt_tracker \<Rightarrow> u64" where
  "rdt_lost [] t = 0"
| "rdt_lost (v # vs) t =
     (let (t', ob) = rdt_observe v t
      in (if seq_kind ob = Gap then ucast (gap ob) else 0) + rdt_lost vs t')"

fun rdt_kinds :: "u32 list \<Rightarrow> rdt_tracker \<Rightarrow> sequence_kind list" where
  "rdt_kinds [] t = []"
| "rdt_kinds (v # vs) t =
     (let (t', ob) = rdt_observe v t in seq_kind ob # rdt_kinds vs t')"

text \<open>
  The sensor numbers its records; the numbers that arrive increase by less than half of
  the 32-bit circle each time.
\<close>

fun arrives :: "nat \<Rightarrow> nat list \<Rightarrow> bool" where
  "arrives n [] = True"
| "arrives n (m # ms) = (n < m \<and> m - n < 0x80000000 \<and> arrives m ms)"

lemma word_delta:
  assumes "n < m" and "m - n < 0x80000000"
  shows "(word_of_nat m - word_of_nat n :: u32) = word_of_nat (m - n)"
    and "unat (word_of_nat (m - n) :: u32) = m - n"
  using assms by (simp, simp add: unat_of_nat del: of_nat_diff)

lemma rdt_observe_arrival:
  assumes "rdt_has_last t" and "rdt_previous t = word_of_nat n"
    and "n < m" and "m - n < 0x80000000"
  shows "rdt_observe (word_of_nat m) t =
    (t\<lparr>rdt_previous := word_of_nat m\<rparr>,
     if m = n + 1 then \<lparr>seq_kind = Contiguous, gap = 0\<rparr>
     else \<lparr>seq_kind = Gap, gap = word_of_nat (m - n - 1)\<rparr>)"
proof -
  let ?d = "word_of_nat (m - n) :: u32"
  note d = word_delta [OF assms(3,4)]
  have "?d \<noteq> 0" using d(2) assms(3) by (auto simp flip: unat_eq_0)
  moreover have "?d < 0x80000000" using d(2) assms(4) by (simp add: word_less_nat_alt)
  moreover have "?d = 1 \<longleftrightarrow> m = n + 1"
    using d(2) assms(3) by (auto simp: word_unat_eq_iff)
  moreover have "?d - 1 = word_of_nat (m - n - 1)" using assms(3) by (simp add: of_nat_diff)
  ultimately show ?thesis
    using assms(1) by (simp add: rdt_observe_def Let_def assms(2) d(1))
qed

lemma rdt_lost_arrivals:
  assumes "rdt_has_last t" and "rdt_previous t = word_of_nat n" and "arrives n ms"
  shows "rdt_lost (map word_of_nat ms) t = word_of_nat (last (n # ms) - n - length ms)
    \<and> n + length ms \<le> last (n # ms) \<and> set (rdt_kinds (map word_of_nat ms) t) \<subseteq> {Contiguous, Gap}"
  using assms
proof (induction ms arbitrary: n t)
  case (Cons m ms)
  from Cons.prems(3) have m: "n < m" "m - n < 0x80000000" and rest: "arrives m ms" by simp_all
  note ob = rdt_observe_arrival [OF Cons.prems(1,2) m]
  have IH: "rdt_lost (map word_of_nat ms) (t\<lparr>rdt_previous := word_of_nat m\<rparr>)
      = word_of_nat (last (m # ms) - m - length ms)
    \<and> m + length ms \<le> last (m # ms)
    \<and> set (rdt_kinds (map word_of_nat ms) (t\<lparr>rdt_previous := word_of_nat m\<rparr>)) \<subseteq> {Contiguous, Gap}"
    using Cons.prems(1) rest by (intro Cons.IH) simp_all
  have gap: "(ucast (word_of_nat (m - n - 1) :: u32) :: u64) = word_of_nat (m - n - 1)"
    using m by (intro word_unat_eq_iff [THEN iffD2]) (simp add: unsigned_ucast_eq unat_of_nat take_bit_eq_mod del: of_nat_diff)
  have len: "(word_of_nat (m - n - 1) + word_of_nat (last (m # ms) - m - length ms) :: u64)
      = word_of_nat (last (m # ms) - n - Suc (length ms))"
    using m IH by (simp del: of_nat_diff flip: of_nat_add)
  show ?case
  proof (cases "m = n + 1")
    case True
    then show ?thesis using ob IH len by (simp add: Let_def)
  next
    case False
    then show ?thesis using ob IH len m gap by (simp add: Let_def)
  qed
qed simp



section \<open>Confirmed restarts\<close>

fun ft_kinds :: "u32 list \<Rightarrow> ft_tracker \<Rightarrow> ft_sequence_kind list" where
  "ft_kinds [] t = []"
| "ft_kinds (v # vs) t = snd (ft_observe v t) # ft_kinds vs (fst (ft_observe v t))"

text \<open>
  A restart candidate is pending exactly after a backward observation, and it is the value
  of that observation.
\<close>

lemma candidate_pending:
  assumes "has_restart_candidate (fst (ft_observe v t))"
  shows "snd (ft_observe v t) = Backward \<and> restart_candidate (fst (ft_observe v t)) = v
    \<or> \<not> ft_has_last t \<and> has_restart_candidate t"
  using assms by (auto simp: ft_observe_def split: if_splits)

lemma restart_delta:
  assumes "c \<le> (0xffff :: u32)" and "v \<le> 0xffff" and "0 < v - c" and "v - c < 0x80000000"
  shows "c < v"
proof (rule ccontr)
  assume "\<not> c < v"
  then have "v \<le> c" by simp
  have "unat (v - c) = (if c \<le> v then unat v - unat c else unat v + 2 ^ 32 - unat c)"
    by (simp add: unat_sub_if' word_le_nat_alt)
  with assms \<open>v \<le> c\<close> show False
    by (auto simp: word_le_nat_alt word_less_nat_alt split: if_splits)
qed

lemma restart_min_baseline_iff: "restart_min_baseline \<le> w \<longleftrightarrow> restart_low_max < w"
  by (simp add: restart_min_baseline_def restart_low_max_def word_le_nat_alt word_less_nat_alt Suc_le_eq
      flip: Suc_le_eq)

lemma ft_observe_Restart:
  "snd (ft_observe v t) = Restart \<Longrightarrow> ft_has_last t \<and> restart_confirmed v t"
  by (simp add: ft_observe_def split: if_splits)

lemma ft_restart_step:
  assumes "snd (ft_observe v t) = Restart"
  shows "has_restart_candidate t" and "restart_candidate t < v" and "v \<le> restart_low_max"
    and "restart_low_max < ft_previous t" and "ft_has_last t"
proof -
  from ft_observe_Restart [OF assms]
  have l: "ft_has_last t" and b: "restart_min_baseline \<le> ft_previous t"
    and h: "has_restart_candidate t" and c: "restart_candidate t \<le> restart_low_max"
    and v: "v \<le> restart_low_max" and d: "0 < v - restart_candidate t"
    and d': "v - restart_candidate t < 0x80000000"
    unfolding restart_confirmed_def Let_def by blast+
  show "ft_has_last t" "has_restart_candidate t" "v \<le> restart_low_max" by fact+
  show "restart_low_max < ft_previous t" using b by (simp only: restart_min_baseline_iff)
  show "restart_candidate t < v"
    using c v d d' unfolding restart_low_max_def by (rule restart_delta)
qed

lemma ft_has_last_observe [simp]: "ft_has_last (fst (ft_observe v t))"
  by (rule ft.keeps_has_last)

lemma ft_kinds_nth:
  "i < length vs \<Longrightarrow> ft_kinds vs t ! i = snd (ft_observe (vs ! i) (ft.observe_all (take i vs) t))"
proof (induction vs arbitrary: i t)
  case (Cons v vs)
  then show ?case by (cases i) simp_all
qed simp

lemma ft_state_Suc:
  "i < length vs \<Longrightarrow> ft.observe_all (take (Suc i) vs) t
     = fst (ft_observe (vs ! i) (ft.observe_all (take i vs) t))"
proof (induction vs arbitrary: i t)
  case (Cons v vs)
  then show ?case by (cases i) simp_all
qed simp

text \<open>
  C16: within a session a restart of the device counter is only declared for a value of the
  low window that follows, immediately and upwards, a value reported as backward.
\<close>

theorem ft_restart_confirmed:
  assumes "i < length vs" and "ft_kinds vs (ft_begin_session t) ! i = Restart"
  shows "0 < i \<and> ft_kinds vs (ft_begin_session t) ! (i - 1) = Backward
    \<and> vs ! (i - 1) < vs ! i \<and> vs ! i \<le> restart_low_max"
proof (cases i)
  case 0
  with assms ft_restart_step(1) [of "vs ! 0" "ft_begin_session t"] show ?thesis
    by (simp add: ft_kinds_nth ft_begin_session_def)
next
  case (Suc j)
  let ?s = "ft.observe_all (take j vs) (ft_begin_session t)"
  let ?s' = "fst (ft_observe (vs ! j) ?s)"
  have j: "j < length vs" using assms(1) Suc by simp
  have "snd (ft_observe (vs ! i) ?s') = Restart"
    using assms Suc ft_state_Suc [OF j] by (simp add: ft_kinds_nth)
  note r = ft_restart_step [OF this]
  have "\<not> (\<not> ft_has_last ?s \<and> has_restart_candidate ?s)"
    using ft.observe_all_last [of "take j vs" "ft_begin_session t"] j
    by (cases "take j vs = []") (auto simp: ft_begin_session_def)
  with candidate_pending [OF r(1)] have "snd (ft_observe (vs ! j) ?s) = Backward"
    and "restart_candidate ?s' = vs ! j" by auto
  with r Suc j show ?thesis by (simp add: ft_kinds_nth)
qed

definition running_device :: ft_tracker where
  "running_device = \<lparr>ft_has_last = True, ft_previous = 0x00100000, has_restart_candidate = False,
     restart_candidate = 0\<rparr>"

theorem ft_restart_confirmed_witness:
  "ft_kinds [3, 5] (ft_begin_session running_device) ! 0 = Backward \<and> (3 :: u32) < 5"
  using ft_restart_confirmed [of 1 "[3, 5]" running_device]
  by (simp add: ft_begin_session_def running_device_def ft_observe_def restart_confirmed_def
      restart_min_baseline_def restart_low_max_def)

text \<open>
  And a device that really restarted is recognised at its second record: two rising
  values of the low window, both behind a baseline above it, give backward then restart,
  and the restarted count is the new baseline.
\<close>

theorem ft_restart_recognised:
  assumes "ft_has_last t" and "\<not> has_restart_candidate t" and "restart_low_max < ft_previous t"
    and "a < b" and "b \<le> restart_low_max"
    and "0x80000000 \<le> a - ft_previous t" and "0x80000000 \<le> b - ft_previous t"
  shows "ft_kinds [a, b] t = [Backward, Restart] \<and> ft_previous (ft.observe_all [a, b] t) = b"
proof -
  have base: "restart_min_baseline \<le> ft_previous t"
    using assms(3) by (simp only: restart_min_baseline_iff)
  have d: "0 < b - a" "b - a < 0x80000000"
  proof -
    show "0 < b - a" using assms(4) by (simp add: word_gt_0)
    have "b - a \<le> b" using assms(4) by (simp add: word_sub_le_iff)
    also note assms(5)
    also have "restart_low_max < 0x80000000" by (simp add: restart_low_max_def)
    finally show "b - a < 0x80000000" .
  qed
  have ab: "a \<le> restart_low_max" using assms(4,5) by simp
  have "a \<noteq> ft_previous t" "b \<noteq> ft_previous t" using assms(3,5) ab by auto
  moreover have "\<not> a - ft_previous t < 0x80000000" "\<not> b - ft_previous t < 0x80000000"
    using assms(6,7) by simp_all
  ultimately have 1: "ft_observe a t =
      (t\<lparr>restart_candidate := a, has_restart_candidate := True\<rparr>, Backward)"
    and 2: "ft_observe b (t\<lparr>restart_candidate := a, has_restart_candidate := True\<rparr>) =
      (t\<lparr>restart_candidate := a, ft_previous := b, has_restart_candidate := False\<rparr>, Restart)"
    using assms(1,2,5) ab base d
    by (simp_all add: ft_observe_def restart_confirmed_def Let_def)
  show ?thesis using 1 2 by simp
qed

theorem ft_restart_recognised_witness:
  "ft_kinds [3, 5] running_device = [Backward, Restart]"
  using ft_restart_recognised [of running_device 3 5]
  by (simp add: running_device_def restart_low_max_def)

end
