(* ===== verification/Status.thy ===== *)
theory Status
  imports Types
begin

text \<open>
  The device status word, \<open>src/core/src/status.cpp\<close>: its severity, totally ordered so that
  the worst of several can be taken, and its rendering as text.
\<close>

datatype status_severity = SevOk | SevWarn | SevError

fun severity_rank :: "status_severity \<Rightarrow> nat" where
  "severity_rank SevOk = 0"
| "severity_rank SevWarn = 1"
| "severity_rank SevError = 2"

lemma severity_rank_inj: "severity_rank a = severity_rank b \<longleftrightarrow> a = b"
  by (cases a; cases b) simp_all

instantiation status_severity :: linorder
begin

definition less_eq_status_severity :: "status_severity \<Rightarrow> status_severity \<Rightarrow> bool" where
  "a \<le> b \<longleftrightarrow> severity_rank a \<le> severity_rank b"

definition less_status_severity :: "status_severity \<Rightarrow> status_severity \<Rightarrow> bool" where
  "a < b \<longleftrightarrow> severity_rank a < severity_rank b"

instance
  by standard (auto simp: less_eq_status_severity_def less_status_severity_def severity_rank_inj)

end

definition status_bits :: "(u32 \<times> string) list" where
  "status_bits =
    [(0x80000000, ''error summary''),
     (0x40000000, ''CPU or RAM error''),
     (0x20000000, ''digital board error''),
     (0x10000000, ''analog board error''),
     (0x08000000, ''serial link communication error''),
     (0x04000000, ''program memory verification error''),
     (0x02000000, ''halted due to configuration errors''),
     (0x01000000, ''settings validation error''),
     (0x00800000, ''configuration incompatible with calibration''),
     (0x00400000, ''network communication failure''),
     (0x00200000, ''CAN communication error''),
     (0x00100000, ''RDT communication error''),
     (0x00080000, ''EtherNet/IP protocol failure''),
     (0x00040000, ''DeviceNet protocol failure''),
     (0x00020000, ''transducer saturation or A/D error''),
     (0x00010000, ''monitor condition latched''),
     (0x00004000, ''watchdog timeout error''),
     (0x00002000, ''stack check error''),
     (0x00001000, ''serial EEPROM I2C failure''),
     (0x00000800, ''serial flash SPI failure''),
     (0x00000400, ''analog board watchdog timeout''),
     (0x00000200, ''excessive strain gage excitation current''),
     (0x00000100, ''insufficient strain gage excitation current''),
     (0x00000080, ''artificial analog ground out of range''),
     (0x00000040, ''analog board power supply too high''),
     (0x00000020, ''analog board power supply too low''),
     (0x00000010, ''serial link data unavailable''),
     (0x00000008, ''reference voltage or power monitoring error''),
     (0x00000004, ''internal temperature error''),
     (0x00000002, ''HTTP protocol failure'')]"

definition classify_status :: "u32 \<Rightarrow> status_severity" where
  "classify_status status =
     (if status = 0 then SevOk
      else if status = 0x80010000 then SevWarn else SevError)"

fun append_names :: "u32 \<Rightarrow> (u32 \<times> string) list \<Rightarrow> string \<Rightarrow> string" where
  "append_names status [] result = result"
| "append_names status ((m, name) # bits) result =
     append_names status bits
       (if status AND m \<noteq> 0
        then (if result \<noteq> [] then result @ '', '' else result) @ name
        else result)"

definition decode_status :: "u32 \<Rightarrow> string" where
  "decode_status status =
     (if status = 0 then ''healthy'' else append_names status status_bits [])"

section \<open>What the text says\<close>

text \<open>The names of the set bits, from the most significant one down.\<close>

definition active_names :: "u32 \<Rightarrow> string list" where
  "active_names status = map snd (filter (\<lambda>(m, name). status AND m \<noteq> 0) status_bits)"

fun join :: "string \<Rightarrow> string list \<Rightarrow> string" where
  "join sep [] = []"
| "join sep [x] = x"
| "join sep (x # y # xs) = x @ sep @ join sep (y # xs)"

lemma join_Cons: "xs \<noteq> [] \<Longrightarrow> join sep (x # xs) = x @ sep @ join sep xs"
  by (cases xs) simp_all

lemma append_names_acc:
  assumes "\<forall>(m, name) \<in> set bits. name \<noteq> []" and "acc \<noteq> []"
  shows "append_names status bits acc =
    join '', '' (acc # map snd (filter (\<lambda>(m, name). status AND m \<noteq> 0) bits))"
  using assms
proof (induction bits arbitrary: acc)
  case (Cons b bits)
  obtain m name where b: "b = (m, name)" by (cases b)
  have "append_names status bits (acc @ '', '' @ name) =
      join '', '' ((acc @ '', '' @ name) # map snd (filter (\<lambda>(m, name). status AND m \<noteq> 0) bits))"
    using Cons by (intro Cons.IH) auto
  moreover have "join '', '' ((acc @ '', '' @ name) # ns) = acc @ '', '' @ join '', '' (name # ns)" for ns
    by (cases ns) simp_all
  ultimately show ?case using Cons by (simp add: b)
qed simp

lemma append_names_join:
  assumes "\<forall>(m, name) \<in> set bits. name \<noteq> []"
  shows "append_names status bits [] =
    join '', '' (map snd (filter (\<lambda>(m, name). status AND m \<noteq> 0) bits))"
  using assms
proof (induction bits)
  case (Cons b bits)
  obtain m name where b: "b = (m, name)" by (cases b)
  show ?case using Cons append_names_acc [of bits name status] by (auto simp: b)
qed simp

lemma status_bits_named: "\<forall>(m, name) \<in> set status_bits. name \<noteq> []"
  by (simp add: status_bits_def)

lemma decode_status_join:
  "decode_status status = (if status = 0 then ''healthy'' else join '', '' (active_names status))"
  by (simp add: decode_status_def append_names_join [OF status_bits_named] active_names_def)

text \<open>The text of a nonzero status is exactly the names of its known bits, joined.\<close>

theorem decode_status_names:
  "decode_status status = (if status = 0 then ''healthy'' else join '', '' (active_names status))"
  by (rule decode_status_join)

text \<open>The named bits together: all but bits 15 and 0.\<close>

definition named_mask :: u32 where
  "named_mask = 0xffff7ffe"

lemma and_fold_or:
  "w AND foldr (OR) ms (0 :: u32) = 0 \<longleftrightarrow> (\<forall>m \<in> set ms. w AND m = 0)"
  by (induction ms) (simp_all add: bit.conj_disj_distrib or_eq_0_iff)

lemma named_mask_fold: "foldr (OR) (map fst status_bits) 0 = named_mask"
  by (simp add: status_bits_def named_mask_def)

lemma active_names_Nil: "active_names w = [] \<longleftrightarrow> w AND named_mask = 0"
  unfolding named_mask_fold [symmetric] and_fold_or
  by (auto simp: active_names_def filter_empty_conv)

lemma active_names_nonempty: "n \<in> set (active_names w) \<Longrightarrow> n \<noteq> []"
  using status_bits_named by (auto simp: active_names_def)

lemma join_Nil_iff: "[] \<notin> set xs \<Longrightarrow> join sep xs = [] \<longleftrightarrow> xs = []"
  by (induction sep xs rule: join.induct) auto

lemma and_exp_word: "w AND 2 ^ n = (if bit w n then 2 ^ n else 0)" for w :: u32
  by (rule bit_word_eqI) (auto simp: bit_and_iff bit_exp_iff)

lemma reserved_bits: "w AND named_mask = 0 \<longleftrightarrow> w \<in> {0, 0x00000001, 0x00008000, 0x00008001}"
proof
  have n: "NOT named_mask = 2 ^ 0 OR 2 ^ 15" by (simp add: named_mask_def)
  assume "w AND named_mask = 0"
  moreover have "w = (w AND named_mask) OR (w AND NOT named_mask)"
    by (simp flip: bit.conj_disj_distrib)
  ultimately have "w = w AND NOT named_mask" by simp
  also have "\<dots> = (w AND 2 ^ 0) OR (w AND 2 ^ 15)" by (simp only: n bit.conj_disj_distrib)
  also have "\<dots> \<in> {0, 0x00000001, 0x00008000, 0x00008001}"
    unfolding and_exp_word by simp
  finally show "w \<in> {0, 0x00000001, 0x00008000, 0x00008001}" .
qed (auto simp: named_mask_def)

text \<open>
  The status text is never empty for a clear status or a known condition; it is empty
  exactly for the error statuses made of the reserved bits 0 and 15 alone.
\<close>

theorem decode_status_empty:
  "decode_status w = [] \<longleftrightarrow> w \<in> {0x00000001, 0x00008000, 0x00008001}"
proof -
  have "decode_status w = [] \<longleftrightarrow> w \<noteq> 0 \<and> active_names w = []"
    using active_names_nonempty [of "[]" w] join_Nil_iff [of "active_names w"]
    by (auto simp: decode_status_join)
  also have "\<dots> \<longleftrightarrow> w \<noteq> 0 \<and> w AND named_mask = 0" by (simp add: active_names_Nil)
  also have "\<dots> \<longleftrightarrow> w \<in> {0x00000001, 0x00008000, 0x00008001}" by (auto simp: reserved_bits)
  finally show ?thesis .
qed

end
