(* ===== verification/Fault_Latch.thy ===== *)
theory Fault_Latch
  imports Types
begin

text \<open>
  The first-fault latch, \<open>src/core/src/detail/fault_latch.{hpp,cpp}\<close>. The atomic code is
  one component of the state, the health snapshot it annotates (under the data mutex) the
  other. A failing \<open>compare_exchange\<close> leaves both alone.
\<close>

definition latch_publish ::
  "fault_code \<Rightarrow> string \<Rightarrow> fault_code \<times> health_snapshot \<Rightarrow> bool \<times> fault_code \<times> health_snapshot" where
  "latch_publish code message s =
     (let (latch, health) = s
      in if latch \<noteq> FC_None then (False, latch, health)
         else (True, code,
           health\<lparr>h_state := CS_Faulted, h_fault_code := code, last_error := message\<rparr>))"

definition latch_reset :: "fault_code \<times> health_snapshot \<Rightarrow> fault_code \<times> health_snapshot" where
  "latch_reset s = (FC_None, snd s)"

definition latch_faulted :: "fault_code \<times> health_snapshot \<Rightarrow> bool" where
  "latch_faulted s \<longleftrightarrow> fst s \<noteq> FC_None"

section \<open>The contract of a fault latch\<close>

text \<open>
  The client's latch and the hardware plugin's own latch promise the same: an empty latch
  takes the code it is given, a taken latch keeps its state.
\<close>

locale first_fault =
  fixes publish :: "'c \<Rightarrow> 's \<Rightarrow> 's" and code :: "'s \<Rightarrow> fault_code" and code_of :: "'c \<Rightarrow> fault_code"
  assumes takes: "code s = FC_None \<Longrightarrow> code (publish c s) = code_of c"
    and keeps: "code s \<noteq> FC_None \<Longrightarrow> publish c s = s"
begin

lemma publish_faulted: "code s \<noteq> FC_None \<Longrightarrow> code (publish c s) = code s"
  by (simp add: keeps)

lemma publish_idem: "code_of c \<noteq> FC_None \<Longrightarrow> publish d (publish c s) = publish c s"
  by (cases "code s = FC_None") (simp_all add: takes keeps)

text \<open>After any publications the latch holds the first real fault among them.\<close>

lemma fold_publish_code:
  "code (fold publish cs s) =
    (if code s \<noteq> FC_None then code s
     else case List.find (\<lambda>c. code_of c \<noteq> FC_None) cs of None \<Rightarrow> FC_None | Some c \<Rightarrow> code_of c)"
proof (induction cs arbitrary: s)
  case (Cons c cs)
  then show ?case
    by (cases "code s = FC_None") (simp_all add: takes keeps split: option.splits)
qed simp

lemma fold_publish_keeps: "code s \<noteq> FC_None \<Longrightarrow> fold publish cs s = s"
  by (induction cs) (simp_all add: keeps)

end

interpretation latch: first_fault
  "\<lambda>(c, m) s. snd (latch_publish c m s)" "fst" "fst"
  by unfold_locales (auto simp: latch_publish_def Let_def split: prod.splits)

text \<open>The first published fault wins, and its snapshot annotation is never overwritten.\<close>

theorem latch_first_fault_wins:
  assumes "c \<noteq> FC_None"
  shows "fold (\<lambda>(c, m) s. snd (latch_publish c m s)) ((c, m) # faults) (FC_None, h)
    = (c, h\<lparr>h_state := CS_Faulted, h_fault_code := c, last_error := m\<rparr>)"
  using latch.fold_publish_keeps [of "snd (latch_publish c m (FC_None, h))" faults] assms
  by (simp add: latch_publish_def)

theorem latch_first_fault_wins_witness:
  "fst (fold (\<lambda>(c, m) s. snd (latch_publish c m s))
     [(FC_Timeout, ''late''), (FC_Socket, ''gone''), (FC_Callback, ''threw'')] (FC_None, default_health)) = FC_Timeout"
  using latch_first_fault_wins [of FC_Timeout "''late''" "[(FC_Socket, ''gone''), (FC_Callback, ''threw'')]" default_health]
  by simp

end
