(* ===== verification/Udp_Transport.thy ===== *)
theory Udp_Transport
  imports Types
begin

text \<open>
  The UDP transport, \<open>src/core/src/detail/udp_transport_posix.cpp\<close> with the class of
  \<open>udp_transport.hpp\<close>. What the operating system answers is an argument of each operation:
  the result of every call the code makes, in the order it makes them; \<open>strerror\<close> and
  \<open>gai_strerror\<close> are parameters. The mutex serialises the operations, so one locked region
  is one function; \<open>receive\<close> has two of them with the wait in between. The hooks of the
  tests are left out.
\<close>

section \<open>State\<close>

text \<open>No descriptor is \<open>kInvalidSocket\<close>.\<close>

record transport =
  tr_socket :: "int option"
  shutdown_requested :: bool

definition transport_init :: transport where
  "transport_init = \<lparr>tr_socket = None, shutdown_requested = False\<rparr>"

definition socket_error :: "(int \<Rightarrow> string) \<Rightarrow> string \<Rightarrow> int \<Rightarrow> exn" where
  "socket_error strerror operation errno = RuntimeError (operation @ '': '' @ strerror errno)"

section \<open>Connecting\<close>

text \<open>For one address: \<open>socket()\<close> fails, or gives a descriptor that connects or does not.\<close>

datatype address_attempt = No_Socket int | Connected int | Refused int

fun try_addresses :: "address_attempt list \<Rightarrow> int \<Rightarrow> int + int" where
  "try_addresses [] failed = Inl failed"
| "try_addresses (No_Socket e # rest) failed = try_addresses rest e"
| "try_addresses (Refused e # rest) failed = try_addresses rest e"
| "try_addresses (Connected s # rest) failed = Inr s"

definition transport_connect ::
  "(int \<Rightarrow> string) \<Rightarrow> string + address_attempt list \<Rightarrow> transport \<Rightarrow> transport \<times> unit result" where
  "transport_connect strerror resolved t =
     (case resolved of
        Inl m \<Rightarrow> (t, Inl (RuntimeError (''failed to resolve sensor: '' @ m)))
      | Inr attempts \<Rightarrow>
          (case try_addresses attempts 0 of
             Inl e \<Rightarrow> (t, Inl (socket_error strerror ''failed to connect UDP socket'' e))
           | Inr s \<Rightarrow> (t\<lparr>tr_socket := Some s, shutdown_requested := False\<rparr>, Inr ())))"

section \<open>Sending\<close>

text \<open>The answer of a system call: an error number, or a count.\<close>

type_synonym os_count = "int + nat"

definition transport_send ::
  "(int \<Rightarrow> string) \<Rightarrow> os_count \<Rightarrow> u8 list \<Rightarrow> transport \<Rightarrow> unit result" where
  "transport_send strerror answer request t =
     (if tr_socket t = None then Inl (RuntimeError ''UDP socket is not connected'')
      else case answer of
             Inl e \<Rightarrow> Inl (socket_error strerror ''failed to send UDP request'' e)
           | Inr n \<Rightarrow> throw_if (n \<noteq> length request) (RuntimeError ''short UDP request write''))"

section \<open>Receiving\<close>

definition timeout_milliseconds :: "fp \<Rightarrow> int" where
  "timeout_milliseconds timeout =
     (let milliseconds = fceil (fmul binary64 timeout (Fin False 1000))
      in if fle (Fin False (of_int int_max)) milliseconds then int_max else ftrunc milliseconds)"

text \<open>The duration in seconds of a difference of clock readings.\<close>

definition seconds_of :: "ticks \<Rightarrow> fp" where
  "seconds_of d = fdiv binary64 (fof_int binary64 d) (Fin False 1000000000)"

text \<open>The first locked region: nothing to wait for, or the socket to wait on.\<close>

definition receive_begin :: "transport \<Rightarrow> int option result" where
  "receive_begin t =
     (case tr_socket t of
        None \<Rightarrow> Inl (RuntimeError ''UDP socket is not connected'')
      | Some s \<Rightarrow> Inr (if shutdown_requested t then None else Some s))"

text \<open>
  One call of \<open>poll\<close>: interrupted, with the clock reading that follows; failed; nothing
  arrived; or events, with the flag \<open>POLLNVAL\<close>. The loop gives the timeouts it asked for, and
  \<open>None\<close> while it is still waiting for the next answer.
\<close>

datatype poll_answer = Interrupted ticks | Poll_Failed int | Nothing | Events bool

datatype poll_end = Expired | Ready bool

fun poll_loop ::
  "(int \<Rightarrow> string) \<Rightarrow> ticks \<Rightarrow> fp \<Rightarrow> poll_answer list \<Rightarrow> poll_end result option \<times> int list" where
  "poll_loop strerror deadline remaining [] = (None, [timeout_milliseconds remaining])"
| "poll_loop strerror deadline remaining (Interrupted now # rest) =
     (if now \<ge> deadline then (Some (Inr Expired), [timeout_milliseconds remaining])
      else let (r, asked) = poll_loop strerror deadline (seconds_of (deadline - now)) rest
           in (r, timeout_milliseconds remaining # asked))"
| "poll_loop strerror deadline remaining (Poll_Failed e # rest) =
     (Some (Inl (socket_error strerror ''failed to wait for UDP record'' e)),
      [timeout_milliseconds remaining])"
| "poll_loop strerror deadline remaining (Nothing # rest) =
     (Some (Inr Expired), [timeout_milliseconds remaining])"
| "poll_loop strerror deadline remaining (Events nval # rest) =
     (Some (Inr (Ready nval)), [timeout_milliseconds remaining])"

definition receive_wait ::
  "(int \<Rightarrow> string) \<Rightarrow> ticks \<Rightarrow> fp \<Rightarrow> poll_answer list \<Rightarrow> poll_end result option" where
  "receive_wait strerror now timeout answers =
     (case checked_deadline now timeout of
        Inl e \<Rightarrow> Some (Inl e)
      | Inr deadline \<Rightarrow> fst (poll_loop strerror deadline timeout answers))"

text \<open>
  After the wait: the second locked region and \<open>recv\<close>, which fails, is interrupted, or gives
  the datagram cut to the capacity of the buffer. Nothing received is the empty list.
\<close>

datatype recv_answer = Recv_Interrupted | Recv_Failed int | Datagram "u8 list"

definition receive_end ::
  "(int \<Rightarrow> string) \<Rightarrow> nat \<Rightarrow> poll_end result \<Rightarrow> recv_answer \<Rightarrow> transport \<Rightarrow> u8 list result" where
  "receive_end strerror capacity waited answer t =
     and_then waited (\<lambda>w. case w of
       Expired \<Rightarrow> Inr []
     | Ready nval \<Rightarrow>
         (if shutdown_requested t then Inr []
          else if nval then Inl (RuntimeError ''UDP socket became invalid'')
          else case answer of
                 Recv_Interrupted \<Rightarrow> Inr []
               | Recv_Failed e \<Rightarrow> Inl (socket_error strerror ''failed to receive UDP record'' e)
               | Datagram bytes \<Rightarrow> Inr (take capacity bytes)))"

section \<open>Shutting down\<close>

definition transport_shutdown :: "transport \<Rightarrow> transport" where
  "transport_shutdown t = t\<lparr>shutdown_requested := True\<rparr>"

definition transport_close :: "transport \<Rightarrow> transport" where
  "transport_close t = \<lparr>tr_socket = None, shutdown_requested = True\<rparr>"

section \<open>What the client relies on\<close>

text \<open>
  A shut-down or closed transport never hands out a datagram, whatever the system answers;
  only a successful connect takes the shutdown back.
\<close>

lemma receive_end_after_shutdown:
  "receive_end strerror n w a (transport_shutdown t) = Inr bs \<Longrightarrow> bs = []"
  by (auto simp: receive_end_def transport_shutdown_def) (case_tac x; simp)

lemma send_needs_socket: "transport_send strerror a r t = Inr () \<Longrightarrow> tr_socket t \<noteq> None"
  by (auto simp: transport_send_def split: if_splits)

lemma closed_transport [simp]: "tr_socket (transport_close t) = None"
  "transport_send strerror a r (transport_close t) = Inl (RuntimeError ''UDP socket is not connected'')"
  by (simp_all add: transport_close_def transport_send_def)

lemma connect_failure_keeps:
  "snd (transport_connect strerror resolved t) = Inl e \<Longrightarrow> fst (transport_connect strerror resolved t) = t"
  by (auto simp: transport_connect_def split: sum.splits)

lemma try_addresses_Inr: "try_addresses as e = Inr s \<Longrightarrow> Connected s \<in> set as"
  by (induction as e rule: try_addresses.induct) auto

lemma try_addresses_first:
  "Connected s \<in> set as \<Longrightarrow> \<exists>s'. try_addresses as e = Inr s'"
  by (induction as e rule: try_addresses.induct) auto

section \<open>The wait\<close>

text \<open>The durations that a wait can be asked for: no shorter than \<open>2^-900\<close> s, no longer than \<open>2^900\<close>.\<close>

definition sane_timeout :: "fp \<Rightarrow> bool" where
  "sane_timeout d \<longleftrightarrow> (\<exists>q. d = Fin False q \<and> 2 powi -900 \<le> q \<and> q \<le> 2 powi 900)"

lemma timeout_milliseconds_range:
  assumes "sane_timeout d"
  shows "0 < timeout_milliseconds d \<and> timeout_milliseconds d \<le> int_max"
proof -
  from assms obtain q where d: "d = Fin False q" and q: "2 powi -900 \<le> q" "q \<le> 2 powi 900"
    by (auto simp: sane_timeout_def)
  have pos: "0 < q" by (rule less_le_trans [OF _ q(1)]) simp
  have "q * 1000 \<le> 2 powi 900 * 2 powi 10" using q(2) by (intro mult_mono) simp_all
  then have "q * 1000 \<le> 2 powi 910" using powi2_add [of 900 10] by simp
  moreover have "2 powi -900 \<le> q * 1000" using q(1) pos by simp
  ultimately obtain r where r: "fround binary64 False (q * 1000) = Fin False r" "2 powi -900 \<le> r"
    using fround_between [of "-900" "q * 1000" 910 False] by auto
  have "0 < r" by (rule less_le_trans [OF _ r(2)]) simp
  then have c: "0 < \<lceil>r\<rceil>" by simp
  have ms: "timeout_milliseconds d = (if int_max \<le> \<lceil>r\<rceil> then int_max else \<lceil>r\<rceil>)"
    using r pos c \<open>0 < r\<close> by (simp add: timeout_milliseconds_def d int_max_def)
  then show ?thesis using c by (simp add: int_max_def)
qed

lemma seconds_of_sane:
  assumes "0 < d" and "d \<le> 2 ^ 63"
  shows "sane_timeout (seconds_of d)"
proof -
  have "(1::rat) \<le> of_int d" and "(of_int d :: rat) \<le> of_int (2 ^ 63)"
    using assms by (simp, simp only: of_int_le_iff)
  then obtain p where p: "fround binary64 False (of_int d) = Fin False p" "1 \<le> p" "p \<le> 2 powi 63"
    using fround_between [of 0 "of_int d" 63 False] by auto
  have "2 powi -30 \<le> p / 1000000000" using p(2) by (simp add: power_int_minus)
  moreover have "p / 1000000000 \<le> 2 powi 63" using p(2,3) by simp
  ultimately obtain r where r: "fround binary64 False (p / 1000000000) = Fin False r"
    "2 powi -30 \<le> r" "r \<le> 2 powi 63"
    using fround_between [of "-30" "p / 1000000000" 63 False] by auto
  have "seconds_of d = Fin False r" using assms p r(1) by (simp add: seconds_of_def fof_int_def)
  moreover have "2 powi -900 \<le> r" by (rule order.trans [OF _ r(2)]) simp
  moreover have "r \<le> 2 powi 900" by (rule order.trans [OF r(3)]) simp
  ultimately show ?thesis by (auto simp: sane_timeout_def)
qed

text \<open>
  The wait never spins and never waits for ever: for a sane timeout, whatever interrupts
  it and whatever the clock then reads, every timeout the loop hands to \<open>poll\<close> is at least
  one millisecond and at most the largest \<open>int\<close>.
\<close>

theorem poll_timeouts_positive:
  assumes "sane_timeout remaining" and "\<forall>now. Interrupted now \<in> set answers \<longrightarrow> deadline - now \<le> 2 ^ 63"
  shows "\<forall>ms \<in> set (snd (poll_loop strerror deadline remaining answers)). 0 < ms \<and> ms \<le> int_max"
  using assms
proof (induction strerror deadline remaining answers rule: poll_loop.induct)
  case (2 strerror deadline remaining now rest)
  show ?case
  proof (cases "now \<ge> deadline")
    case False
    have "\<forall>ms \<in> set (snd (poll_loop strerror deadline (seconds_of (deadline - now)) rest)). 0 < ms \<and> ms \<le> int_max"
      using 2 False by (intro "2.IH" seconds_of_sane) auto
    then show ?thesis using False timeout_milliseconds_range [OF "2.prems"(1)]
      by (simp add: case_prod_unfold Let_def)
  qed (use timeout_milliseconds_range [OF "2.prems"(1)] in simp)
qed (simp_all add: timeout_milliseconds_range)

lemma sane_one_second: "sane_timeout fone"
  by (simp add: sane_timeout_def fone_def power_int_minus)

theorem poll_timeouts_positive_witness:
  "list_all (\<lambda>ms. 0 < ms \<and> ms \<le> int_max)
     (snd (poll_loop (\<lambda>e. []) 1000000000 fone [Interrupted 400, Interrupted 999999999, Nothing]))"
  unfolding list_all_iff by (rule poll_timeouts_positive [OF sane_one_second]) auto

text \<open>
  Shutting down and closing are final until the next successful connect: after either,
  whatever the system answers, \<open>receive\<close> gives no bytes and \<open>send\<close> on a closed transport
  fails without reaching the system.
\<close>

theorem transport_stays_shut:
  "(\<forall>bs. receive_end strerror n w a (transport_shutdown t) = Inr bs \<longrightarrow> bs = [])
   \<and> receive_begin (transport_close t) = Inl (RuntimeError ''UDP socket is not connected'')
   \<and> (\<forall>s. receive_begin (transport_shutdown t) \<noteq> Inr (Some s))
   \<and> transport_send strerror sent request (transport_close t) = Inl (RuntimeError ''UDP socket is not connected'')"
  using receive_end_after_shutdown [of strerror n w a t]
  by (auto simp: receive_begin_def transport_close_def transport_shutdown_def transport_send_def
      split: option.splits)

theorem transport_stays_shut_witness:
  "receive_end (\<lambda>e. []) 65536 (Inr (Ready False)) (Datagram [1, 2])
     (transport_shutdown \<lparr>tr_socket = Some 3, shutdown_requested = False\<rparr>) = Inr []"
  using transport_stays_shut [of "\<lambda>e. []" 65536 "Inr (Ready False)" "Datagram [1, 2]"]
  by (simp add: receive_end_def transport_shutdown_def)

end
