(* ===== verification/Client_State.thy ===== *)
theory Client_State
  imports Protocol Sequence Status Fault_Latch Udp_Transport
begin

text \<open>
  The state of \<open>Client::Impl\<close> (\<open>src/core/src/detail/client_impl.{hpp,cpp}\<close>) and the
  operations that its lock sections perform on it. A field of the class is a field of the
  record; the mutexes have no field: what runs under one lock is one function here. The two
  parts of the fault latch and its snapshot annotation live in \<open>latch\<close> and \<open>health\<close>. A
  time point that was never set is the clock's epoch, 0. One field is not in the class:
  \<open>sent_commands\<close> records the commands whose datagrams the transport sent.
\<close>

section \<open>State\<close>

datatype session_result =
    SR_Stopped | SR_SensorConfiguration | SR_Timeout | SR_Socket | SR_SeriousStatus
  | SR_FtStall | SR_FtBackward | SR_MalformedStorm | SR_Callback

record session_outcome =
  so_result :: session_result
  so_message :: string
  received_valid_record :: bool

record client =
  cl_config :: config
  stopping :: bool
  worker_exited :: bool
  session_started :: bool
  latch :: fault_code
  health :: health_snapshot
  latest :: "sample option"
  last_delivery_at :: ticks
  last_record_at :: ticks
  generation :: u64
  delivered_generation :: u64
  receive_times :: "ticks list"
  delivery_times :: "ticks list"
  consecutive_malformed :: u64
  rdt_sequence :: rdt_tracker
  ft_sequence :: ft_tracker
  has_callback :: bool
  worker_joinable :: bool
  joining :: bool
  worker_active :: bool
  transport :: transport
  sent_commands :: "command list"

definition malformed_storm_threshold :: u64 where
  "malformed_storm_threshold = 10"

fun fault_for :: "session_result \<Rightarrow> fault_code" where
  "fault_for SR_SensorConfiguration = FC_SensorConfiguration"
| "fault_for SR_Timeout = FC_Timeout"
| "fault_for SR_Socket = FC_Socket"
| "fault_for SR_SeriousStatus = FC_SeriousStatus"
| "fault_for SR_FtStall = FC_FtStall"
| "fault_for SR_FtBackward = FC_FtBackward"
| "fault_for SR_MalformedStorm = FC_MalformedStorm"
| "fault_for SR_Callback = FC_Callback"
| "fault_for SR_Stopped = FC_None"

fun message_for :: "session_result \<Rightarrow> string" where
  "message_for SR_SensorConfiguration = ''sensor configuration discovery failed''"
| "message_for SR_Timeout = ''no valid RDT record before timeout''"
| "message_for SR_Socket = ''UDP socket failure''"
| "message_for SR_SeriousStatus = ''serious device status''"
| "message_for SR_FtStall = ''FT sequence stalled''"
| "message_for SR_FtBackward = ''FT sequence moved backward''"
| "message_for SR_MalformedStorm = ''malformed packet storm''"
| "message_for SR_Callback = ''sample callback failed''"
| "message_for SR_Stopped = ''''"

definition same_calibration :: "calibration \<Rightarrow> calibration \<Rightarrow> bool" where
  "same_calibration left right \<longleftrightarrow>
     feq (counts_per_force_unit left) (counts_per_force_unit right) \<and>
     feq (counts_per_torque_unit left) (counts_per_torque_unit right) \<and>
     force_unit left = force_unit right \<and> torque_unit left = torque_unit right"

definition prune_rate_window :: "ticks list \<Rightarrow> ticks \<Rightarrow> ticks list" where
  "prune_rate_window ts now = dropWhile (\<lambda>t. now - t > 1000000000) ts"

fun ft_progress_name :: "ft_sequence_kind \<Rightarrow> string" where
  "ft_progress_name Ft_First = ''first''"
| "ft_progress_name Forward = ''forward''"
| "ft_progress_name Stall = ''stall''"
| "ft_progress_name Backward = ''backward''"
| "ft_progress_name Restart = ''restart''"

text \<open>\<open>static_cast<double>(size())\<close>.\<close>

definition rate_of :: "ticks list \<Rightarrow> fp" where
  "rate_of ts = fof_int binary64 (int (length ts))"

text \<open>
  The constructor: the clock readings are those of \<open>validate\<close>. No thread is running, so
  the exited flag starts as true.
\<close>

definition client_init :: "(nat \<Rightarrow> ticks) \<Rightarrow> config \<Rightarrow> client result" where
  "client_init now c =
     and_then (validate_config now c) (\<lambda>_. Inr
       \<lparr>cl_config = c, stopping = False, worker_exited = True, session_started = False,
        latch = FC_None,
        health = default_health\<lparr>h_sensor_host := sensor_host c, h_rdt_port := rdt_port c\<rparr>,
        latest = None, last_delivery_at = 0, last_record_at = 0, generation = 0,
        delivered_generation = 0, receive_times = [], delivery_times = [],
        consecutive_malformed = 0, rdt_sequence = rdt_init, ft_sequence = ft_init,
        has_callback = False, worker_joinable = False, joining = False, worker_active = False,
        transport = transport_init, sent_commands = []\<rparr>)"

definition faulted :: "client \<Rightarrow> bool" where
  "faulted c \<longleftrightarrow> latch_faulted (latch c, health c)"

section \<open>Sections on the shared data\<close>

definition set_fault :: "fault_code \<Rightarrow> string \<Rightarrow> client \<Rightarrow> client" where
  "set_fault code message c =
     (let (_, l, h) = latch_publish code message (latch c, health c)
      in c\<lparr>latch := l, health := h\<rparr>)"

definition record_callback_error :: "string \<Rightarrow> client \<Rightarrow> client" where
  "record_callback_error message c =
     c\<lparr>health := (health c)\<lparr>callback_error_count := callback_error_count (health c) + 1,
                            last_error := message\<rparr>\<rparr>"

definition apply_configuration :: "sensor_configuration \<Rightarrow> client \<Rightarrow> client" where
  "apply_configuration cfg c =
     (let h = health c in
      case sensor_configuration h of
        Some previous \<Rightarrow>
          (if same_calibration (calibration previous) (calibration cfg)
           then c\<lparr>health := h\<lparr>sensor_configuration := Some (cfg\<lparr>revision := revision previous\<rparr>)\<rparr>\<rparr>
           else c\<lparr>health := h\<lparr>sensor_configuration := Some (cfg\<lparr>revision := revision previous + 1\<rparr>),
                              calibration_change_count := calibration_change_count h + 1\<rparr>\<rparr>)
      | None \<Rightarrow> c\<lparr>health := h\<lparr>sensor_configuration := Some (cfg\<lparr>revision := 1\<rparr>)\<rparr>\<rparr>)"

text \<open>
  \<open>configuration_for_session\<close>: the override, or what discovery answers; the answer of
  \<open>discover_sensor\<close> is the argument.
\<close>

definition configuration_for_session ::
  "sensor_configuration result \<Rightarrow> client \<Rightarrow> sensor_configuration result" where
  "configuration_for_session discovered c =
     (case calibration_override (cl_config c) of
        Some cal \<Rightarrow> Inr \<lparr>product_name = [], calibration = cal, cfg_source = Override, revision = 1\<rparr>
      | None \<Rightarrow> discovered)"

section \<open>One record\<close>

fun account_rdt :: "sequence_observation \<Rightarrow> health_snapshot \<Rightarrow> health_snapshot" where
  "account_rdt ob h =
     (case seq_kind ob of
        Gap \<Rightarrow> h\<lparr>lost_count := lost_count h + ucast (gap ob)\<rparr>
      | Duplicate \<Rightarrow> h\<lparr>duplicate_count := duplicate_count h + 1\<rparr>
      | OutOfOrder \<Rightarrow> h\<lparr>out_of_order_count := out_of_order_count h + 1\<rparr>
      | Seq_First \<Rightarrow> h
      | Contiguous \<Rightarrow> h)"

fun account_ft :: "ft_sequence_kind \<Rightarrow> health_snapshot \<Rightarrow> health_snapshot" where
  "account_ft Stall h = h\<lparr>ft_stall_count := ft_stall_count h + 1\<rparr>"
| "account_ft Backward h = h\<lparr>ft_backward_count := ft_backward_count h + 1\<rparr>"
| "account_ft Restart h = h\<lparr>ft_restart_count := ft_restart_count h + 1\<rparr>"
| "account_ft Ft_First h = h"
| "account_ft Forward h = h"

fun account_severity :: "status_severity \<Rightarrow> health_snapshot \<Rightarrow> health_snapshot" where
  "account_severity SevWarn h = h\<lparr>warning_count := warning_count h + 1\<rparr>"
| "account_severity SevError h = h\<lparr>device_error_count := device_error_count h + 1\<rparr>"
| "account_severity SevOk h = h"

text \<open>Everything the section notes about a record before it judges it.\<close>

definition count_record ::
  "raw_record \<Rightarrow> ticks list \<Rightarrow> sequence_observation \<Rightarrow> ft_sequence_kind \<Rightarrow> status_severity
     \<Rightarrow> health_snapshot \<Rightarrow> health_snapshot" where
  "count_record rec window ob ft severity h =
     (let h1 = h\<lparr>h_state := CS_Streaming, received_count := received_count h + 1,
                 receive_rate_hz := rate_of window,
                 last_rdt_sequence := Some (raw_rdt_sequence rec),
                 last_ft_sequence := Some (raw_ft_sequence rec),
                 last_status := raw_status rec\<rparr>;
          h2 = (account_rdt ob h1)\<lparr>last_ft_progress := ft_progress_name ft\<rparr>
      in account_severity severity (account_ft ft h2))"

definition rate_limited :: "ticks \<Rightarrow> client \<Rightarrow> bool" where
  "rate_limited received_at c \<longleftrightarrow>
     flt fzero (sample_rate_limit_hz (cl_config c)) \<and> last_delivery_at c \<noteq> 0 \<and>
     flt (fof_int binary64 (received_at - last_delivery_at c))
         (fmul binary64 (fdiv binary64 fone (sample_rate_limit_hz (cl_config c)))
                        (Fin False 1000000000))"

text \<open>
  The verdict on a record before the rate limit: whether its sample may be delivered, and
  how the session ends because of it, if it does.
\<close>

definition judge_record ::
  "config \<Rightarrow> sequence_observation \<Rightarrow> ft_sequence_kind \<Rightarrow> status_severity
     \<Rightarrow> bool \<times> session_result option" where
  "judge_record cfg ob ft severity =
     (let deliver1 = (seq_kind ob \<noteq> Duplicate \<and> seq_kind ob \<noteq> OutOfOrder);
          deliver2 = (if severity = SevError
                      then deliver_samples_with_error_status cfg \<and> deliver1 else deliver1);
          outcome1 = (if severity = SevError then Some SR_SeriousStatus else None);
          outcome2 = (if outcome1 = None \<and> ft = Stall then Some SR_FtStall
                      else if outcome1 = None \<and> ft = Backward then Some SR_FtBackward
                      else outcome1);
          ft_discontinuity = (ft = Stall \<or> ft = Backward);
          deliver3 = (deliver2 \<and> \<not> ft_discontinuity);
          outcome3 = (if ft_discontinuity \<and> recovery_policy cfg = Reconnect
                         \<and> (outcome2 = Some SR_FtStall \<or> outcome2 = Some SR_FtBackward)
                      then None else outcome2)
      in (deliver3, outcome3))"

text \<open>
  The first critical section of \<open>handle_record\<close>. The trackers advance before the section
  looks for the configuration, whose absence is a \<open>std::logic_error\<close>.
\<close>

definition observe_record ::
  "raw_record \<Rightarrow> ticks \<Rightarrow> client
     \<Rightarrow> client \<times> (bool \<times> session_result option \<times> sensor_configuration) result" where
  "observe_record rec received_at c =
     (let (rdt', ob) = rdt_observe (raw_rdt_sequence rec) (rdt_sequence c);
          (ft', ft) = ft_observe (raw_ft_sequence rec) (ft_sequence c);
          severity = classify_status (raw_status rec);
          c1 = c\<lparr>rdt_sequence := rdt', ft_sequence := ft'\<rparr>
      in case sensor_configuration (health c1) of
           None \<Rightarrow> (c1, Inl (LogicError ''sensor configuration is unavailable while streaming''))
         | Some cfg \<Rightarrow>
             (let ts = prune_rate_window (receive_times c1 @ [received_at]) received_at;
                  h3 = count_record rec ts ob ft severity (health c1);
                  (deliver, outcome) = judge_record (cl_config c1) ob ft severity;
                  limited = (deliver \<and> rate_limited received_at c1);
                  h4 = (if limited then h3\<lparr>rate_limited_count := rate_limited_count h3 + 1\<rparr> else h3)
              in (c1\<lparr>health := h4, receive_times := ts, last_record_at := received_at\<rparr>,
                  Inr (deliver \<and> \<not> limited, outcome, cfg))))"

definition scaled :: "i32 \<Rightarrow> fp \<Rightarrow> fp" where
  "scaled raw counts = fdiv binary64 (fof_int binary64 (sint raw)) counts"

definition make_sample :: "raw_record \<Rightarrow> ticks \<Rightarrow> sensor_configuration \<Rightarrow> sample" where
  "make_sample rec received_at cfg =
     (let cal = calibration cfg
      in \<lparr>smp_rdt_sequence = raw_rdt_sequence rec, smp_ft_sequence = raw_ft_sequence rec,
          smp_status = raw_status rec,
          raw_wrench = [fx rec, fy rec, fz rec, tx rec, ty rec, tz rec],
          smp_force = map (\<lambda>r. scaled r (counts_per_force_unit cal)) [fx rec, fy rec, fz rec],
          smp_torque = map (\<lambda>r. scaled r (counts_per_torque_unit cal)) [tx rec, ty rec, tz rec],
          smp_force_unit = force_unit cal, smp_torque_unit = torque_unit cal,
          configuration_revision = revision cfg, smp_received_at = received_at\<rparr>)"

definition sample_finite :: "sample \<Rightarrow> bool" where
  "sample_finite s \<longleftrightarrow> list_all isfinite (smp_force s) \<and> list_all isfinite (smp_torque s)"

text \<open>How a callback ends: it returns, throws a standard exception, or anything else.\<close>

datatype callback_end = Returned | Threw string | ThrewUnknown

definition callback_failure_outcome ::
  "recovery_policy \<Rightarrow> session_result option \<Rightarrow> session_result option" where
  "callback_failure_outcome policy outcome =
     (if outcome \<noteq> None \<or> policy = Reconnect then outcome else Some SR_Callback)"

text \<open>The second critical section: publishing a delivered sample.\<close>

definition deliver_sample :: "sample \<Rightarrow> client \<Rightarrow> client" where
  "deliver_sample s c =
     (let received = smp_received_at s;
          ts = prune_rate_window (delivery_times c @ [received]) received;
          h = health c
      in c\<lparr>last_delivery_at := received, latest := Some s, delivery_times := ts,
           health := h\<lparr>delivered_count := delivered_count h + 1, delivery_rate_hz := rate_of ts\<rparr>,
           delivered_generation := generation c\<rparr>)"

fun callback_message :: "callback_end \<Rightarrow> string" where
  "callback_message (Threw m) = m"
| "callback_message ThrewUnknown = ''sample callback failed''"
| "callback_message Returned = ''''"

text \<open>
  \<open>handle_record\<close> as a whole. The callback is an argument: it sees the sample, may call the
  client again while no lock is held, and ends in one of the three ways.
\<close>

definition handle_record ::
  "(sample \<Rightarrow> client \<Rightarrow> client \<times> callback_end) \<Rightarrow> raw_record \<Rightarrow> ticks \<Rightarrow> client
     \<Rightarrow> client \<times> session_result option result" where
  "handle_record callback rec received_at c =
     (case observe_record rec received_at c of
        (c1, Inl e) \<Rightarrow> (c1, Inl e)
      | (c1, Inr (deliver, outcome, cfg)) \<Rightarrow>
          (if \<not> deliver then (c1, Inr outcome)
           else let s = make_sample rec received_at cfg
           in if \<not> sample_finite s then (c1, Inr (Some SR_SensorConfiguration))
              else let (c2, ended) = (if has_callback c1 then callback s c1 else (c1, Returned))
              in if ended = Returned then (deliver_sample s c2, Inr outcome)
                 else (record_callback_error (callback_message ended) c2,
                       Inr (callback_failure_outcome (recovery_policy (cl_config c2)) outcome))))"

end
