(* ===== verification/Client_Record.thy ===== *)
theory Client_Record
  imports Client_State
begin

text \<open>
  What \<open>Client::Impl::handle_record\<close> does with one record: which records are delivered,
  how a session ends because of one, what is counted, and the rate window.
\<close>

section \<open>The verdict\<close>

lemma judge_record_eq:
  "judge_record cfg ob ft sev =
    (rdt_advances ob \<and> ft_advances ft
       \<and> (sev = SevError \<longrightarrow> deliver_samples_with_error_status cfg),
     if sev = SevError then Some SR_SeriousStatus
     else if recovery_policy cfg = FailStop \<and> ft = Stall then Some SR_FtStall
     else if recovery_policy cfg = FailStop \<and> ft = Backward then Some SR_FtBackward
     else None)"
  by (cases "seq_kind ob"; cases ft; cases "recovery_policy cfg")
    (simp_all add: judge_record_def Let_def rdt_advances_def ft_advances_def)

definition record_rdt :: "raw_record \<Rightarrow> client \<Rightarrow> sequence_observation" where
  "record_rdt rec c = snd (rdt_observe (raw_rdt_sequence rec) (rdt_sequence c))"

definition record_ft :: "raw_record \<Rightarrow> client \<Rightarrow> ft_sequence_kind" where
  "record_ft rec c = snd (ft_observe (raw_ft_sequence rec) (ft_sequence c))"

definition deliverable :: "raw_record \<Rightarrow> ticks \<Rightarrow> client \<Rightarrow> bool" where
  "deliverable rec received_at c \<longleftrightarrow>
     rdt_advances (record_rdt rec c) \<and> ft_advances (record_ft rec c)
     \<and> (classify_status (raw_status rec) = SevError \<longrightarrow> deliver_samples_with_error_status (cl_config c))
     \<and> \<not> rate_limited received_at c"

definition record_outcome :: "raw_record \<Rightarrow> client \<Rightarrow> session_result option" where
  "record_outcome rec c =
     (if classify_status (raw_status rec) = SevError then Some SR_SeriousStatus
      else if recovery_policy (cl_config c) = FailStop \<and> record_ft rec c = Stall then Some SR_FtStall
      else if recovery_policy (cl_config c) = FailStop \<and> record_ft rec c = Backward then Some SR_FtBackward
      else None)"

text \<open>A record that would be delivered but for the rate limit.\<close>

definition limited_record :: "raw_record \<Rightarrow> ticks \<Rightarrow> client \<Rightarrow> bool" where
  "limited_record rec received_at c \<longleftrightarrow>
     rdt_advances (record_rdt rec c) \<and> ft_advances (record_ft rec c)
     \<and> (classify_status (raw_status rec) = SevError \<longrightarrow> deliver_samples_with_error_status (cl_config c))
     \<and> rate_limited received_at c"

definition record_window :: "ticks \<Rightarrow> client \<Rightarrow> ticks list" where
  "record_window received_at c = prune_rate_window (receive_times c @ [received_at]) received_at"

definition counted_health :: "raw_record \<Rightarrow> ticks \<Rightarrow> client \<Rightarrow> health_snapshot" where
  "counted_health rec received_at c =
     count_record rec (record_window received_at c) (record_rdt rec c) (record_ft rec c)
       (classify_status (raw_status rec)) (health c)"

definition observed_client :: "raw_record \<Rightarrow> ticks \<Rightarrow> client \<Rightarrow> client" where
  "observed_client rec received_at c =
     c\<lparr>rdt_sequence := fst (rdt_observe (raw_rdt_sequence rec) (rdt_sequence c)),
       ft_sequence := fst (ft_observe (raw_ft_sequence rec) (ft_sequence c)),
       health := (if limited_record rec received_at c
         then (counted_health rec received_at c)\<lparr>rate_limited_count := rate_limited_count (health c) + 1\<rparr>
         else counted_health rec received_at c),
       receive_times := record_window received_at c, last_record_at := received_at\<rparr>"

lemma account_severity_if:
  "account_severity s h =
    (if s = SevWarn then h\<lparr>warning_count := warning_count h + 1\<rparr>
     else if s = SevError then h\<lparr>device_error_count := device_error_count h + 1\<rparr> else h)"
  by (cases s) simp_all

lemma account_ft_if:
  "account_ft k h =
    (if k = Stall then h\<lparr>ft_stall_count := ft_stall_count h + 1\<rparr>
     else if k = Backward then h\<lparr>ft_backward_count := ft_backward_count h + 1\<rparr>
     else if k = Restart then h\<lparr>ft_restart_count := ft_restart_count h + 1\<rparr> else h)"
  by (cases k) simp_all

lemma account_rdt_if:
  "account_rdt ob h =
    (if seq_kind ob = Gap then h\<lparr>lost_count := lost_count h + ucast (gap ob)\<rparr>
     else if seq_kind ob = Duplicate then h\<lparr>duplicate_count := duplicate_count h + 1\<rparr>
     else if seq_kind ob = OutOfOrder then h\<lparr>out_of_order_count := out_of_order_count h + 1\<rparr> else h)"
  by (cases "seq_kind ob") simp_all

text \<open>What each field of the snapshot is after a record was counted.\<close>

lemma count_record_fields [simp]:
  "h_state (count_record rec w ob ft sev h) = CS_Streaming"
  "h_fault_code (count_record rec w ob ft sev h) = h_fault_code h"
  "last_error (count_record rec w ob ft sev h) = last_error h"
  "sensor_configuration (count_record rec w ob ft sev h) = sensor_configuration h"
  "received_count (count_record rec w ob ft sev h) = received_count h + 1"
  "delivered_count (count_record rec w ob ft sev h) = delivered_count h"
  "callback_error_count (count_record rec w ob ft sev h) = callback_error_count h"
  "rate_limited_count (count_record rec w ob ft sev h) = rate_limited_count h"
  "receive_rate_hz (count_record rec w ob ft sev h) = rate_of w"
  "delivery_rate_hz (count_record rec w ob ft sev h) = delivery_rate_hz h"
  "lost_count (count_record rec w ob ft sev h) = lost_count h + (if seq_kind ob = Gap then ucast (gap ob) else 0)"
  "duplicate_count (count_record rec w ob ft sev h) = duplicate_count h + of_bool (seq_kind ob = Duplicate)"
  "out_of_order_count (count_record rec w ob ft sev h) = out_of_order_count h + of_bool (seq_kind ob = OutOfOrder)"
  "ft_stall_count (count_record rec w ob ft sev h) = ft_stall_count h + of_bool (ft = Stall)"
  "ft_backward_count (count_record rec w ob ft sev h) = ft_backward_count h + of_bool (ft = Backward)"
  "ft_restart_count (count_record rec w ob ft sev h) = ft_restart_count h + of_bool (ft = Restart)"
  "warning_count (count_record rec w ob ft sev h) = warning_count h + of_bool (sev = SevWarn)"
  "device_error_count (count_record rec w ob ft sev h) = device_error_count h + of_bool (sev = SevError)"
  by (simp_all add: count_record_def Let_def account_severity_if account_ft_if account_rdt_if del: account_rdt.simps)

lemma rate_limited_update [simp]:
  "rate_limited received_at (c\<lparr>rdt_sequence := t, ft_sequence := u\<rparr>) = rate_limited received_at c"
  by (simp add: rate_limited_def)

lemma observe_record_None:
  "sensor_configuration (health c) = None \<Longrightarrow>
   observe_record rec received_at c =
    (c\<lparr>rdt_sequence := fst (rdt_observe (raw_rdt_sequence rec) (rdt_sequence c)),
       ft_sequence := fst (ft_observe (raw_ft_sequence rec) (ft_sequence c))\<rparr>,
     Inl (LogicError ''sensor configuration is unavailable while streaming''))"
  by (simp add: observe_record_def case_prod_unfold Let_def)

lemma observe_record_Some:
  assumes "sensor_configuration (health c) = Some cfg"
  shows "observe_record rec received_at c =
    (observed_client rec received_at c,
     Inr (deliverable rec received_at c, record_outcome rec c, cfg))"
proof -
  have lim: "limited_record rec received_at c \<longleftrightarrow>
      fst (judge_record (cl_config c) (record_rdt rec c) (record_ft rec c) (classify_status (raw_status rec)))
      \<and> rate_limited received_at c"
    by (auto simp: limited_record_def judge_record_eq)
  have del: "deliverable rec received_at c \<longleftrightarrow>
      fst (judge_record (cl_config c) (record_rdt rec c) (record_ft rec c) (classify_status (raw_status rec)))
      \<and> \<not> limited_record rec received_at c"
    by (auto simp: limited_record_def deliverable_def judge_record_eq)
  have out: "record_outcome rec c =
      snd (judge_record (cl_config c) (record_rdt rec c) (record_ft rec c) (classify_status (raw_status rec)))"
    by (simp add: record_outcome_def judge_record_eq)
  show ?thesis
    unfolding del out observed_client_def lim counted_health_def record_window_def record_rdt_def record_ft_def
    using assms by (simp add: observe_record_def case_prod_unfold Let_def)
qed

lemma observe_record_result:
  "snd (observe_record rec received_at c) =
    (case sensor_configuration (health c) of
       None \<Rightarrow> Inl (LogicError ''sensor configuration is unavailable while streaming'')
     | Some cfg \<Rightarrow> Inr (deliverable rec received_at c, record_outcome rec c, cfg))"
  by (simp add: observe_record_None observe_record_Some split: option.split)

text \<open>What the section leaves alone.\<close>

lemma observed_client_keeps [simp]:
  "cl_config (observed_client rec received_at c) = cl_config c"
  "stopping (observed_client rec received_at c) = stopping c"
  "has_callback (observed_client rec received_at c) = has_callback c"
  "latch (observed_client rec received_at c) = latch c"
  "latest (observed_client rec received_at c) = latest c"
  "generation (observed_client rec received_at c) = generation c"
  "delivered_generation (observed_client rec received_at c) = delivered_generation c"
  "delivery_times (observed_client rec received_at c) = delivery_times c"
  "last_delivery_at (observed_client rec received_at c) = last_delivery_at c"
  "sensor_configuration (health (observed_client rec received_at c)) = sensor_configuration (health c)"
  by (simp_all add: observed_client_def counted_health_def)

section \<open>Counting\<close>

text \<open>
  Why a record was not delivered: the counters of the reasons that apply to it.
\<close>

definition reason_counted :: "health_snapshot \<Rightarrow> health_snapshot \<Rightarrow> bool" where
  "reason_counted h h' \<longleftrightarrow>
     duplicate_count h' = duplicate_count h + 1 \<or> out_of_order_count h' = out_of_order_count h + 1
     \<or> ft_stall_count h' = ft_stall_count h + 1 \<or> ft_backward_count h' = ft_backward_count h + 1
     \<or> device_error_count h' = device_error_count h + 1 \<or> rate_limited_count h' = rate_limited_count h + 1"

lemma observed_client_counts:
  "received_count (health (observed_client rec received_at c)) = received_count (health c) + 1"
  "delivered_count (health (observed_client rec received_at c)) = delivered_count (health c)"
  "callback_error_count (health (observed_client rec received_at c)) = callback_error_count (health c)"
  by (simp_all add: observed_client_def counted_health_def)

lemma undelivered_reason_counted:
  assumes "\<not> deliverable rec received_at c"
  shows "reason_counted (health c) (health (observed_client rec received_at c))"
  using assms
  by (cases "seq_kind (record_rdt rec c)"; cases "record_ft rec c")
    (auto simp: observed_client_def counted_health_def limited_record_def deliverable_def
      reason_counted_def rdt_advances_def ft_advances_def)

section \<open>Handling a record\<close>

lemma sensor_scaled_finite:
  assumes "validate_calibration (calibration cfg) = Inr ()"
  shows "sample_finite (make_sample rec received_at cfg)"
  using assms
  by (auto simp: sample_finite_def make_sample_def Let_def scaled_def validate_calibration_def
      intro: safe_count_finite)

definition configured :: "client \<Rightarrow> bool" where
  "configured c \<longleftrightarrow> (case sensor_configuration (health c) of
       None \<Rightarrow> False | Some cfg \<Rightarrow> validate_calibration (calibration cfg) = Inr ())"

lemma configured_obtain:
  assumes "configured c"
  obtains cfg where "sensor_configuration (health c) = Some cfg"
    "validate_calibration (calibration cfg) = Inr ()"
  using assms by (auto simp: configured_def split: option.splits)

lemma handle_record_configured:
  assumes "sensor_configuration (health c) = Some cfg" and "validate_calibration (calibration cfg) = Inr ()"
  shows "handle_record callback rec received_at c =
      (if \<not> deliverable rec received_at c then (observed_client rec received_at c, Inr (record_outcome rec c))
       else let (c2, ended) =
           (if has_callback c then callback (make_sample rec received_at cfg) (observed_client rec received_at c)
            else (observed_client rec received_at c, Returned))
         in if ended = Returned
            then (deliver_sample (make_sample rec received_at cfg) c2, Inr (record_outcome rec c))
            else (record_callback_error (callback_message ended) c2,
              Inr (callback_failure_outcome (recovery_policy (cl_config c2)) (record_outcome rec c))))"
  by (simp add: handle_record_def observe_record_Some [OF assms(1)] sensor_scaled_finite [OF assms(2)] Let_def)

text \<open>A callback that touches nothing of the client, given by how it ends on each sample.\<close>

definition plain_callback :: "(sample \<Rightarrow> callback_end) \<Rightarrow> sample \<Rightarrow> client \<Rightarrow> client \<times> callback_end" where
  "plain_callback ends s c = (c, ends s)"

definition delivers :: "(sample \<Rightarrow> callback_end) \<Rightarrow> raw_record \<Rightarrow> ticks \<Rightarrow> client \<Rightarrow> bool" where
  "delivers ends rec received_at c \<longleftrightarrow>
     deliverable rec received_at c
     \<and> (has_callback c \<longrightarrow>
          ends (make_sample rec received_at (the (sensor_configuration (health c)))) = Returned)"

lemma deliver_sample_fields [simp]:
  "latest (deliver_sample s c) = Some s"
  "delivered_count (health (deliver_sample s c)) = delivered_count (health c) + 1"
  "received_count (health (deliver_sample s c)) = received_count (health c)"
  "last_delivery_at (deliver_sample s c) = smp_received_at s"
  "delivered_generation (deliver_sample s c) = generation c"
  "latch (deliver_sample s c) = latch c"
  "sensor_configuration (health (deliver_sample s c)) = sensor_configuration (health c)"
  by (simp_all add: deliver_sample_def Let_def)

lemma record_callback_error_fields [simp]:
  "latest (record_callback_error m c) = latest c"
  "delivered_count (health (record_callback_error m c)) = delivered_count (health c)"
  "received_count (health (record_callback_error m c)) = received_count (health c)"
  "callback_error_count (health (record_callback_error m c)) = callback_error_count (health c) + 1"
  "last_delivery_at (record_callback_error m c) = last_delivery_at c"
  "latch (record_callback_error m c) = latch c"
  "sensor_configuration (health (record_callback_error m c)) = sensor_configuration (health c)"
  by (simp_all add: record_callback_error_def)

lemma received_at_make_sample [simp]: "smp_received_at (make_sample rec received_at cfg) = received_at"
  by (simp add: make_sample_def Let_def)

lemma handle_record_plain:
  assumes "sensor_configuration (health c) = Some cfg" and "validate_calibration (calibration cfg) = Inr ()"
  shows "handle_record (plain_callback ends) rec received_at c =
    (let c1 = observed_client rec received_at c; s = make_sample rec received_at cfg in
     if \<not> deliverable rec received_at c then (c1, Inr (record_outcome rec c))
     else if delivers ends rec received_at c then (deliver_sample s c1, Inr (record_outcome rec c))
     else (record_callback_error (callback_message (ends s)) c1,
       Inr (callback_failure_outcome (recovery_policy (cl_config c)) (record_outcome rec c))))"
  by (simp add: handle_record_configured [OF assms] plain_callback_def delivers_def assms(1) Let_def)

text \<open>
  C7: the delivery gate. The latest sample changes exactly when the record advances the RDT
  sequence, advances (or restarts) the FT counter, carries no error status unless the
  configuration asks for such samples, is not held back by the rate limit, and the callback
  returns; then it is this record's sample under the current calibration.
\<close>

theorem record_delivery_gate:
  assumes "sensor_configuration (health c) = Some cfg" and "validate_calibration (calibration cfg) = Inr ()"
  shows "let c' = fst (handle_record (plain_callback ends) rec received_at c);
             s = make_sample rec received_at cfg;
             gate = rdt_advances (record_rdt rec c) \<and> ft_advances (record_ft rec c)
               \<and> (classify_status (raw_status rec) = SevError \<longrightarrow>
                    deliver_samples_with_error_status (cl_config c))
               \<and> \<not> rate_limited received_at c
               \<and> (has_callback c \<longrightarrow> ends s = Returned)
         in latest c' = (if gate then Some s else latest c)
            \<and> delivered_count (health c') = delivered_count (health c) + of_bool gate
            \<and> last_delivery_at c' = (if gate then received_at else last_delivery_at c)"
  using assms(1)
  by (cases "delivers ends rec received_at c")
    (auto simp: handle_record_plain [OF assms] Let_def delivers_def deliverable_def observed_client_counts)

text \<open>
  C22: nothing is dropped silently. Handling a record counts it as received, and either
  delivers it, or counts a callback error, or counts a reason for holding it back.
\<close>

theorem record_accounted:
  assumes "sensor_configuration (health c) = Some cfg" and "validate_calibration (calibration cfg) = Inr ()"
  shows "let h = health c; h' = health (fst (handle_record (plain_callback ends) rec received_at c))
         in received_count h' = received_count h + 1
            \<and> (delivered_count h' = delivered_count h + 1
               \<or> callback_error_count h' = callback_error_count h + 1
               \<or> reason_counted h h')"
  using undelivered_reason_counted [of rec received_at c]
  by (simp add: handle_record_plain [OF assms] Let_def observed_client_counts)


section \<open>The rate window\<close>

lemma prune_rate_window_filter:
  assumes "sorted ts"
  shows "prune_rate_window ts now = filter (\<lambda>t. now - t \<le> 1000000000) ts"
  using assms
proof (induction ts)
  case (Cons t ts)
  show ?case
  proof (cases "now - t > 1000000000")
    case False
    with Cons.prems have "\<forall>u \<in> set ts. now - u \<le> 1000000000" by fastforce
    then have "filter (\<lambda>t. now - t \<le> 1000000000) ts = ts" by simp
    with False show ?thesis by (simp add: prune_rate_window_def)
  qed (use Cons in \<open>simp add: prune_rate_window_def\<close>)
qed (simp add: prune_rate_window_def)

definition within_second :: "ticks \<Rightarrow> ticks list \<Rightarrow> ticks list" where
  "within_second now past = filter (\<lambda>t. now - t \<le> 1000000000) past"

lemma within_second_narrow:
  "l \<le> now \<Longrightarrow> within_second now (within_second l past) = within_second now past"
  by (auto simp: within_second_def intro: filter_cong)

lemma sorted_within_second: "sorted past \<Longrightarrow> sorted (within_second now past)"
  by (simp add: within_second_def sorted_filter [of "\<lambda>x. x", simplified])

text \<open>
  The published receive rate. If the window holds the receptions of the last second
  before the previous one, it does so after the next record, for any non-decreasing
  reception times; the rate is their number.
\<close>

theorem receive_rate_is_last_second:
  assumes "receive_times c = within_second l past" and "sorted (past @ [now])" and "l \<le> now"
    and "sensor_configuration (health c) \<noteq> None"
  shows "let c' = fst (observe_record rec now c) in
    receive_times c' = within_second now (past @ [now])
    \<and> receive_rate_hz (health c') = fof_int binary64 (int (length (within_second now (past @ [now]))))"
proof -
  obtain cfg where cfg: "sensor_configuration (health c) = Some cfg" using assms(4) by auto
  have "sorted (receive_times c @ [now])"
    using assms(1,2) sorted_within_second [of past l] by (auto simp: sorted_append within_second_def)
  then have "record_window now c = within_second now (receive_times c @ [now])"
    by (simp add: record_window_def prune_rate_window_filter within_second_def)
  also have "\<dots> = within_second now (past @ [now])"
    using within_second_narrow [OF assms(3), of past] by (simp add: assms(1)) (simp add: within_second_def)
  finally show ?thesis
    by (simp add: observe_record_Some [OF cfg] observed_client_def counted_health_def rate_of_def Let_def)
qed

section \<open>The rate limit\<close>

lemma fround_normal:
  assumes "2 powi -970 \<le> q" and "q \<le> 2 powi 1000"
  shows "\<exists>r. fround binary64 s q = Fin s r \<and> q * (1 - 1 / 2 ^ 53) \<le> r"
proof -
  have pos: "0 < q" by (rule less_le_trans [OF _ assms(1)]) simp
  have "(2::rat) powi 1000 \<le> max_mag binary64"
    by (simp add: max_mag_def binary64_def)
  with assms(2) have "isfinite (fround binary64 s q)"
    using pos by (intro b64.fround_finite) simp_all
  then have f: "fround binary64 s q = Fin s (round_mag binary64 q)"
    by (auto simp: fround_def Let_def split: if_splits)
  have "ilog2 q \<ge> -970" using ilog2_mono [OF _ assms(1)] ilog2_unique [of "-970" "2 powi -970"] by simp
  then have "q * (1 - 2 powi (- prec binary64)) \<le> round_mag binary64 q"
    using pos by (intro b64.round_mag_relative) (simp_all add: binary64_def)
  then show ?thesis using f by (simp add: binary64_def power_int_minus field_simps)
qed

lemma period_in_ticks:
  assumes "2 powi -900 \<le> q" and "q \<le> 2 powi 900"
  shows "\<exists>r. fmul binary64 (fdiv binary64 fone (Fin False q)) (Fin False 1000000000) = Fin False r
    \<and> 1000000000 / q * (1 - 1 / 2 ^ 52) \<le> r"
proof -
  have pos: "0 < q" by (rule less_le_trans [OF _ assms(1)]) simp
  have lo: "2 powi -900 \<le> 1 / q" and hi: "1 / q \<le> 2 powi 900"
    using assms pos by (simp_all add: field_simps power_int_minus)
  have "2 powi -970 \<le> 1 / q"
    by (rule order.trans [OF _ lo]) simp
  moreover have "1 / q \<le> 2 powi 1000"
    by (rule order.trans [OF hi]) simp
  ultimately obtain p where p: "fround binary64 False (1 / q) = Fin False p" "1 / q * (1 - 1 / 2 ^ 53) \<le> p"
    using fround_normal by blast
  have "1 / q \<le> 2 powi 900" by (rule hi)
  then have "fround binary64 False (1/q) = Fin False p \<Longrightarrow> p \<le> 2 powi 900"
    using b64.round_mag_mono [of "1/q" "2 powi 900"] b64.round_mag_exact [of 1 900] pos
    by (auto simp: fround_def Let_def binary64_def split: if_splits)
  with p(1) have p_hi: "p \<le> 2 powi 900" by simp
  have half: "(1/2::rat) \<le> 1 - 1 / 2 ^ 53" by simp
  have "1 / q * (1/2) \<le> 1 / q * (1 - 1 / 2 ^ 53)" using pos by (intro mult_left_mono half) simp
  with p(2) lo have p_lo: "2 powi -901 \<le> p"
    using powi2_add [of "-900" "-1"] by (simp add: power_int_minus)
  have p_pos: "0 < p" by (rule less_le_trans [OF _ p_lo]) simp
  have "p \<le> p * 1000000000" using p_pos by simp
  then have "2 powi -970 \<le> p * 1000000000"
    using p_lo order.trans [of "2 powi -970" "2 powi -901" p] by simp
  moreover have "p * 1000000000 \<le> 2 powi 900 * 2 powi 30"
    using p_hi by (intro mult_mono) simp_all
  then have "p * 1000000000 \<le> 2 powi 1000"
    using powi2_add [of 900 30] powi2_le_iff [of 930 1000] by simp
  ultimately obtain r where r: "fround binary64 False (p * 1000000000) = Fin False r"
    "p * 1000000000 * (1 - 1 / 2 ^ 53) \<le> r"
    using fround_normal by blast
  have "1000000000 / q * (1 - 1 / 2 ^ 52) \<le> 1000000000 / q * ((1 - 1 / 2 ^ 53) * (1 - 1 / 2 ^ 53))"
    using pos by (intro mult_left_mono) simp_all
  also have "\<dots> = 1 / q * (1 - 1 / 2 ^ 53) * (1000000000 * (1 - 1 / 2 ^ 53))" by simp
  also have "\<dots> \<le> p * (1000000000 * (1 - 1 / 2 ^ 53))"
    using p(2) by (intro mult_right_mono) simp_all
  also have "\<dots> \<le> r" using r(2) by simp
  finally show ?thesis using p(1) r(1) p_pos pos by (simp add: fone_def)
qed


section \<open>Concrete instances\<close>

definition example_record :: raw_record where
  "example_record = \<lparr>raw_rdt_sequence = 8, raw_ft_sequence = 120, raw_status = 0,
     fx = 1000000, fy = 0, fz = -1, tx = 5, ty = 6, tz = 7\<rparr>"

definition example_session_configuration :: sensor_configuration where
  "example_session_configuration = \<lparr>product_name = ''Gamma'', calibration = example_calibration,
     cfg_source = Sensor, revision = 1\<rparr>"

text \<open>A streaming client with a limit of one sample per second.\<close>

definition example_client :: client where
  "example_client =
     \<lparr>cl_config = default_config\<lparr>sample_rate_limit_hz := fone\<rparr>, stopping = False, worker_exited = False,
      session_started = True, latch = FC_None,
      health = default_health\<lparr>h_state := CS_Streaming,
        sensor_configuration := Some example_session_configuration\<rparr>,
      latest = None, last_delivery_at = 5000000000, last_record_at = 6500000000, generation = 1,
      delivered_generation = 1, receive_times = [5600000000, 6500000000], delivery_times = [5000000000],
      consecutive_malformed = 0, rdt_sequence = \<lparr>rdt_has_last = True, rdt_previous = 7\<rparr>,
      ft_sequence = \<lparr>ft_has_last = True, ft_previous = 100, has_restart_candidate = False,
        restart_candidate = 0\<rparr>,
      has_callback = True, worker_joinable = True, joining = False, worker_active = True,
      transport = \<lparr>tr_socket = Some 3, shutdown_requested = False\<rparr>, sent_commands = [StartRealtime]\<rparr>"

lemma example_client_configured:
  "sensor_configuration (health example_client) = Some example_session_configuration"
  "validate_calibration (calibration example_session_configuration) = Inr ()"
  by (simp_all add: example_client_def example_session_configuration_def example_calibration_validates)

lemma example_period:
  "fmul binary64 (fdiv binary64 fone fone) (Fin False 1000000000) = Fin False 1000000000"
  using fof_int_exact [of 1] fof_int_exact [of 1000000000] by (simp add: fone_def fof_int_def)

lemma example_gate:
  "rdt_advances (record_rdt example_record example_client)"
  "record_ft example_record example_client = Forward"
  "classify_status (raw_status example_record) = SevOk"
  "\<not> rate_limited 7000000000 example_client"
  using example_period fof_int_exact [of 2000000000]
  by (simp_all add: record_rdt_def record_ft_def rdt_observe_def ft_observe_def rdt_advances_def
      classify_status_def rate_limited_def example_record_def example_client_def)

lemma example_deliverable: "deliverable example_record 7000000000 example_client"
  by (simp add: deliverable_def example_gate ft_advances_def)

theorem record_delivery_gate_witness:
  "let c' = fst (handle_record (plain_callback (\<lambda>s. Returned)) example_record 7000000000 example_client)
   in latest c' = Some (make_sample example_record 7000000000 example_session_configuration)
      \<and> last_delivery_at c' = 7000000000"
  using record_delivery_gate [OF example_client_configured, of "\<lambda>s. Returned" example_record 7000000000]
  by (simp add: Let_def example_gate ft_advances_def)

theorem record_accounted_witness:
  "let h = health example_client;
       h' = health (fst (handle_record (plain_callback (\<lambda>s. Threw ''no'')) example_record 7000000000 example_client))
   in received_count h' = received_count h + 1
      \<and> (delivered_count h' = delivered_count h + 1
         \<or> callback_error_count h' = callback_error_count h + 1 \<or> reason_counted h h')"
  by (rule record_accounted [OF example_client_configured])


theorem receive_rate_is_last_second_witness:
  "let c' = fst (observe_record example_record 7000000000 example_client)
   in receive_times c' = [6500000000, 7000000000] \<and> receive_rate_hz (health c') = fof_int binary64 2"
  using receive_rate_is_last_second [of example_client 6500000000 "[1000, 5600000000, 6500000000]" 7000000000 example_record]
  by (simp add: Let_def within_second_def example_client_configured) (simp add: example_client_def within_second_def)


end
