(* ===== verification/Client_Worker.thy ===== *)
theory Client_Worker
  imports Client_Record
begin

text \<open>
  The worker thread of the client: \<open>Client::Impl::run\<close>, \<open>receive_session\<close>, \<open>close_session\<close>
  and \<open>finish_session\<close> as a program-counter machine. One step is one lock section, one
  read of a shared atomic, or one blocking call, so that the steps of other threads can
  come between any two of them. What the environment answers to a step (clock, discovery,
  sockets, the callback) is the step's argument.
\<close>

section \<open>Program counters\<close>

record answer =
  a_now :: ticks
  a_discovered :: "sensor_configuration result"
  a_resolved :: "string + address_attempt list"
  a_sent :: os_count
  a_polls :: "poll_answer list"
  a_received :: recv_answer
  a_callback :: callback_end

text \<open>The deadline of the current wait travels with the program counters inside the loop.\<close>

datatype pc =
    RunHead
  | SessionEnter | SessionStopCheck | Discovering | ConfiguredCheck | Connecting
  | SendingStart | ResettingTrackers | ArmDeadline
  | LoopHead ticks | LoopClock ticks | TimedOut
  | ReceiveBegin ticks fp | ReceiveWait ticks fp | ReceiveEnd ticks "poll_end result"
  | ReceiveFailed string | Received ticks "u8 list" | MalformedRecord ticks
  | ValidRecord raw_record | ObservingRecord raw_record ticks ticks
  | InCallback sample "session_result option" ticks
  | CallbackFailed string "session_result option" ticks
  | Delivering sample "session_result option" ticks
  | ClosingSession session_outcome | Judging session_outcome
  | EnteringBackoff string | ArmingBackoff | BackingOff ticks
  | RunFailed exn
  | FinishClosing | FinishExiting | FinishState | Exited

record worker =
  pc_at :: pc
  backoff :: fp
  valid_seen :: bool

definition worker_start :: "client \<Rightarrow> worker" where
  "worker_start c =
     \<lparr>pc_at = RunHead, backoff = reconnect_initial_delay (cl_config c), valid_seen = False\<rparr>"

definition next_backoff :: "config \<Rightarrow> fp \<Rightarrow> fp" where
  "next_backoff cfg b = fmin (fmul binary64 b (Fin False 2)) (reconnect_max_delay cfg)"

section \<open>Shared sections\<close>

definition send_command ::
  "(int \<Rightarrow> string) \<Rightarrow> os_count \<Rightarrow> command \<Rightarrow> client \<Rightarrow> client \<times> unit result" where
  "send_command strerror answer cmd c =
     (let r = transport_send strerror answer (encode_request cmd 0) (transport c)
      in (if succeeds r then c\<lparr>sent_commands := sent_commands c @ [cmd]\<rparr> else c, r))"

text \<open>The part of \<open>stop\<close> and of \<open>close_session\<close> that tells the device, errors ignored.\<close>

definition stop_streaming :: "(int \<Rightarrow> string) \<Rightarrow> os_count \<Rightarrow> client \<Rightarrow> client" where
  "stop_streaming strerror answer c =
     (if session_started c
      then (fst (send_command strerror answer StopStreaming c))\<lparr>session_started := False\<rparr>
      else c)"

definition close_session :: "(int \<Rightarrow> string) \<Rightarrow> os_count \<Rightarrow> client \<Rightarrow> client" where
  "close_session strerror answer c =
     (let c1 = stop_streaming strerror answer c
      in c1\<lparr>transport := transport_close (transport c1)\<rparr>)"

definition stopped_or :: "client \<Rightarrow> session_result \<Rightarrow> session_result" where
  "stopped_or c r = (if stopping c then SR_Stopped else r)"

definition end_session :: "session_result \<Rightarrow> string \<Rightarrow> worker \<Rightarrow> worker" where
  "end_session r message w =
     w\<lparr>pc_at := ClosingSession \<lparr>so_result = r, so_message = message, received_valid_record = valid_seen w\<rparr>\<rparr>"

definition after_record :: "session_result option \<Rightarrow> ticks \<Rightarrow> worker \<Rightarrow> worker" where
  "after_record outcome deadline w =
     (case outcome of Some r \<Rightarrow> end_session r [] w | None \<Rightarrow> w\<lparr>pc_at := LoopHead deadline\<rparr>)"

section \<open>The steps\<close>

fun step_at :: "(int \<Rightarrow> string) \<Rightarrow> answer \<Rightarrow> pc \<Rightarrow> client \<Rightarrow> worker \<Rightarrow> client \<times> worker" where
  "step_at strerror a RunHead c w =
     (c, if \<not> stopping c \<and> \<not> faulted c then w\<lparr>pc_at := SessionEnter\<rparr> else w\<lparr>pc_at := FinishClosing\<rparr>)"
| "step_at strerror a SessionEnter c w =
     (c\<lparr>health := (health c)\<lparr>h_state := CS_Connecting\<rparr>\<rparr>, w\<lparr>pc_at := SessionStopCheck, valid_seen := False\<rparr>)"
| "step_at strerror a SessionStopCheck c w =
     (c, if stopping c then end_session SR_Stopped [] w else w\<lparr>pc_at := Discovering\<rparr>)"
| "step_at strerror a Discovering c w =
     (case configuration_for_session (a_discovered a) c of
        Inr cfg \<Rightarrow> (apply_configuration cfg c, w\<lparr>pc_at := ConfiguredCheck\<rparr>)
      | Inl (DiscoveryError m) \<Rightarrow> (c, end_session (stopped_or c SR_SensorConfiguration) m w)
      | Inl e \<Rightarrow> (c, w\<lparr>pc_at := RunFailed e\<rparr>))"
| "step_at strerror a ConfiguredCheck c w =
     (c, if stopping c then end_session SR_Stopped [] w else w\<lparr>pc_at := Connecting\<rparr>)"
| "step_at strerror a Connecting c w =
     (case transport_connect strerror (a_resolved a) (transport c) of
        (t, Inr u) \<Rightarrow> (c\<lparr>transport := t\<rparr>, w\<lparr>pc_at := SendingStart\<rparr>)
      | (t, Inl e) \<Rightarrow> (c\<lparr>transport := t\<rparr>, w\<lparr>pc_at := ReceiveFailed (what e)\<rparr>))"
| "step_at strerror a SendingStart c w =
     (if stopping c then (c, end_session SR_Stopped [] w)
      else case send_command strerror (a_sent a) StartRealtime c of
             (c1, Inr u) \<Rightarrow> (c1\<lparr>session_started := True\<rparr>, w\<lparr>pc_at := ResettingTrackers\<rparr>)
           | (c1, Inl e) \<Rightarrow> (c1, w\<lparr>pc_at := ReceiveFailed (what e)\<rparr>))"
| "step_at strerror a ResettingTrackers c w =
     (c\<lparr>rdt_sequence := rdt_reset (rdt_sequence c), ft_sequence := ft_begin_session (ft_sequence c)\<rparr>,
      w\<lparr>pc_at := ArmDeadline\<rparr>)"
| "step_at strerror a ArmDeadline c w =
     (case checked_deadline (a_now a) (receive_timeout (cl_config c)) of
        Inl e \<Rightarrow> (c, w\<lparr>pc_at := RunFailed e\<rparr>)
      | Inr deadline \<Rightarrow> (c, w\<lparr>pc_at := LoopHead deadline\<rparr>))"
| "step_at strerror a (LoopHead deadline) c w =
     (c, if stopping c then end_session SR_Stopped [] w else w\<lparr>pc_at := LoopClock deadline\<rparr>)"
| "step_at strerror a (LoopClock deadline) c w =
     (c, if a_now a \<ge> deadline then w\<lparr>pc_at := TimedOut\<rparr>
         else w\<lparr>pc_at := ReceiveBegin deadline (seconds_of (deadline - a_now a))\<rparr>)"
| "step_at strerror a TimedOut c w =
     (if stopping c then (c, end_session SR_Stopped [] w)
      else (c\<lparr>health := (health c)\<lparr>timeout_count := timeout_count (health c) + 1\<rparr>\<rparr>,
            end_session SR_Timeout [] w))"
| "step_at strerror a (ReceiveBegin deadline timeout) c w =
     (c, case receive_begin (transport c) of
           Inl e \<Rightarrow> w\<lparr>pc_at := ReceiveFailed (what e)\<rparr>
         | Inr None \<Rightarrow> w\<lparr>pc_at := Received deadline []\<rparr>
         | Inr (Some s) \<Rightarrow> w\<lparr>pc_at := ReceiveWait deadline timeout\<rparr>)"
| "step_at strerror a (ReceiveWait deadline timeout) c w =
     (c, case receive_wait strerror (a_now a) timeout (a_polls a) of
           None \<Rightarrow> w
         | Some waited \<Rightarrow> w\<lparr>pc_at := ReceiveEnd deadline waited\<rparr>)"
| "step_at strerror a (ReceiveEnd deadline waited) c w =
     (c, case receive_end strerror 65536 waited (a_received a) (transport c) of
           Inl e \<Rightarrow> w\<lparr>pc_at := ReceiveFailed (what e)\<rparr>
         | Inr bytes \<Rightarrow> w\<lparr>pc_at := Received deadline bytes\<rparr>)"
| "step_at strerror a (ReceiveFailed m) c w = (c, end_session (stopped_or c SR_Socket) m w)"
| "step_at strerror a (Received deadline bytes) c w =
     (c, if stopping c then end_session SR_Stopped [] w
         else if bytes = [] then w\<lparr>pc_at := TimedOut\<rparr>
         else case decode_record (Some bytes) (length bytes) of
                Inl e \<Rightarrow> w\<lparr>pc_at := MalformedRecord deadline\<rparr>
              | Inr rec \<Rightarrow> w\<lparr>pc_at := ValidRecord rec\<rparr>)"
| "step_at strerror a (MalformedRecord deadline) c w =
     (let n = consecutive_malformed c + 1;
          c1 = c\<lparr>health := (health c)\<lparr>malformed_count := malformed_count (health c) + 1\<rparr>,
                 consecutive_malformed := n\<rparr>
      in (c1, if malformed_storm_threshold \<le> n then end_session SR_MalformedStorm [] w
              else w\<lparr>pc_at := LoopHead deadline\<rparr>))"
| "step_at strerror a (ValidRecord rec) c w =
     (let received_at = a_now a; w1 = w\<lparr>valid_seen := True\<rparr>
      in (c\<lparr>consecutive_malformed := 0\<rparr>,
          case checked_deadline received_at (receive_timeout (cl_config c)) of
            Inl e \<Rightarrow> w1\<lparr>pc_at := RunFailed e\<rparr>
          | Inr deadline \<Rightarrow> w1\<lparr>pc_at := ObservingRecord rec received_at deadline\<rparr>))"
| "step_at strerror a (ObservingRecord rec received_at deadline) c w =
     (case observe_record rec received_at c of
        (c1, Inl e) \<Rightarrow> (c1, w\<lparr>pc_at := RunFailed e\<rparr>)
      | (c1, Inr (deliver, outcome, cfg)) \<Rightarrow>
          (c1, if \<not> deliver then after_record outcome deadline w
               else let s = make_sample rec received_at cfg
               in if \<not> sample_finite s then end_session SR_SensorConfiguration [] w
                  else if has_callback c1 then w\<lparr>pc_at := InCallback s outcome deadline\<rparr>
                  else w\<lparr>pc_at := Delivering s outcome deadline\<rparr>))"
| "step_at strerror a (InCallback s outcome deadline) c w =
     (c, if a_callback a = Returned then w\<lparr>pc_at := Delivering s outcome deadline\<rparr>
         else w\<lparr>pc_at := CallbackFailed (callback_message (a_callback a)) outcome deadline\<rparr>)"
| "step_at strerror a (CallbackFailed m outcome deadline) c w =
     (record_callback_error m c,
      after_record (callback_failure_outcome (recovery_policy (cl_config c)) outcome) deadline w)"
| "step_at strerror a (Delivering s outcome deadline) c w =
     (deliver_sample s c, after_record outcome deadline w)"
| "step_at strerror a (ClosingSession oc) c w =
     (close_session strerror (a_sent a) c, w\<lparr>pc_at := Judging oc\<rparr>)"
| "step_at strerror a (Judging oc) c w =
     (let message = (if so_message oc = [] then message_for (so_result oc) else so_message oc)
      in if so_result oc \<noteq> SR_Stopped \<and> recovery_policy (cl_config c) = FailStop
         then (set_fault (fault_for (so_result oc)) message c, w\<lparr>pc_at := FinishClosing\<rparr>)
         else if so_result oc = SR_Stopped \<or> stopping c then (c, w\<lparr>pc_at := FinishClosing\<rparr>)
         else (c, (if received_valid_record oc
                   then w\<lparr>backoff := reconnect_initial_delay (cl_config c)\<rparr> else w)
                  \<lparr>pc_at := EnteringBackoff message\<rparr>))"
| "step_at strerror a (EnteringBackoff m) c w =
     (c\<lparr>health := (health c)\<lparr>last_error := m, h_state := CS_Backoff,
                             reconnect_count := reconnect_count (health c) + 1\<rparr>\<rparr>,
      w\<lparr>pc_at := ArmingBackoff\<rparr>)"
| "step_at strerror a ArmingBackoff c w =
     (c, case checked_deadline (a_now a) (backoff w) of
           Inl e \<Rightarrow> w\<lparr>pc_at := RunFailed e\<rparr>
         | Inr until \<Rightarrow> w\<lparr>pc_at := BackingOff until\<rparr>)"
| "step_at strerror a (BackingOff until) c w =
     (c, if stopping c \<or> a_now a \<ge> until
         then w\<lparr>pc_at := RunHead, backoff := next_backoff (cl_config c) (backoff w)\<rparr> else w)"
| "step_at strerror a (RunFailed e) c w =
     (if stopping c then c else set_fault FC_Socket (what e) c, w\<lparr>pc_at := FinishClosing\<rparr>)"
| "step_at strerror a FinishClosing c w =
     (close_session strerror (a_sent a) c, w\<lparr>pc_at := FinishExiting\<rparr>)"
| "step_at strerror a FinishExiting c w = (c\<lparr>worker_exited := True\<rparr>, w\<lparr>pc_at := FinishState\<rparr>)"
| "step_at strerror a FinishState c w =
     (if faulted c then c else c\<lparr>health := (health c)\<lparr>h_state := CS_Stopped\<rparr>\<rparr>, w\<lparr>pc_at := Exited\<rparr>)"
| "step_at strerror a Exited c w = (c, w)"

definition worker_step :: "(int \<Rightarrow> string) \<Rightarrow> answer \<Rightarrow> client \<times> worker \<Rightarrow> client \<times> worker" where
  "worker_step strerror a s = step_at strerror a (pc_at (snd s)) (fst s) (snd s)"

fun run_worker :: "(int \<Rightarrow> string) \<Rightarrow> answer list \<Rightarrow> client \<times> worker \<Rightarrow> client \<times> worker" where
  "run_worker strerror [] s = s"
| "run_worker strerror (a # as) s = run_worker strerror as (worker_step strerror a s)"

section \<open>Stopping ends the worker\<close>

text \<open>How many steps are left when the client is stopping and every blocking call returns.\<close>

fun stop_rank :: "pc \<Rightarrow> nat" where
  "stop_rank Exited = 0"
| "stop_rank FinishState = 1"
| "stop_rank FinishExiting = 2"
| "stop_rank FinishClosing = 3"
| "stop_rank RunHead = 4"
| "stop_rank (RunFailed e) = 4"
| "stop_rank (Judging oc) = 4"
| "stop_rank (ClosingSession oc) = 5"
| "stop_rank (BackingOff t) = 5"
| "stop_rank ArmingBackoff = 6"
| "stop_rank (EnteringBackoff m) = 7"
| "stop_rank SessionStopCheck = 6"
| "stop_rank SessionEnter = 7"
| "stop_rank ConfiguredCheck = 6"
| "stop_rank Discovering = 7"
| "stop_rank SendingStart = 6"
| "stop_rank Connecting = 7"
| "stop_rank ArmDeadline = 7"
| "stop_rank ResettingTrackers = 8"
| "stop_rank (LoopHead d) = 6"
| "stop_rank TimedOut = 6"
| "stop_rank (ReceiveFailed m) = 6"
| "stop_rank (Received d bs) = 7"
| "stop_rank (ReceiveEnd d r) = 8"
| "stop_rank (ReceiveWait d t) = 9"
| "stop_rank (ReceiveBegin d t) = 10"
| "stop_rank (LoopClock d) = 11"
| "stop_rank (MalformedRecord d) = 7"
| "stop_rank (CallbackFailed m out d) = 7"
| "stop_rank (Delivering s out d) = 7"
| "stop_rank (InCallback s out d) = 8"
| "stop_rank (ObservingRecord rec r d) = 9"
| "stop_rank (ValidRecord rec) = 10"

lemma stop_rank_le: "stop_rank p \<le> 11"
  by (cases p) simp_all

text \<open>An answer in which the wait for a datagram ends.\<close>

definition wait_ends :: "answer \<Rightarrow> bool" where
  "wait_ends a \<longleftrightarrow> list_ex (\<lambda>x. \<not> (case x of Interrupted n \<Rightarrow> True | _ \<Rightarrow> False)) (a_polls a)"

lemma poll_loop_ends:
  "list_ex (\<lambda>x. \<not> (case x of Interrupted n \<Rightarrow> True | _ \<Rightarrow> False)) answers \<Longrightarrow>
     fst (poll_loop strerror deadline remaining answers) \<noteq> None"
  by (induction strerror deadline remaining answers rule: poll_loop.induct)
    (auto simp: case_prod_unfold Let_def)

lemma receive_wait_ends: "wait_ends a \<Longrightarrow> receive_wait strerror now timeout (a_polls a) \<noteq> None"
  using poll_loop_ends [of "a_polls a" strerror _ timeout]
  by (auto simp: receive_wait_def wait_ends_def split: sum.split)

lemma pc_end_session [simp]:
  "pc_at (end_session r m w) = ClosingSession \<lparr>so_result = r, so_message = m, received_valid_record = valid_seen w\<rparr>"
  "backoff (end_session r m w) = backoff w"
  by (simp_all add: end_session_def)

lemma stop_rank_after_record [simp]:
  "stop_rank (pc_at (after_record out d w)) < 7" "stop_rank (pc_at (after_record out d w)) < 9"
  by (simp_all add: after_record_def split: option.split)

lemma set_fault_keeps [simp]:
  "stopping (set_fault f m c) = stopping c" "sent_commands (set_fault f m c) = sent_commands c"
  "worker_exited (set_fault f m c) = worker_exited c" "transport (set_fault f m c) = transport c"
  "cl_config (set_fault f m c) = cl_config c" "session_started (set_fault f m c) = session_started c"
  by (simp_all add: set_fault_def case_prod_unfold Let_def)

lemma apply_configuration_keeps [simp]:
  "stopping (apply_configuration cfg c) = stopping c"
  "sent_commands (apply_configuration cfg c) = sent_commands c"
  "worker_exited (apply_configuration cfg c) = worker_exited c"
  "transport (apply_configuration cfg c) = transport c"
  "cl_config (apply_configuration cfg c) = cl_config c"
  "session_started (apply_configuration cfg c) = session_started c"
  "latch (apply_configuration cfg c) = latch c"
  by (simp_all add: apply_configuration_def Let_def split: option.split)

lemma deliver_sample_keeps [simp]:
  "stopping (deliver_sample s c) = stopping c" "sent_commands (deliver_sample s c) = sent_commands c"
  "worker_exited (deliver_sample s c) = worker_exited c" "transport (deliver_sample s c) = transport c"
  "cl_config (deliver_sample s c) = cl_config c" "session_started (deliver_sample s c) = session_started c"
  by (simp_all add: deliver_sample_def Let_def)

lemma record_callback_error_keeps [simp]:
  "stopping (record_callback_error m c) = stopping c" "sent_commands (record_callback_error m c) = sent_commands c"
  "worker_exited (record_callback_error m c) = worker_exited c" "transport (record_callback_error m c) = transport c"
  "cl_config (record_callback_error m c) = cl_config c" "session_started (record_callback_error m c) = session_started c"
  by (simp_all add: record_callback_error_def)

lemma observe_record_keeps_run [simp]:
  "stopping (fst (observe_record rec r c)) = stopping c"
  "sent_commands (fst (observe_record rec r c)) = sent_commands c"
  "worker_exited (fst (observe_record rec r c)) = worker_exited c"
  "transport (fst (observe_record rec r c)) = transport c"
  "cl_config (fst (observe_record rec r c)) = cl_config c"
  "session_started (fst (observe_record rec r c)) = session_started c"
  "latch (fst (observe_record rec r c)) = latch c"
  "has_callback (fst (observe_record rec r c)) = has_callback c"
  by (cases "sensor_configuration (health c)";
      simp add: observe_record_None observe_record_Some observed_client_def)+

lemma close_session_keeps [simp]:
  "stopping (close_session strerror a c) = stopping c"
  "worker_exited (close_session strerror a c) = worker_exited c"
  "cl_config (close_session strerror a c) = cl_config c"
  "latch (close_session strerror a c) = latch c"
  "health (close_session strerror a c) = health c"
  "session_started (close_session strerror a c) = False"
  "transport (close_session strerror a c) = \<lparr>tr_socket = None, shutdown_requested = True\<rparr>"
  by (simp_all add: close_session_def stop_streaming_def send_command_def Let_def transport_close_def)

text \<open>Whatever a step does, it leaves the stop request and the configuration alone.\<close>

lemma worker_step_keeps:
  "stopping (fst (worker_step strerror a s)) = stopping (fst s)
   \<and> cl_config (fst (worker_step strerror a s)) = cl_config (fst s)"
  by (cases "pc_at (snd s)")
    (auto simp: worker_step_def Let_def send_command_def case_prod_unfold
      split: sum.split exn.split option.split if_splits)

lemma stop_rank_less:
  assumes "stopping (fst s)" and "wait_ends a" and "pc_at (snd s) \<noteq> Exited"
  shows "stop_rank (pc_at (snd (worker_step strerror a s))) < stop_rank (pc_at (snd s))"
  using assms receive_wait_ends [OF assms(2)]
  by (cases "pc_at (snd s)")
    (auto simp: worker_step_def Let_def case_prod_unfold stopped_or_def le_less_trans
      split: sum.split exn.split option.split)

lemma stop_steps:
  assumes "stopping (fst s)" and "list_all wait_ends as"
  shows "stop_rank (pc_at (snd (run_worker strerror as s))) \<le> stop_rank (pc_at (snd s)) - length as"
  using assms
proof (induction as arbitrary: s)
  case (Cons a as)
  let ?s = "worker_step strerror a s"
  have "stop_rank (pc_at (snd (run_worker strerror as ?s))) \<le> stop_rank (pc_at (snd ?s)) - length as"
    using Cons worker_step_keeps [of strerror a s] by (intro Cons.IH) auto
  moreover have "stop_rank (pc_at (snd ?s)) \<le> stop_rank (pc_at (snd s)) - 1"
  proof (cases "pc_at (snd s) = Exited")
    case False
    with stop_rank_less [of s a strerror] Cons.prems show ?thesis by auto
  qed (simp add: worker_step_def)
  ultimately show ?case by simp
qed simp

lemma stop_rank_0: "stop_rank p = 0 \<longleftrightarrow> p = Exited"
  by (cases p) simp_all

lemma sent_close_session:
  "\<exists>k. sent_commands (close_session strerror a c) = sent_commands c @ replicate k StopStreaming"
  by (auto simp: close_session_def stop_streaming_def send_command_def Let_def intro: exI [of _ 0] exI [of _ 1])

lemma stopping_sends:
  assumes "stopping (fst s)"
  shows "\<exists>k. sent_commands (fst (worker_step strerror a s)) = sent_commands (fst s) @ replicate k StopStreaming"
proof -
  have same: "\<exists>k. xs = xs @ replicate k StopStreaming" for xs :: "command list" by (auto intro: exI [of _ 0])
  show ?thesis
    using assms same sent_close_session
    by (cases "pc_at (snd s)")
      (auto simp: worker_step_def Let_def case_prod_unfold split: sum.split exn.split)
qed

lemma stopping_run_sends:
  assumes "stopping (fst s)"
  shows "\<exists>k. sent_commands (fst (run_worker strerror as s)) = sent_commands (fst s) @ replicate k StopStreaming"
  using assms
proof (induction as arbitrary: s)
  case Nil
  show ?case by (auto intro: exI [of _ 0])
next
  case (Cons a as)
  obtain k where k: "sent_commands (fst (worker_step strerror a s)) = sent_commands (fst s) @ replicate k StopStreaming"
    using stopping_sends [OF Cons.prems] by blast
  obtain j where "sent_commands (fst (run_worker strerror as (worker_step strerror a s)))
      = sent_commands (fst (worker_step strerror a s)) @ replicate j StopStreaming"
    using Cons.IH [of "worker_step strerror a s"] Cons.prems worker_step_keeps [of strerror a s] by auto
  with k show ?case by (auto simp flip: replicate_add intro: exI [of _ "k + j"])
qed

text \<open>
  C10: stopping ends the worker. From any point of the worker, once the stop flag is up and
  every wait for a datagram returns, it exits within eleven steps, and from the flag on it
  sends the device nothing but stop requests.
\<close>

theorem stop_ends_worker:
  assumes "stopping (fst s)" and "list_all wait_ends as" and "11 \<le> length as"
  shows "pc_at (snd (run_worker strerror as s)) = Exited
    \<and> (\<exists>k. sent_commands (fst (run_worker strerror as s)) = sent_commands (fst s) @ replicate k StopStreaming)"
proof
  have "stop_rank (pc_at (snd (run_worker strerror as s))) = 0"
    using stop_steps [OF assms(1,2), of strerror] stop_rank_le [of "pc_at (snd s)"] assms(3) by linarith
  then show "pc_at (snd (run_worker strerror as s)) = Exited" by (simp only: stop_rank_0)
  show "\<exists>k. sent_commands (fst (run_worker strerror as s)) = sent_commands (fst s) @ replicate k StopStreaming"
    by (rule stopping_run_sends [OF assms(1)])
qed

definition quiet_answer :: answer where
  "quiet_answer = \<lparr>a_now = 8000000000, a_discovered = Inl (DiscoveryError ''none''), a_resolved = Inl ''none'',
     a_sent = Inr 8, a_polls = [Nothing], a_received = Recv_Interrupted, a_callback = Returned\<rparr>"

definition example_worker :: worker where
  "example_worker = \<lparr>pc_at = LoopClock 9000000000, backoff = Fin False (1/4), valid_seen = True\<rparr>"

theorem stop_ends_worker_witness:
  "pc_at (snd (run_worker (\<lambda>e. []) (replicate 11 quiet_answer)
     (example_client\<lparr>stopping := True\<rparr>, example_worker))) = Exited"
  using stop_ends_worker [of "(example_client\<lparr>stopping := True\<rparr>, example_worker)" "replicate 11 quiet_answer" "\<lambda>e. []"]
  by (simp add: quiet_answer_def wait_ends_def list_all_length)

section \<open>The end of the worker\<close>

text \<open>\<open>finish_session\<close> as a whole: the last three steps, when nothing else comes between them.\<close>

definition finish_session :: "(int \<Rightarrow> string) \<Rightarrow> os_count \<Rightarrow> client \<Rightarrow> client" where
  "finish_session strerror answer c =
     (let c1 = (close_session strerror answer c)\<lparr>worker_exited := True\<rparr>
      in if \<not> faulted c1 then c1\<lparr>health := (health c1)\<lparr>h_state := CS_Stopped\<rparr>\<rparr> else c1)"

lemma run_finish_session:
  assumes "pc_at w = FinishClosing"
  shows "run_worker strerror [a, a', a''] (c, w) = (finish_session strerror (a_sent a) c, w\<lparr>pc_at := Exited\<rparr>)"
  using assms by (simp add: worker_step_def finish_session_def Let_def)

section \<open>Malformed datagrams\<close>

text \<open>One round of the receive loop: from its head back to it, or to the end of the session.\<close>

definition malformed_answer :: "ticks \<Rightarrow> answer \<Rightarrow> bool" where
  "malformed_answer deadline a \<longleftrightarrow>
     a_now a < deadline \<and> a_polls a = [Events False]
     \<and> succeeds (checked_deadline (a_now a) (seconds_of (deadline - a_now a)))
     \<and> (\<exists>bytes. a_received a = Datagram bytes \<and> 0 < length bytes \<and> length bytes \<le> 65536 \<and> length bytes \<noteq> 36)"

definition count_malformed :: "client \<Rightarrow> client" where
  "count_malformed c =
     c\<lparr>health := (health c)\<lparr>malformed_count := malformed_count (health c) + 1\<rparr>,
       consecutive_malformed := consecutive_malformed c + 1\<rparr>"

definition listening :: "client \<Rightarrow> bool" where
  "listening c \<longleftrightarrow> \<not> stopping c \<and> tr_socket (transport c) \<noteq> None \<and> \<not> shutdown_requested (transport c)"

lemma malformed_round:
  assumes "malformed_answer deadline a" and "listening c" and "pc_at w = LoopHead deadline"
  shows "run_worker strerror (replicate 7 a) (c, w) =
    (count_malformed c,
     if malformed_storm_threshold \<le> consecutive_malformed c + 1
     then end_session SR_MalformedStorm [] w else w\<lparr>pc_at := LoopHead deadline\<rparr>)"
proof -
  from assms(1) obtain bytes where b: "a_received a = Datagram bytes" "bytes \<noteq> []" "length bytes \<le> 65536"
    "length bytes \<noteq> 36" by (auto simp: malformed_answer_def)
  obtain m where dec: "decode_record (Some bytes) (length bytes) = Inl (ProtocolError m)"
    using decode_record_Inl [OF b(4)] by blast
  obtain t where t: "checked_deadline (a_now a) (seconds_of (deadline - a_now a)) = Inr t"
    using assms(1) by (auto simp: malformed_answer_def succeeds_iff)
  have now: "a_now a < deadline" and polls: "a_polls a = [Events False]"
    using assms(1) by (auto simp: malformed_answer_def)
  obtain sk where sk: "tr_socket (transport c) = Some sk" "\<not> shutdown_requested (transport c)" "\<not> stopping c"
    using assms(2) by (auto simp: listening_def)
  let ?u = "seconds_of (deadline - a_now a)"
  let ?st = "\<lambda>p. (c, w\<lparr>pc_at := p\<rparr>)"
  have 1: "worker_step strerror a (c, w) = ?st (LoopClock deadline)"
    using assms(3) sk by (simp add: worker_step_def)
  have 2: "worker_step strerror a (?st (LoopClock deadline)) = ?st (ReceiveBegin deadline ?u)"
    using now by (simp add: worker_step_def)
  have 3: "worker_step strerror a (?st (ReceiveBegin deadline ?u)) = ?st (ReceiveWait deadline ?u)"
    using sk by (simp add: worker_step_def receive_begin_def)
  have 4: "worker_step strerror a (?st (ReceiveWait deadline ?u)) = ?st (ReceiveEnd deadline (Inr (Ready False)))"
    by (simp add: worker_step_def receive_wait_def t polls)
  have 5: "worker_step strerror a (?st (ReceiveEnd deadline (Inr (Ready False)))) = ?st (Received deadline bytes)"
    using sk b by (simp add: worker_step_def receive_end_def)
  have 6: "worker_step strerror a (?st (Received deadline bytes)) = ?st (MalformedRecord deadline)"
    using sk b dec by (simp add: worker_step_def)
  have 7: "worker_step strerror a (?st (MalformedRecord deadline)) =
    (count_malformed c,
     if malformed_storm_threshold \<le> consecutive_malformed c + 1
     then end_session SR_MalformedStorm [] w else w\<lparr>pc_at := LoopHead deadline\<rparr>)"
    by (simp add: worker_step_def count_malformed_def Let_def end_session_def)
  have "replicate 7 a = [a, a, a, a, a, a, a]" by (simp add: eval_nat_numeral)
  then show ?thesis by (simp only: run_worker.simps 1 2 3 4 5 6 7)
qed

lemma run_worker_append: "run_worker strerror (as @ bs) s = run_worker strerror bs (run_worker strerror as s)"
  by (induction as arbitrary: s) simp_all

definition rounds :: "answer list \<Rightarrow> answer list" where
  "rounds as = concat (map (replicate 7) as)"

lemma malformed_rounds:
  assumes "list_all (malformed_answer deadline) as" and "listening c"
    and "unat (consecutive_malformed c) + length as < 10"
  shows "run_worker strerror (rounds as) (c, w\<lparr>pc_at := LoopHead deadline\<rparr>)
       = ((count_malformed ^^ length as) c, w\<lparr>pc_at := LoopHead deadline\<rparr>)"
  using assms
proof (induction as arbitrary: c)
  case (Cons a as)
  have n: "unat (consecutive_malformed c + 1) = unat (consecutive_malformed c) + 1"
    using Cons.prems(3) by (subst unat_add_lem [THEN iffD1]) simp_all
  then have below: "\<not> malformed_storm_threshold \<le> consecutive_malformed c + 1"
    using Cons.prems(3) by (simp add: malformed_storm_threshold_def word_le_nat_alt)
  have "run_worker strerror (replicate 7 a) (c, w\<lparr>pc_at := LoopHead deadline\<rparr>)
      = (count_malformed c, w\<lparr>pc_at := LoopHead deadline\<rparr>)"
    using malformed_round [of deadline a c "w\<lparr>pc_at := LoopHead deadline\<rparr>" strerror] Cons.prems below by simp
  moreover have "run_worker strerror (rounds as) (count_malformed c, w\<lparr>pc_at := LoopHead deadline\<rparr>)
      = ((count_malformed ^^ length as) (count_malformed c), w\<lparr>pc_at := LoopHead deadline\<rparr>)"
    using Cons.prems n by (intro Cons.IH) (simp_all add: listening_def count_malformed_def)
  ultimately show ?case by (simp add: rounds_def run_worker_append funpow_swap1)
qed (simp add: rounds_def)

lemma count_malformed_power:
  "consecutive_malformed ((count_malformed ^^ n) c) = consecutive_malformed c + of_nat n
   \<and> malformed_count (health ((count_malformed ^^ n) c)) = malformed_count (health c) + of_nat n
   \<and> listening ((count_malformed ^^ n) c) = listening c"
  by (induction n) (simp_all add: count_malformed_def listening_def)

text \<open>
  C12: the malformed storm. In a session that listens with no malformed datagram pending, any
  nine malformed datagrams in a row only count up and leave the receive deadline as it
  was; the tenth ends the session as a malformed storm.
\<close>

theorem malformed_storm_at_ten:
  assumes "list_all (malformed_answer deadline) as" and "malformed_answer deadline a"
    and "length as = 9" and "listening c" and "consecutive_malformed c = 0"
  shows "pc_at (snd (run_worker strerror (rounds as) (c, w\<lparr>pc_at := LoopHead deadline\<rparr>))) = LoopHead deadline
    \<and> (\<exists>c'. run_worker strerror (rounds (as @ [a])) (c, w\<lparr>pc_at := LoopHead deadline\<rparr>)
            = (c', end_session SR_MalformedStorm [] w)
          \<and> malformed_count (health c') = malformed_count (health c) + 10
          \<and> health c'\<lparr>malformed_count := 0\<rparr> = health c\<lparr>malformed_count := 0\<rparr>)"
proof
  let ?w = "w\<lparr>pc_at := LoopHead deadline\<rparr>"
  let ?c = "(count_malformed ^^ 9) c"
  have nine: "run_worker strerror (rounds as) (c, ?w) = (?c, ?w)"
    using malformed_rounds [OF assms(1,4), of strerror w] assms(3,5) by simp
  then show "pc_at (snd (run_worker strerror (rounds as) (c, ?w))) = LoopHead deadline" by simp
  have p: "consecutive_malformed ?c = 9" "malformed_count (health ?c) = malformed_count (health c) + 9" "listening ?c"
    using count_malformed_power [of 9 c] assms(4,5) by simp_all
  have other: "health ((count_malformed ^^ n) c)\<lparr>malformed_count := 0\<rparr> = health c\<lparr>malformed_count := 0\<rparr>" for n
    by (induction n) (simp_all add: count_malformed_def)
  have "run_worker strerror (replicate 7 a) (?c, ?w) = (count_malformed ?c, end_session SR_MalformedStorm [] ?w)"
    using malformed_round [OF assms(2) p(3), of ?w strerror] p(1) by (simp add: malformed_storm_threshold_def)
  moreover have "rounds (as @ [a]) = rounds as @ replicate 7 a" by (simp add: rounds_def)
  ultimately have "run_worker strerror (rounds (as @ [a])) (c, ?w)
      = (count_malformed ?c, end_session SR_MalformedStorm [] w)"
    by (simp add: run_worker_append nine end_session_def)
  moreover have "malformed_count (health (count_malformed ?c)) = malformed_count (health c) + 10"
    using p(2) by (simp add: count_malformed_def)
  moreover have "health (count_malformed ?c)\<lparr>malformed_count := 0\<rparr> = health c\<lparr>malformed_count := 0\<rparr>"
    using other [of 9] by (simp add: count_malformed_def)
  ultimately show "\<exists>c'. run_worker strerror (rounds (as @ [a])) (c, ?w) = (c', end_session SR_MalformedStorm [] w)
          \<and> malformed_count (health c') = malformed_count (health c) + 10
          \<and> health c'\<lparr>malformed_count := 0\<rparr> = health c\<lparr>malformed_count := 0\<rparr>"
    by blast
qed

section \<open>Backoff\<close>

lemma fround_double:
  assumes "representable binary64 (Fin False q)" and "2 powi -900 \<le> q"
  shows "fround binary64 False (q * 2) = (if 2 powi 1024 \<le> q * 2 then Inf False else Fin False (q * 2))"
proof -
  have pos: "0 < q" by (rule less_le_trans [OF _ assms(2)]) simp
  have l: "-900 \<le> ilog2 q" using ilog2_mono [OF _ assms(2)] ilog2_unique [of "-900" "2 powi -900"] by simp
  then have "round_mag binary64 (q * 2 powi 1) = round_mag binary64 q * 2 powi 1"
    using pos by (intro b64.round_mag_scale) (simp_all add: binary64_def)
  then have "round_mag binary64 (q * 2) = q * 2"
    using assms(1) by (simp add: representable_def)
  then show ?thesis by (simp add: fround_def Let_def binary64_def)
qed

lemma next_backoff_min:
  assumes "representable binary64 (Fin False q)" and "2 powi -900 \<le> q"
    and "reconnect_max_delay cfg = Fin False m" and "representable binary64 (Fin False m)" and "q \<le> m"
  shows "next_backoff cfg (Fin False q) = Fin False (min (2 * q) m)
    \<and> representable binary64 (Fin False (min (2 * q) m))"
proof -
  have pos: "0 < q" by (rule less_le_trans [OF _ assms(2)]) simp
  have m: "m < 2 powi 1024" using assms(4) by (simp add: representable_def binary64_def)
  show ?thesis
  proof (cases "2 powi 1024 \<le> q * 2")
    case True
    then have "min (2 * q) m = m" using m by (simp add: min_def)
    then show ?thesis using True fround_double [OF assms(1,2)] pos assms(3,4)
      by (simp add: next_backoff_def fmin_def)
  next
    case False
    then have "fmul binary64 (Fin False q) (Fin False 2) = Fin False (2 * q)"
      using fround_double [OF assms(1,2)] pos by (simp add: mult.commute)
    moreover have "representable binary64 (Fin False (2 * q))"
      using b64.fround_representable [of "q * 2" False] fround_double [OF assms(1,2)] False pos
      by (simp add: mult.commute)
    ultimately show ?thesis using pos assms(3-5)
      by (auto simp: next_backoff_def fmin_def min_def)
  qed
qed

text \<open>
  C21: the reconnect schedule is exact exponential backoff. The delay after \<open>k\<close> doublings is
  the initial delay times \<open>2^k\<close>, capped at the maximum delay: no rounding, no overflow.
\<close>

theorem backoff_schedule:
  assumes "reconnect_initial_delay cfg = Fin False i" and "reconnect_max_delay cfg = Fin False m"
    and "representable binary64 (Fin False i)" and "representable binary64 (Fin False m)"
    and "2 powi -900 \<le> i" and "i \<le> m"
  shows "(next_backoff cfg ^^ k) (reconnect_initial_delay cfg) = Fin False (min (2 ^ k * i) m)"
proof -
  have pos: "0 < i" by (rule less_le_trans [OF _ assms(5)]) simp
  have "(next_backoff cfg ^^ k) (Fin False i) = Fin False (min (2 ^ k * i) m)
      \<and> representable binary64 (Fin False (min (2 ^ k * i) m)) \<and> i \<le> min (2 ^ k * i) m"
  proof (induction k)
    case 0
    then show ?case using assms by (simp add: min_def)
  next
    case (Suc k)
    define q where "q = min (2 ^ k * i) m"
    have q: "representable binary64 (Fin False q)" "i \<le> q" "q \<le> m" "(next_backoff cfg ^^ k) (Fin False i) = Fin False q"
      using Suc by (simp_all add: q_def)
    have "2 powi -900 \<le> q" using assms(5) q(2) by (rule order.trans)
    with next_backoff_min [OF q(1) _ assms(2,4) q(3)]
    have n: "next_backoff cfg (Fin False q) = Fin False (min (2 * q) m)
      \<and> representable binary64 (Fin False (min (2 * q) m))" by simp
    have "min (2 * q) m = min (2 ^ Suc k * i) m"
      using pos assms(6) by (auto simp: q_def min_def)
    moreover have "i \<le> min (2 * q) m" using q(2) pos assms(6) by simp
    ultimately show ?case using n q(4) by simp
  qed
  then show ?thesis by (simp add: assms(1))
qed

lemma representable_example: "representable binary64 (Fin False (1/4))" "representable binary64 (Fin False 5)"
  using b64.round_mag_exact [of 1 "-2"] b64.round_mag_exact [of 5 0]
    powi2_less_iff [of 3 1024]
  by (simp_all add: representable_def binary64_def power_int_minus del: powi2_less_iff)

theorem backoff_schedule_witness:
  "(next_backoff default_config ^^ 3) (reconnect_initial_delay default_config) = Fin False 2
   \<and> (next_backoff default_config ^^ 7) (reconnect_initial_delay default_config) = Fin False 5"
  using backoff_schedule [of default_config "1/4" 5 3] backoff_schedule [of default_config "1/4" 5 7] representable_example
  by (simp add: default_config_def power_int_minus)

definition malformed_example :: answer where
  "malformed_example = quiet_answer\<lparr>a_polls := [Events False], a_received := Datagram [1, 2, 3]\<rparr>"

lemma example_deadline: "checked_deadline 8000000000 (seconds_of 1000000000) = Inr 9000000000"
proof -
  have s: "seconds_of 1000000000 = Fin False 1"
    using fof_int_exact [of 1000000000] fof_int_exact [of 1] by (simp add: seconds_of_def fof_int_def)
  show ?thesis
    using fround_x87_int [of 1000000000 False]
    by (simp add: s checked_deadline_def checked_duration_def fone_def fzero_def ticks_max_def Let_def)
qed

lemma example_malformed: "malformed_answer 9000000000 malformed_example"
  by (simp add: malformed_answer_def malformed_example_def quiet_answer_def example_deadline)

theorem malformed_storm_at_ten_witness:
  "\<exists>c'. run_worker (\<lambda>e. []) (rounds (replicate 9 malformed_example @ [malformed_example]))
     (example_client, example_worker\<lparr>pc_at := LoopHead 9000000000\<rparr>)
     = (c', end_session SR_MalformedStorm [] example_worker)"
  using malformed_storm_at_ten [of 9000000000 "replicate 9 malformed_example" malformed_example example_client
      "\<lambda>e. []" example_worker] example_malformed
  by (auto simp: list_all_length listening_def example_client_def)

end
