(* ===== verification/Client_Lifecycle.thy ===== *)
theory Client_Lifecycle
  imports Client_Worker
begin

text \<open>
  The public operations of the client and their interleaving with the worker:
  \<open>start\<close>, \<open>stop\<close>, \<open>bias\<close>, \<open>wait_for_first_sample\<close>, \<open>health\<close> and \<open>latest_sample\<close> of
  \<open>src/core/src/detail/client_impl.cpp\<close>. The lifecycle mutex is held across the sections of
  \<open>stop\<close>, so a lock state records how far the one \<open>stop\<close> inside it has come; joining a
  thread releases it. Waiting on a condition and trying again is a step not yet taken. What
  \<open>start\<close> does after its checks runs with the lifecycle mutex held and no worker alive; it
  is one function for a thread that starts and one for a thread that does not.
\<close>

section \<open>Stopping\<close>

definition from_worker_thread :: "bool \<Rightarrow> client \<Rightarrow> bool" where
  "from_worker_thread self c \<longleftrightarrow> \<not> worker_exited c \<and> worker_active c \<and> self"

definition stop_request :: "client \<Rightarrow> client" where
  "stop_request c = c\<lparr>stopping := True\<rparr>"

definition stop_command :: "(int \<Rightarrow> string) \<Rightarrow> os_count \<Rightarrow> client \<Rightarrow> client" where
  "stop_command strerror answer c =
     (let c1 = stop_streaming strerror answer c
      in c1\<lparr>transport := transport_shutdown (transport c1)\<rparr>)"

definition mark_stopped :: "client \<Rightarrow> client" where
  "mark_stopped c = (if faulted c then c else c\<lparr>health := (health c)\<lparr>h_state := CS_Stopped\<rparr>\<rparr>)"

datatype stop_end = Stop_Returns | Stop_Waits | Stop_Joins

definition stop_decide :: "bool \<Rightarrow> client \<Rightarrow> client \<times> stop_end" where
  "stop_decide self c =
     (if from_worker_thread self c then (c, Stop_Returns)
      else if joining c then (c, Stop_Waits)
      else if \<not> worker_joinable c then (mark_stopped c, Stop_Returns)
      else (c\<lparr>joining := True, worker_joinable := False\<rparr>, Stop_Joins))"

definition stop_joined :: "client \<Rightarrow> client" where
  "stop_joined c = (mark_stopped c)\<lparr>worker_active := False, joining := False\<rparr>"

section \<open>Starting\<close>

datatype start_end = Start_Refused exn | Start_Waits | Start_Reaps | Start_Proceeds

definition start_check :: "bool \<Rightarrow> client \<Rightarrow> client \<times> start_end" where
  "start_check self c =
     (let running = LogicError ''client is already running''
      in if from_worker_thread self c then (c, Start_Refused running)
         else if joining c then (c, Start_Waits)
         else if worker_joinable c
         then (if \<not> worker_exited c
               then (if \<not> faulted c then (c, Start_Refused running) else (c, Start_Waits))
               else (c\<lparr>joining := True, worker_joinable := False\<rparr>, Start_Reaps))
         else (c, Start_Proceeds))"

definition start_reaped :: "client \<Rightarrow> client" where
  "start_reaped c = c\<lparr>worker_active := False, joining := False\<rparr>"

definition start_reset :: "bool \<Rightarrow> client \<Rightarrow> client" where
  "start_reset callback c =
     c\<lparr>last_delivery_at := 0,
       latch := fst (latch_reset (latch c, health c)),
       health := (health c)\<lparr>h_state := CS_Connecting, h_fault_code := FC_None, last_error := [],
                            receive_rate_hz := fzero, delivery_rate_hz := fzero\<rparr>,
       latest := None, last_record_at := 0, generation := generation c + 1,
       delivered_generation := 0, receive_times := [], delivery_times := [],
       consecutive_malformed := 0, stopping := False, worker_exited := False,
       has_callback := callback\<rparr>"

definition start_committed :: "client \<Rightarrow> client" where
  "start_committed c = c\<lparr>worker_joinable := True, worker_active := True\<rparr>"

text \<open>The handler for a thread that could not be created; the latch is published again.\<close>

definition start_rollback :: "client \<Rightarrow> client \<Rightarrow> client" where
  "start_rollback previous c =
     (let c1 = c\<lparr>stopping := stopping previous, worker_exited := worker_exited previous,
                 has_callback := has_callback previous,
                 last_delivery_at := last_delivery_at previous, health := health previous,
                 latest := latest previous, last_record_at := last_record_at previous,
                 generation := generation previous,
                 delivered_generation := delivered_generation previous,
                 receive_times := receive_times previous, delivery_times := delivery_times previous,
                 consecutive_malformed := consecutive_malformed previous,
                 latch := fst (latch_reset (latch c, health previous))\<rparr>
      in if latch previous \<noteq> FC_None
         then set_fault (latch previous) (last_error (health previous)) c1 else c1)"

section \<open>Biasing\<close>

definition bias ::
  "(int \<Rightarrow> string) \<Rightarrow> os_count \<Rightarrow> os_count \<Rightarrow> client \<Rightarrow> client \<times> unit result" where
  "bias strerror answer1 answer2 c =
     (if stopping c \<or> \<not> session_started c \<or> faulted c \<or> h_state (health c) \<noteq> CS_Streaming
      then (c, Inl (NotConnectedError ''client is not streaming''))
      else case send_command strerror answer1 SetSoftwareBias c of
             (c1, Inl e) \<Rightarrow> (c1, Inl e)
           | (c1, Inr u) \<Rightarrow>
               (case send_command strerror answer2 StartRealtime c1 of
                  (c2, Inl e) \<Rightarrow> (c2, Inl e)
                | (c2, Inr u) \<Rightarrow> (c2\<lparr>rdt_sequence := rdt_reset (rdt_sequence c2)\<rparr>, Inr ())))"

section \<open>Queries\<close>

text \<open>
  \<open>wait_for_first_sample\<close>: the deadline and the captured generation, \<open>None\<close> for a client
  that was never started; the condition that ends the wait; the answer.
\<close>

definition wait_begin :: "ticks \<Rightarrow> fp \<Rightarrow> client \<Rightarrow> (ticks \<times> u64) option result" where
  "wait_begin now timeout c =
     and_then (checked_deadline now timeout) (\<lambda>deadline.
       Inr (if generation c = 0 then None else Some (deadline, generation c)))"

definition wait_over :: "u64 \<Rightarrow> client \<Rightarrow> bool" where
  "wait_over captured c \<longleftrightarrow>
     generation c \<noteq> captured \<or> delivered_generation c = captured \<or> stopping c \<or> faulted c"

definition wait_answer :: "u64 \<Rightarrow> client \<Rightarrow> bool" where
  "wait_answer captured c \<longleftrightarrow>
     \<not> generation c \<noteq> captured \<and> delivered_generation c = captured"

definition take_health :: "ticks \<Rightarrow> client \<Rightarrow> client \<times> health_snapshot" where
  "take_health now c =
     (let received = prune_rate_window (receive_times c) now;
          delivered = prune_rate_window (delivery_times c) now;
          h = (health c)\<lparr>h_fault_code := latch c\<rparr>;
          h1 = (if h_fault_code h \<noteq> FC_None then h\<lparr>h_state := CS_Faulted\<rparr> else h);
          h2 = h1\<lparr>receive_rate_hz := rate_of received, delivery_rate_hz := rate_of delivered\<rparr>;
          h3 = (if last_record_at c \<noteq> 0
                then h2\<lparr>last_record_age := Some (seconds_of (now - last_record_at c))\<rparr> else h2)
      in (c\<lparr>receive_times := received, delivery_times := delivered\<rparr>, h3))"

section \<open>The system\<close>

datatype lifecycle_lock = Unlocked | StopRequested bool | StopCommanded bool

record sys =
  s_client :: client
  s_worker :: worker
  s_lock :: lifecycle_lock
  s_stop_joins :: bool

definition worker_alive :: "client \<Rightarrow> bool" where
  "worker_alive c \<longleftrightarrow> worker_joinable c \<or> joining c"

text \<open>Whether the caller may be the worker itself, that is, its callback.\<close>

definition may_be_worker :: "bool \<Rightarrow> worker \<Rightarrow> bool" where
  "may_be_worker self w \<longleftrightarrow> (self \<longrightarrow> (\<exists>s out d. pc_at w = InCallback s out d))"

text \<open>The steps of the threads that call the public operations.\<close>

inductive api_step :: "(int \<Rightarrow> string) \<Rightarrow> sys \<Rightarrow> sys \<Rightarrow> bool" for strerror where
  api_stop_request: "s_lock s = Unlocked \<Longrightarrow> may_be_worker self (s_worker s) \<Longrightarrow>
     api_step strerror s (s\<lparr>s_client := stop_request (s_client s), s_lock := StopRequested self\<rparr>)"
| api_stop_command: "s_lock s = StopRequested self \<Longrightarrow>
     api_step strerror s (s\<lparr>s_client := stop_command strerror answer (s_client s), s_lock := StopCommanded self\<rparr>)"
| api_stop_decide: "s_lock s = StopCommanded self \<Longrightarrow> stop_decide self (s_client s) = (c', r) \<Longrightarrow>
     api_step strerror s (s\<lparr>s_client := c', s_lock := Unlocked,
       s_stop_joins := (if r = Stop_Joins then True else s_stop_joins s)\<rparr>)"
| api_stop_joined: "s_lock s = Unlocked \<Longrightarrow> joining (s_client s) \<Longrightarrow> s_stop_joins s \<Longrightarrow>
     pc_at (s_worker s) = Exited \<Longrightarrow>
     api_step strerror s (s\<lparr>s_client := stop_joined (s_client s)\<rparr>)"
| api_start_check: "s_lock s = Unlocked \<Longrightarrow> may_be_worker self (s_worker s) \<Longrightarrow>
     start_check self (s_client s) = (c', r) \<Longrightarrow> r \<noteq> Start_Proceeds \<Longrightarrow>
     api_step strerror s (s\<lparr>s_client := c', s_stop_joins := (if r = Start_Reaps then False else s_stop_joins s)\<rparr>)"
| api_start_reaped: "s_lock s = Unlocked \<Longrightarrow> joining (s_client s) \<Longrightarrow> \<not> s_stop_joins s \<Longrightarrow>
     pc_at (s_worker s) = Exited \<Longrightarrow>
     api_step strerror s (s\<lparr>s_client := start_reaped (s_client s)\<rparr>)"
| api_start: "s_lock s = Unlocked \<Longrightarrow> start_check self (s_client s) = (c', Start_Proceeds) \<Longrightarrow>
     api_step strerror s (s\<lparr>s_client := start_committed (start_reset callback c'),
       s_worker := worker_start c'\<rparr>)"
| api_start_failed: "s_lock s = Unlocked \<Longrightarrow> start_check self (s_client s) = (c', Start_Proceeds) \<Longrightarrow>
     api_step strerror s (s\<lparr>s_client := start_rollback c' (start_reset callback c')\<rparr>)"
| api_bias: "bias strerror answer1 answer2 (s_client s) = (c', r) \<Longrightarrow>
     api_step strerror s (s\<lparr>s_client := c'\<rparr>)"
| api_health: "take_health now (s_client s) = (c', h) \<Longrightarrow> api_step strerror s (s\<lparr>s_client := c'\<rparr>)"

inductive sys_step :: "(int \<Rightarrow> string) \<Rightarrow> sys \<Rightarrow> sys \<Rightarrow> bool" for strerror where
  step_worker: "worker_alive (s_client s) \<Longrightarrow> worker_step strerror a (s_client s, s_worker s) = (c', w') \<Longrightarrow>
     sys_step strerror s (s\<lparr>s_client := c', s_worker := w'\<rparr>)"
| step_api: "api_step strerror s s' \<Longrightarrow> sys_step strerror s s'"

lemmas step_stop_request = api_stop_request [THEN step_api]
lemmas step_stop_command = api_stop_command [THEN step_api]
lemmas step_stop_decide = api_stop_decide [THEN step_api]
lemmas step_stop_joined = api_stop_joined [THEN step_api]
lemmas step_start_check = api_start_check [THEN step_api]
lemmas step_start_reaped = api_start_reaped [THEN step_api]
lemmas step_start = api_start [THEN step_api]
lemmas step_start_failed = api_start_failed [THEN step_api]
lemmas step_bias = api_bias [THEN step_api]
lemmas step_health = api_health [THEN step_api]

lemma sys_step_induct [consumes 1, case_names step_worker step_stop_request step_stop_command step_stop_decide step_stop_joined step_start_check step_start_reaped step_start step_start_failed step_bias step_health]:
  assumes "sys_step strerror s s'"
    and "\<And>s a c' w'. worker_alive (s_client s) \<Longrightarrow> worker_step strerror a (s_client s, s_worker s) = (c', w') \<Longrightarrow> P s (s\<lparr>s_client := c', s_worker := w'\<rparr>)"
    and "\<And>s self. s_lock s = Unlocked \<Longrightarrow> may_be_worker self (s_worker s) \<Longrightarrow> P s (s\<lparr>s_client := stop_request (s_client s), s_lock := StopRequested self\<rparr>)"
    and "\<And>s self answer. s_lock s = StopRequested self \<Longrightarrow> P s (s\<lparr>s_client := stop_command strerror answer (s_client s), s_lock := StopCommanded self\<rparr>)"
    and "\<And>s self c' r. s_lock s = StopCommanded self \<Longrightarrow> stop_decide self (s_client s) = (c', r) \<Longrightarrow> P s (s\<lparr>s_client := c', s_lock := Unlocked,
       s_stop_joins := (if r = Stop_Joins then True else s_stop_joins s)\<rparr>)"
    and "\<And>s. s_lock s = Unlocked \<Longrightarrow> joining (s_client s) \<Longrightarrow> s_stop_joins s \<Longrightarrow>
     pc_at (s_worker s) = Exited \<Longrightarrow> P s (s\<lparr>s_client := stop_joined (s_client s)\<rparr>)"
    and "\<And>s self c' r. s_lock s = Unlocked \<Longrightarrow> may_be_worker self (s_worker s) \<Longrightarrow>
     start_check self (s_client s) = (c', r) \<Longrightarrow> r \<noteq> Start_Proceeds \<Longrightarrow> P s (s\<lparr>s_client := c', s_stop_joins := (if r = Start_Reaps then False else s_stop_joins s)\<rparr>)"
    and "\<And>s. s_lock s = Unlocked \<Longrightarrow> joining (s_client s) \<Longrightarrow> \<not> s_stop_joins s \<Longrightarrow>
     pc_at (s_worker s) = Exited \<Longrightarrow> P s (s\<lparr>s_client := start_reaped (s_client s)\<rparr>)"
    and "\<And>s self c' callback. s_lock s = Unlocked \<Longrightarrow> start_check self (s_client s) = (c', Start_Proceeds) \<Longrightarrow> P s (s\<lparr>s_client := start_committed (start_reset callback c'),
       s_worker := worker_start c'\<rparr>)"
    and "\<And>s self c' callback. s_lock s = Unlocked \<Longrightarrow> start_check self (s_client s) = (c', Start_Proceeds) \<Longrightarrow> P s (s\<lparr>s_client := start_rollback c' (start_reset callback c')\<rparr>)"
    and "\<And>answer1 answer2 s c' r. bias strerror answer1 answer2 (s_client s) = (c', r) \<Longrightarrow> P s (s\<lparr>s_client := c'\<rparr>)"
    and "\<And>now s c' h. take_health now (s_client s) = (c', h) \<Longrightarrow> P s (s\<lparr>s_client := c'\<rparr>)"
  shows "P s s'"
  using assms(1)
proof (cases rule: sys_step.cases)
  case step_api
  then show ?thesis by (cases rule: api_step.cases) (simp_all add: assms(3-))
qed (simp add: assms(2))

definition initial :: "sys \<Rightarrow> bool" where
  "initial s \<longleftrightarrow> (\<exists>now cfg. client_init now cfg = Inr (s_client s)) \<and> pc_at (s_worker s) = Exited
     \<and> s_lock s = Unlocked"

inductive reachable :: "(int \<Rightarrow> string) \<Rightarrow> sys \<Rightarrow> bool" for strerror where
  reachable_initial: "initial s \<Longrightarrow> reachable strerror s"
| reachable_step: "reachable strerror s \<Longrightarrow> sys_step strerror s s' \<Longrightarrow> reachable strerror s'"

section \<open>The fault state\<close>

definition fault_consistent :: "client \<Rightarrow> bool" where
  "fault_consistent c \<longleftrightarrow>
     h_fault_code (health c) = latch c \<and> (latch c \<noteq> FC_None \<longrightarrow> h_state (health c) = CS_Faulted)"

text \<open>Only the closing part of the worker can run with a fault latched.\<close>

definition closing_pc :: "pc \<Rightarrow> bool" where
  "closing_pc p \<longleftrightarrow> p \<in> {FinishClosing, FinishExiting, FinishState, Exited}"

definition fault_inv :: "client \<Rightarrow> worker \<Rightarrow> bool" where
  "fault_inv c w \<longleftrightarrow> fault_consistent c \<and> (closing_pc (pc_at w) \<or> latch c = FC_None)"

lemma latch_set_fault [simp]:
  "latch (set_fault f m c) = (if latch c = FC_None then f else latch c)"
  by (simp add: set_fault_def latch_publish_def Let_def)

lemma health_set_fault:
  "health (set_fault f m c) = (if latch c = FC_None
     then (health c)\<lparr>h_state := CS_Faulted, h_fault_code := f, last_error := m\<rparr> else health c)"
  by (simp add: set_fault_def latch_publish_def Let_def)

lemma fault_consistent_set_fault: "fault_consistent c \<Longrightarrow> fault_consistent (set_fault f m c)"
  by (simp add: fault_consistent_def health_set_fault)

lemma fault_code_apply [simp]: "h_fault_code (health (apply_configuration cfg c)) = h_fault_code (health c)"
  by (simp add: apply_configuration_def Let_def split: option.split)

lemma fault_code_observe [simp]:
  "h_fault_code (health (fst (observe_record rec r c))) = h_fault_code (health c)"
  by (cases "sensor_configuration (health c)")
    (simp_all add: observe_record_None observe_record_Some observed_client_def counted_health_def)

lemma fault_code_deliver [simp]:
  "h_fault_code (health (deliver_sample s c)) = h_fault_code (health c)"
  by (simp add: deliver_sample_def Let_def)

lemma fault_code_callback_error [simp]:
  "h_fault_code (health (record_callback_error m c)) = h_fault_code (health c)"
  by (simp add: record_callback_error_def)

lemma latch_send_command [simp]:
  "latch (fst (send_command strerror a cmd c)) = latch c"
  "health (fst (send_command strerror a cmd c)) = health c"
  "stopping (fst (send_command strerror a cmd c)) = stopping c"
  "transport (fst (send_command strerror a cmd c)) = transport c"
  "session_started (fst (send_command strerror a cmd c)) = session_started c"
  "worker_exited (fst (send_command strerror a cmd c)) = worker_exited c"
  "cl_config (fst (send_command strerror a cmd c)) = cl_config c"
  "latest (fst (send_command strerror a cmd c)) = latest c"
  "generation (fst (send_command strerror a cmd c)) = generation c"
  "delivered_generation (fst (send_command strerror a cmd c)) = delivered_generation c"
  "worker_joinable (fst (send_command strerror a cmd c)) = worker_joinable c"
  "joining (fst (send_command strerror a cmd c)) = joining c"
  by (simp_all add: send_command_def Let_def)

lemma faulted_iff: "faulted c \<longleftrightarrow> latch c \<noteq> FC_None"
  by (simp add: faulted_def latch_faulted_def)

lemma fault_inv_step:
  assumes "fault_inv (fst s) (snd s)"
  shows "fault_inv (fst (worker_step strerror a s)) (snd (worker_step strerror a s))"
  using assms
  by (cases "pc_at (snd s)")
    (auto simp: fault_inv_def worker_step_def Let_def case_prod_unfold fault_consistent_def
      closing_pc_def health_set_fault faulted_iff after_record_def
      split: sum.split exn.split option.split)

section \<open>Where a session can be open\<close>

definition exited_pc :: "pc \<Rightarrow> bool" where
  "exited_pc p \<longleftrightarrow> p = FinishState \<or> p = Exited"

definition sessionless_pc :: "pc \<Rightarrow> bool" where
  "sessionless_pc p \<longleftrightarrow>
     p \<in> {RunHead, SessionEnter, SessionStopCheck, Discovering, ConfiguredCheck, Connecting, SendingStart,
          ArmingBackoff, FinishExiting, FinishState, Exited}
     \<or> (case p of Judging oc \<Rightarrow> True | EnteringBackoff m \<Rightarrow> True | BackingOff t \<Rightarrow> True | _ \<Rightarrow> False)"

definition session_inv :: "client \<Rightarrow> worker \<Rightarrow> bool" where
  "session_inv c w \<longleftrightarrow>
     (session_started c \<longrightarrow> tr_socket (transport c) \<noteq> None)
     \<and> (sessionless_pc (pc_at w) \<longrightarrow> \<not> session_started c)
     \<and> (exited_pc (pc_at w) \<or> pc_at w = FinishExiting \<longrightarrow> tr_socket (transport c) = None)
     \<and> (worker_exited c \<longleftrightarrow> exited_pc (pc_at w))"

lemma send_command_Inr_socket:
  "send_command strerror a cmd c = (c', Inr u) \<Longrightarrow> tr_socket (transport c) \<noteq> None"
  using send_needs_socket [of strerror a "encode_request cmd 0" "transport c"]
  by (auto simp: send_command_def Let_def)

lemma snd_send_command_Inr:
  "snd (send_command strerror a cmd c) = Inr u \<Longrightarrow> \<exists>n. tr_socket (transport c) = Some n"
  using send_command_Inr_socket [of strerror a cmd c] by (cases "send_command strerror a cmd c") auto

lemma transport_connect_fst:
  "tr_socket (fst (transport_connect strerror r t)) = None \<Longrightarrow> tr_socket t = None"
  by (auto simp: transport_connect_def split: sum.splits)

lemma session_inv_step:
  assumes "session_inv (fst s) (snd s)"
  shows "session_inv (fst (worker_step strerror a s)) (snd (worker_step strerror a s))"
  using assms
  by (cases "pc_at (snd s)")
    (auto simp: session_inv_def worker_step_def Let_def case_prod_unfold sessionless_pc_def exited_pc_def
      faulted_iff after_record_def stopped_or_def dest: snd_send_command_Inr
      split: sum.split exn.split option.split)

section \<open>The other invariants of the worker\<close>

text \<open>A finished worker left the client stopped or faulted.\<close>

definition rest_inv :: "client \<Rightarrow> worker \<Rightarrow> bool" where
  "rest_inv c w \<longleftrightarrow> (pc_at w = Exited \<longrightarrow> h_state (health c) \<in> {CS_Stopped, CS_Faulted})"

lemma rest_inv_step:
  assumes "rest_inv (fst s) (snd s)" and "fault_inv (fst s) (snd s)"
  shows "rest_inv (fst (worker_step strerror a s)) (snd (worker_step strerror a s))"
  using assms
  by (cases "pc_at (snd s)")
    (auto simp: rest_inv_def fault_inv_def fault_consistent_def worker_step_def Let_def case_prod_unfold
      faulted_iff after_record_def split: sum.split exn.split option.split)

text \<open>A sample delivered in this generation is there to be read.\<close>

definition delivered_inv :: "client \<Rightarrow> bool" where
  "delivered_inv c \<longleftrightarrow> (generation c \<noteq> 0 \<and> delivered_generation c = generation c \<longrightarrow> latest c \<noteq> None)"

lemma delivered_keeps [simp]:
  "delivered_inv (apply_configuration cfg c) = delivered_inv c"
  "delivered_inv (set_fault f m c) = delivered_inv c"
  "delivered_inv (record_callback_error m c) = delivered_inv c"
  "delivered_inv (close_session strerror a c) = delivered_inv c"
  "delivered_inv (fst (observe_record rec r c)) = delivered_inv c"
  by (simp_all add: delivered_inv_def apply_configuration_def set_fault_def record_callback_error_def
      close_session_def stop_streaming_def Let_def case_prod_unfold split: option.split)
    (cases "sensor_configuration (health c)"; simp add: observe_record_None observe_record_Some)

lemma delivered_inv_step:
  assumes "delivered_inv (fst s)"
  shows "delivered_inv (fst (worker_step strerror a s))"
  using assms
  by (cases "pc_at (snd s)")
    (auto simp: worker_step_def Let_def case_prod_unfold split: sum.split exn.split option.split,
     simp_all add: delivered_inv_def)

text \<open>Under the reconnect policy only an escaped exception is latched, as a socket fault.\<close>

definition policy_inv :: "client \<Rightarrow> bool" where
  "policy_inv c \<longleftrightarrow> (recovery_policy (cl_config c) = Reconnect \<longrightarrow> latch c \<in> {FC_None, FC_Socket})"

lemma policy_keeps [simp]:
  "latch (record_callback_error m c) = latch c" "latch (deliver_sample s c) = latch c"
  by (simp_all add: record_callback_error_def deliver_sample_def Let_def)

lemma policy_inv_step:
  assumes "policy_inv (fst s)"
  shows "policy_inv (fst (worker_step strerror a s))"
  using assms
  by (cases "pc_at (snd s)")
    (auto simp: policy_inv_def worker_step_def Let_def case_prod_unfold split: sum.split exn.split option.split)

lemma alive_keeps [simp]:
  "worker_alive (apply_configuration cfg c) = worker_alive c"
  "worker_alive (set_fault f m c) = worker_alive c"
  "worker_alive (record_callback_error m c) = worker_alive c"
  "worker_alive (deliver_sample s c) = worker_alive c"
  "worker_alive (close_session strerror a c) = worker_alive c"
  "worker_alive (fst (observe_record rec r c)) = worker_alive c"
  "worker_alive (fst (send_command strerror a cmd c)) = worker_alive c"
  by (simp_all add: worker_alive_def apply_configuration_def set_fault_def record_callback_error_def
      deliver_sample_def close_session_def stop_streaming_def Let_def case_prod_unfold observe_record_def split: option.split)

lemma alive_update [simp]:
  "worker_alive (c\<lparr>health := h\<rparr>) = worker_alive c"
  "worker_alive (c\<lparr>transport := t\<rparr>) = worker_alive c"
  "worker_alive (c\<lparr>session_started := b\<rparr>) = worker_alive c"
  "worker_alive (c\<lparr>worker_exited := b\<rparr>) = worker_alive c"
  "worker_alive (c\<lparr>rdt_sequence := r, ft_sequence := f\<rparr>) = worker_alive c"
  "worker_alive (c\<lparr>rdt_sequence := r\<rparr>) = worker_alive c"
  "worker_alive (c\<lparr>consecutive_malformed := n\<rparr>) = worker_alive c"
  "worker_alive (c\<lparr>health := h, consecutive_malformed := n\<rparr>) = worker_alive c"
  "worker_alive (c\<lparr>stopping := b\<rparr>) = worker_alive c"
  "worker_alive (c\<lparr>receive_times := x, delivery_times := y\<rparr>) = worker_alive c"
  by (simp_all add: worker_alive_def)

lemma alive_step: "worker_alive (fst (worker_step strerror a s)) = worker_alive (fst s)"
  by (cases "pc_at (snd s)")
    (auto simp: worker_step_def Let_def case_prod_unfold split: sum.split exn.split option.split)

definition unstopped_session :: "client \<Rightarrow> bool" where
  "unstopped_session c \<longleftrightarrow> (stopping c \<longrightarrow> \<not> session_started c)"

lemma unstopped_step:
  assumes "unstopped_session (fst s)"
  shows "unstopped_session (fst (worker_step strerror a s))"
  using assms
  by (cases "pc_at (snd s)")
    (auto simp: unstopped_session_def worker_step_def Let_def case_prod_unfold
      split: sum.split exn.split option.split)

section \<open>The invariant of the system\<close>

definition sys_core :: "client \<Rightarrow> worker \<Rightarrow> bool" where
  "sys_core c w \<longleftrightarrow>
     fault_inv c w \<and> session_inv c w \<and> rest_inv c w \<and> delivered_inv c \<and> policy_inv c
     \<and> (\<not> worker_alive c \<longrightarrow> pc_at w = Exited)"

definition sys_inv :: "sys \<Rightarrow> bool" where
  "sys_inv s \<longleftrightarrow> sys_core (s_client s) (s_worker s)
     \<and> ((\<exists>self. s_lock s = StopRequested self) \<or> unstopped_session (s_client s))"

lemma republished_health:
  assumes "fault_consistent c" and "latch c \<noteq> FC_None"
  shows "(health c)\<lparr>h_state := CS_Faulted, h_fault_code := latch c, last_error := last_error (health c)\<rparr> = health c"
  using assms by (intro health_snapshot.equality) (simp_all add: fault_consistent_def)

lemma start_rollback_reset:
  assumes "fault_consistent c"
  shows "start_rollback c (start_reset callback c) = c"
proof (rule client.equality)
  show "latch (start_rollback c (start_reset callback c)) = latch c"
    by (simp add: start_rollback_def start_reset_def latch_reset_def Let_def)
  show "health (start_rollback c (start_reset callback c)) = health c"
    using republished_health [OF assms]
    by (simp add: start_rollback_def start_reset_def latch_reset_def Let_def health_set_fault)
qed (simp_all add: start_rollback_def start_reset_def latch_reset_def Let_def set_fault_def case_prod_unfold)

lemma start_check_Proceeds:
  "start_check self c = (c', Start_Proceeds) \<Longrightarrow> c' = c \<and> \<not> worker_alive c"
  by (auto simp: start_check_def Let_def worker_alive_def split: if_splits)

lemma sys_core_worker:
  assumes "sys_core c w" and "worker_alive c" and "worker_step strerror a (c, w) = (c', w')"
  shows "sys_core c' w'"
  using assms fault_inv_step [of "(c, w)" strerror a] session_inv_step [of "(c, w)" strerror a]
    rest_inv_step [of "(c, w)" strerror a] delivered_inv_step [of "(c, w)" strerror a]
    policy_inv_step [of "(c, w)" strerror a] alive_step [of strerror a "(c, w)"]
  by (simp add: sys_core_def)

lemma stop_command_fields [simp]:
  "health (stop_command strerror a c) = health c" "latch (stop_command strerror a c) = latch c"
  "session_started (stop_command strerror a c) = False"
  "tr_socket (transport (stop_command strerror a c)) = tr_socket (transport c)"
  "worker_exited (stop_command strerror a c) = worker_exited c"
  "worker_alive (stop_command strerror a c) = worker_alive c"
  "delivered_inv (stop_command strerror a c) = delivered_inv c"
  "policy_inv (stop_command strerror a c) = policy_inv c"
  by (simp_all add: stop_command_def stop_streaming_def transport_shutdown_def Let_def worker_alive_def
      delivered_inv_def policy_inv_def send_command_def)

lemma mark_stopped_fields [simp]:
  "latch (mark_stopped c) = latch c" "session_started (mark_stopped c) = session_started c"
  "transport (mark_stopped c) = transport c" "worker_exited (mark_stopped c) = worker_exited c"
  "worker_alive (mark_stopped c) = worker_alive c" "delivered_inv (mark_stopped c) = delivered_inv c"
  "policy_inv (mark_stopped c) = policy_inv c" "stopping (mark_stopped c) = stopping c"
  "h_fault_code (health (mark_stopped c)) = h_fault_code (health c)"
  "fault_consistent (mark_stopped c) = fault_consistent c"
  by (auto simp: mark_stopped_def worker_alive_def delivered_inv_def policy_inv_def fault_consistent_def faulted_iff)

lemma rest_inv_mark_stopped:
  "fault_consistent c \<Longrightarrow> h_state (health (mark_stopped c)) \<in> {CS_Stopped, CS_Faulted}"
  by (auto simp: mark_stopped_def fault_consistent_def faulted_iff)

lemma sys_core_stop_request: "sys_core c w \<Longrightarrow> sys_core (stop_request c) w"
  by (simp add: sys_core_def stop_request_def fault_inv_def fault_consistent_def session_inv_def
      rest_inv_def delivered_inv_def policy_inv_def)

lemma policy_config [simp]: "cl_config (stop_command strerror a c) = cl_config c"
  by (simp add: stop_command_def stop_streaming_def Let_def)

lemma sys_core_stop_command: "sys_core c w \<Longrightarrow> sys_core (stop_command strerror a c) w"
  by (simp add: sys_core_def fault_inv_def fault_consistent_def session_inv_def rest_inv_def)

lemma sys_core_mark_stopped: "sys_core c w \<Longrightarrow> sys_core (mark_stopped c) w"
  using rest_inv_mark_stopped [of c]
  by (simp add: sys_core_def fault_inv_def session_inv_def rest_inv_def)

text \<open>The fields that the invariant reads.\<close>

lemma sys_core_cong:
  assumes "sys_core c w"
    and "latch c' = latch c" "h_fault_code (health c') = h_fault_code (health c)"
    "h_state (health c') = h_state (health c)" "session_started c' = session_started c"
    "tr_socket (transport c') = tr_socket (transport c)" "worker_exited c' = worker_exited c"
    "latest c' = latest c" "generation c' = generation c"
    "delivered_generation c' = delivered_generation c" "cl_config c' = cl_config c"
    and "worker_alive c' \<or> pc_at w = Exited"
  shows "sys_core c' w"
  using assms(1,12)
  unfolding sys_core_def fault_inv_def fault_consistent_def session_inv_def rest_inv_def
    delivered_inv_def policy_inv_def assms(2-11) by blast

lemma sys_core_joining: "sys_core c w \<Longrightarrow> sys_core (c\<lparr>joining := True, worker_joinable := False\<rparr>) w"
  by (erule sys_core_cong) (simp_all add: worker_alive_def)

lemma stop_decide_cases:
  assumes "stop_decide self c = (c', r)"
  shows "c' = c \<or> c' = mark_stopped c \<or> c' = c\<lparr>joining := True, worker_joinable := False\<rparr>"
  using assms by (auto simp: stop_decide_def split: if_splits)

lemma start_check_cases:
  assumes "start_check self c = (c', r)"
  shows "c' = c \<or> c' = c\<lparr>joining := True, worker_joinable := False\<rparr>"
  using assms by (auto simp: start_check_def Let_def split: if_splits)

lemma unstopped_threads [simp]:
  "unstopped_session (c\<lparr>joining := j, worker_joinable := k\<rparr>) = unstopped_session c"
  "unstopped_session (c\<lparr>worker_active := b, joining := j\<rparr>) = unstopped_session c"
  "unstopped_session (mark_stopped c) = unstopped_session c"
  by (simp_all add: unstopped_session_def)

lemma sys_core_stop_decide:
  "sys_core c w \<Longrightarrow> stop_decide self c = (c', r) \<Longrightarrow> sys_core c' w \<and> unstopped_session c' = unstopped_session c"
  using stop_decide_cases [of self c c' r] by (auto simp: sys_core_mark_stopped sys_core_joining)

lemma sys_core_start_check:
  "sys_core c w \<Longrightarrow> start_check self c = (c', r) \<Longrightarrow> sys_core c' w \<and> unstopped_session c' = unstopped_session c"
  using start_check_cases [of self c c' r] by (auto simp: sys_core_joining)

lemma sys_core_joined:
  assumes "sys_core c w" and "pc_at w = Exited"
  shows "sys_core (stop_joined c) w" and "sys_core (start_reaped c) w"
  unfolding stop_joined_def start_reaped_def
  by (rule sys_core_cong [OF sys_core_mark_stopped [OF assms(1)]]; simp add: assms(2))
    (rule sys_core_cong [OF assms(1)]; simp add: assms(2))

lemma unstopped_joined:
  "unstopped_session (stop_joined c) = unstopped_session c"
  "unstopped_session (start_reaped c) = unstopped_session c"
  by (simp_all add: stop_joined_def start_reaped_def)

lemma sys_core_start:
  assumes "sys_core c w" and "\<not> worker_alive c"
  shows "sys_core (start_committed (start_reset callback c)) (worker_start c)"
    and "unstopped_session (start_committed (start_reset callback c))"
  using assms
  by (simp_all add: sys_core_def start_committed_def start_reset_def worker_start_def fault_inv_def
      fault_consistent_def session_inv_def exited_pc_def sessionless_pc_def rest_inv_def delivered_inv_def
      policy_inv_def worker_alive_def latch_reset_def unstopped_session_def)

lemma bias_keeps:
  assumes "bias strerror a1 a2 c = (c', r)"
  shows "latch c' = latch c" "health c' = health c" "stopping c' = stopping c" "transport c' = transport c"
    "session_started c' = session_started c" "worker_exited c' = worker_exited c" "cl_config c' = cl_config c"
    "latest c' = latest c" "generation c' = generation c" "delivered_generation c' = delivered_generation c"
    "worker_joinable c' = worker_joinable c" "joining c' = joining c"
proof -
  have c': "c' = c \<or> c' = fst (send_command strerror a1 SetSoftwareBias c)
    \<or> c' = fst (send_command strerror a2 StartRealtime (fst (send_command strerror a1 SetSoftwareBias c)))
    \<or> c' = (fst (send_command strerror a2 StartRealtime (fst (send_command strerror a1 SetSoftwareBias c))))
        \<lparr>rdt_sequence := rdt_reset (rdt_sequence (fst (send_command strerror a2 StartRealtime
            (fst (send_command strerror a1 SetSoftwareBias c)))))\<rparr>"
    using assms by (auto simp: bias_def case_prod_unfold split: if_splits sum.splits)
  show "latch c' = latch c" "health c' = health c" "stopping c' = stopping c" "transport c' = transport c"
    "session_started c' = session_started c" "worker_exited c' = worker_exited c" "cl_config c' = cl_config c"
    "latest c' = latest c" "generation c' = generation c" "delivered_generation c' = delivered_generation c"
    "worker_joinable c' = worker_joinable c" "joining c' = joining c"
    using c' by (elim disjE; simp)+
qed

lemma sys_core_bias:
  assumes "sys_core c w" and "bias strerror a1 a2 c = (c', r)"
  shows "sys_core c' w \<and> unstopped_session c' = unstopped_session c"
proof -
  note k = bias_keeps [OF assms(2)]
  have "worker_alive c' = worker_alive c" by (simp add: worker_alive_def k)
  moreover have "worker_alive c \<or> pc_at w = Exited" using assms(1) by (auto simp: sys_core_def)
  ultimately have "sys_core c' w"
    by (intro sys_core_cong [OF assms(1)]) (simp_all add: k)
  then show ?thesis by (simp add: unstopped_session_def k)
qed

lemma sys_core_take_health:
  assumes "sys_core c w" and "take_health now c = (c', h)"
  shows "sys_core c' w \<and> unstopped_session c' = unstopped_session c"
proof -
  from assms(2) have c': "c' = c\<lparr>receive_times := prune_rate_window (receive_times c) now,
      delivery_times := prune_rate_window (delivery_times c) now\<rparr>"
    by (simp add: take_health_def Let_def)
  have "worker_alive c \<or> pc_at w = Exited" using assms(1) by (auto simp: sys_core_def)
  then have "sys_core c' w"
    by (intro sys_core_cong [OF assms(1)]) (simp_all add: c')
  then show ?thesis by (simp add: unstopped_session_def c')
qed

lemma sys_core_client_init:
  assumes "client_init now cfg = Inr c" and "pc_at w = Exited"
  shows "sys_core c w" and "unstopped_session c"
proof -
  from assms(1) have c: "latch c = FC_None" "h_fault_code (health c) = FC_None" "h_state (health c) = CS_Stopped"
    "session_started c = False" "tr_socket (transport c) = None" "worker_exited c = True" "generation c = 0"
    by (auto simp: client_init_def default_health_def transport_init_def)
  then show "sys_core c w" and "unstopped_session c"
    using assms(2)
    by (simp_all add: sys_core_def fault_inv_def fault_consistent_def
      session_inv_def rest_inv_def delivered_inv_def policy_inv_def unstopped_session_def
      closing_pc_def exited_pc_def)
qed

lemma sys_inv_initial: "initial s \<Longrightarrow> sys_inv s"
  using sys_core_client_init by (auto simp: initial_def sys_inv_def)

lemma sys_inv_step:
  assumes "sys_step strerror s s'" and "sys_inv s"
  shows "sys_inv s'"
  using assms
proof (induction rule: sys_step_induct)
  case (step_worker s a c' w')
  then show ?case
    using unstopped_step [of "(s_client s, s_worker s)" strerror a] sys_core_worker
    by (auto simp: sys_inv_def)
next
  case (step_stop_command s self answer)
  then show ?case by (simp add: sys_inv_def sys_core_stop_command unstopped_session_def)
next
  case (step_stop_decide s self c' r)
  then show ?case
    using sys_core_stop_decide [of "s_client s" "s_worker s" self c' r] by (simp add: sys_inv_def)
next
  case (step_start_check s self c' r)
  then show ?case
    using sys_core_start_check [of "s_client s" "s_worker s" self c' r] by (simp add: sys_inv_def)
next
  case (step_start s self c' callback)
  then show ?case
    using start_check_Proceeds [of self "s_client s" c'] sys_core_start [of "s_client s" "s_worker s" callback]
    by (simp add: sys_inv_def)
next
  case (step_start_failed s self c' callback)
  then have "fault_consistent (s_client s)" and "c' = s_client s"
    using start_check_Proceeds [of self "s_client s" c']
    by (simp_all add: sys_inv_def sys_core_def fault_inv_def)
  then show ?case using step_start_failed.prems by (simp add: start_rollback_reset sys_inv_def)
next
  case (step_bias answer1 answer2 s c' r)
  then show ?case
    using sys_core_bias [of "s_client s" "s_worker s" strerror answer1 answer2 c' r] by (simp add: sys_inv_def)
next
  case (step_health now s c' h)
  then show ?case
    using sys_core_take_health [of "s_client s" "s_worker s" now c' h] by (simp add: sys_inv_def)
next
  case (step_stop_request s self)
  then show ?case by (simp add: sys_inv_def sys_core_stop_request)
next
  case (step_stop_joined s)
  then show ?case
    using sys_core_joined(1) [of "s_client s" "s_worker s"] by (auto simp: sys_inv_def unstopped_joined)
next
  case (step_start_reaped s)
  then show ?case
    using sys_core_joined(2) [of "s_client s" "s_worker s"] by (auto simp: sys_inv_def unstopped_joined)
qed

lemma reachable_inv: "reachable strerror s \<Longrightarrow> sys_inv s"
  by (induction rule: reachable.induct) (auto intro: sys_inv_initial sys_inv_step)

end
