(* ===== verification/Client_System.thy ===== *)
theory Client_System
  imports Client_Lifecycle
begin

text \<open>
  The properties of the client as a system: what holds in every reachable interleaving of
  the worker with the public operations, how a failed session ends, and a session that
  works from the start of the worker to the first published sample.
\<close>

section \<open>What every reachable state satisfies\<close>

lemma reachable_parts:
  assumes "reachable strerror s"
  shows "fault_consistent (s_client s)" "closing_pc (pc_at (s_worker s)) \<or> latch (s_client s) = FC_None"
    "session_inv (s_client s) (s_worker s)" "rest_inv (s_client s) (s_worker s)"
    "delivered_inv (s_client s)" "policy_inv (s_client s)"
    "\<not> worker_alive (s_client s) \<Longrightarrow> pc_at (s_worker s) = Exited"
    "(\<exists>self. s_lock s = StopRequested self) \<or> unstopped_session (s_client s)"
  using reachable_inv [OF assms] by (simp_all add: sys_inv_def sys_core_def fault_inv_def)


text \<open>
  C2: stopping is effective. Once the command section of \<open>stop\<close> has run, no session is open
  any more, and it stays so as long as the stop request stands; a client without a worker
  thread has closed its socket, has no session, and is stopped or faulted.
\<close>

theorem reachable_stop_effective:
  assumes "reachable strerror s"
  shows "(stopping (s_client s) \<and> (\<forall>self. s_lock s \<noteq> StopRequested self) \<longrightarrow> \<not> session_started (s_client s))
    \<and> (\<not> worker_alive (s_client s) \<longrightarrow> \<not> session_started (s_client s) \<and> tr_socket (transport (s_client s)) = None
        \<and> h_state (health (s_client s)) \<in> {CS_Stopped, CS_Faulted})"
  using reachable_parts(3,4,7,8) [OF assms]
  by (auto simp: unstopped_session_def session_inv_def rest_inv_def sessionless_pc_def exited_pc_def)

text \<open>
  A session only exists over a connected socket, so a command of a running session can
  only fail in the system call, and never because the transport was closed under it.
\<close>

lemma reachable_session_connected:
  assumes "reachable strerror s" and "session_started (s_client s)"
  shows "transport_send strerror sent request (transport (s_client s)) \<noteq>
    Inl (RuntimeError ''UDP socket is not connected'')"
  using reachable_parts(3) [OF assms(1)] assms(2)
  by (auto simp: session_inv_def transport_send_def throw_if_def socket_error_def split: sum.split)

text \<open>
  Waiting for the first sample. When the wait answers true for a generation that was
  started, a sample of this generation can be read; and it never answers true while the
  wait's own condition to return does not hold.
\<close>

theorem first_sample_available:
  assumes "reachable strerror s" and "wait_begin now timeout c0 = Inr (Some (deadline, g))"
    and "wait_answer g (s_client s)"
  shows "latest (s_client s) \<noteq> None \<and> wait_over g (s_client s)"
  using reachable_parts(5) [OF assms(1)] assms(2,3)
  by (auto simp: wait_begin_def wait_answer_def wait_over_def delivered_inv_def split: if_splits)

text \<open>
  A failed start changes nothing: when the worker thread cannot be created, the handler
  restores every field, the latched fault included.
\<close>

theorem start_failure_restores:
  assumes "reachable strerror s" and "start_check self (s_client s) = (c', Start_Proceeds)"
  shows "start_rollback c' (start_reset callback c') = s_client s"
  using start_check_Proceeds [OF assms(2)] start_rollback_reset [OF reachable_parts(1) [OF assms(1)]] by simp

lemma send_command_result:
  assumes "send_command strerror a cmd c = (c', r)"
  shows "rdt_sequence c' = rdt_sequence c" and "r = Inr u \<Longrightarrow> sent_commands c' = sent_commands c @ [cmd]"
    and "r = Inl e \<Longrightarrow> \<exists>m. e = RuntimeError m"
  using assms
  by (auto simp: send_command_def Let_def transport_send_def socket_error_def throw_if_def
      split: if_splits sum.splits)



section \<open>The end of a failed session\<close>

text \<open>
  C13: under fail-stop a failed session latches its own fault: four steps after it is closed
  the worker has exited, the socket is closed, and the snapshot shows the fault that belongs
  to the session's result with the message of the session, or the standard one.
\<close>

theorem failstop_latches_fault:
  assumes "recovery_policy (cl_config c) = FailStop" and "so_result oc \<noteq> SR_Stopped" and "latch c = FC_None"
    and "pc_at w = Judging oc"
  shows "let (c', w') = run_worker strerror [a1, a2, a3, a4] (c, w) in
    pc_at w' = Exited \<and> worker_exited c' \<and> latch c' = fault_for (so_result oc) \<and> latch c' \<noteq> FC_None
    \<and> h_state (health c') = CS_Faulted \<and> h_fault_code (health c') = latch c'
    \<and> last_error (health c') = (if so_message oc = [] then message_for (so_result oc) else so_message oc)
    \<and> tr_socket (transport c') = None"
proof -
  define m where "m = (if so_message oc = [] then message_for (so_result oc) else so_message oc)"
  have f: "fault_for (so_result oc) \<noteq> FC_None" using assms(2) by (cases "so_result oc") simp_all
  have 1: "worker_step strerror a1 (c, w) = (set_fault (fault_for (so_result oc)) m c, w\<lparr>pc_at := FinishClosing\<rparr>)"
    using assms by (simp add: worker_step_def m_def Let_def)
  let ?c2 = "close_session strerror (a_sent a2) (set_fault (fault_for (so_result oc)) m c)"
  have l: "latch ?c2 = fault_for (so_result oc)" "h_state (health ?c2) = CS_Faulted"
    "h_fault_code (health ?c2) = fault_for (so_result oc)" "last_error (health ?c2) = m"
    using assms(3) by (simp_all add: health_set_fault)
  have 2: "worker_step strerror a2 (set_fault (fault_for (so_result oc)) m c, w\<lparr>pc_at := FinishClosing\<rparr>)
      = (?c2, w\<lparr>pc_at := FinishExiting\<rparr>)"
    by (simp add: worker_step_def)
  have 3: "worker_step strerror a3 (?c2, w\<lparr>pc_at := FinishExiting\<rparr>) = (?c2\<lparr>worker_exited := True\<rparr>, w\<lparr>pc_at := FinishState\<rparr>)"
    by (simp add: worker_step_def)
  have 4: "worker_step strerror a4 (?c2\<lparr>worker_exited := True\<rparr>, w\<lparr>pc_at := FinishState\<rparr>)
      = (?c2\<lparr>worker_exited := True\<rparr>, w\<lparr>pc_at := Exited\<rparr>)"
    using l f by (simp add: worker_step_def faulted_iff)
  show ?thesis
    unfolding run_worker.simps 1 2 3 4 using l f by (simp add: m_def)
qed

section \<open>A session that works\<close>

text \<open>The environment is in order, and the device sends one record, over and over.\<close>

definition good_answer :: "answer \<Rightarrow> client \<Rightarrow> sensor_configuration \<Rightarrow> raw_record \<Rightarrow> ticks \<Rightarrow> bool" where
  "good_answer a c cfg rec deadline \<longleftrightarrow>
     a_discovered a = Inr cfg \<and> validate_calibration (calibration cfg) = Inr ()
     \<and> (\<exists>n. a_resolved a = Inr [Connected n]) \<and> a_sent a = Inr 8
     \<and> checked_deadline (a_now a) (receive_timeout (cl_config c)) = Inr deadline \<and> a_now a < deadline
     \<and> succeeds (checked_deadline (a_now a) (seconds_of (deadline - a_now a)))
     \<and> a_polls a = [Events False] \<and> a_received a = Datagram (serialise_record rec)
     \<and> a_callback a = Returned"

definition started :: "client \<Rightarrow> client" where
  "started c = start_committed (start_reset True c)"

lemma started_fields [simp]:
  "stopping (started c) = False" "latch (started c) = FC_None" "cl_config (started c) = cl_config c"
  "has_callback (started c) = True" "last_delivery_at (started c) = 0"
  "ft_sequence (started c) = ft_sequence c" "generation (started c) = generation c + 1"
  "sent_commands (started c) = sent_commands c" "consecutive_malformed (started c) = 0"
  by (simp_all add: started_def start_committed_def start_reset_def latch_reset_def)

lemma apply_configuration_fields [simp]:
  "has_callback (apply_configuration cfg c) = has_callback c"
  "last_delivery_at (apply_configuration cfg c) = last_delivery_at c"
  "ft_sequence (apply_configuration cfg c) = ft_sequence c"
  "rdt_sequence (apply_configuration cfg c) = rdt_sequence c"
  "generation (apply_configuration cfg c) = generation c"
  "consecutive_malformed (apply_configuration cfg c) = consecutive_malformed c"
  by (simp_all add: apply_configuration_def Let_def split: option.split)

lemma apply_configuration_Some:
  "\<exists>cfg'. sensor_configuration (health (apply_configuration cfg c)) = Some cfg' \<and> calibration cfg' = calibration cfg"
  by (simp add: apply_configuration_def Let_def split: option.split)

text \<open>The client after the session is set up: eight steps from the start of the worker.\<close>

definition streaming_client :: "int \<Rightarrow> sensor_configuration \<Rightarrow> client \<Rightarrow> client" where
  "streaming_client n cfg c =
     (let c1 = apply_configuration cfg (c\<lparr>health := (health c)\<lparr>h_state := CS_Connecting\<rparr>\<rparr>)
      in c1\<lparr>transport := \<lparr>tr_socket = Some n, shutdown_requested = False\<rparr>,
            sent_commands := sent_commands c @ [StartRealtime], session_started := True,
            rdt_sequence := rdt_reset (rdt_sequence c), ft_sequence := ft_begin_session (ft_sequence c)\<rparr>)"

lemma session_setup:
  assumes "good_answer a c cfg rec deadline" and "a_resolved a = Inr [Connected n]"
    and "calibration_override (cl_config c) = None" and "\<not> stopping c" and "latch c = FC_None"
    and "pc_at w = RunHead"
  shows "run_worker strerror (replicate 9 a) (c, w)
    = (streaming_client n cfg c, w\<lparr>pc_at := LoopHead deadline, valid_seen := False\<rparr>)"
proof -
  let ?w = "\<lambda>p. w\<lparr>pc_at := p, valid_seen := False\<rparr>"
  let ?c2 = "c\<lparr>health := (health c)\<lparr>h_state := CS_Connecting\<rparr>\<rparr>"
  let ?c4 = "apply_configuration cfg ?c2"
  let ?c6 = "?c4\<lparr>transport := \<lparr>tr_socket = Some n, shutdown_requested = False\<rparr>\<rparr>"
  let ?c7 = "?c6\<lparr>sent_commands := sent_commands ?c6 @ [StartRealtime], session_started := True\<rparr>"
  have 1: "worker_step strerror a (c, w) = (c, w\<lparr>pc_at := SessionEnter\<rparr>)"
    using assms by (simp add: worker_step_def faulted_iff)
  have 2: "worker_step strerror a (c, w\<lparr>pc_at := SessionEnter\<rparr>) = (?c2, ?w SessionStopCheck)"
    by (simp add: worker_step_def)
  have 3: "worker_step strerror a (?c2, ?w SessionStopCheck) = (?c2, ?w Discovering)"
    using assms(4) by (simp add: worker_step_def)
  have 4: "worker_step strerror a (?c2, ?w Discovering) = (?c4, ?w ConfiguredCheck)"
    using assms(1,3) by (simp add: worker_step_def configuration_for_session_def good_answer_def)
  have 5: "worker_step strerror a (?c4, ?w ConfiguredCheck) = (?c4, ?w Connecting)"
    using assms(4) by (simp add: worker_step_def)
  have 6: "worker_step strerror a (?c4, ?w Connecting) = (?c6, ?w SendingStart)"
    using assms(2) by (simp add: worker_step_def transport_connect_def)
  have "transport_send strerror (a_sent a) (encode_request StartRealtime 0) (transport ?c6) = Inr ()"
    using assms(1) by (simp add: good_answer_def transport_send_def encode_request_def)
  then have "send_command strerror (a_sent a) StartRealtime ?c6
      = (?c6\<lparr>sent_commands := sent_commands ?c6 @ [StartRealtime]\<rparr>, Inr ())"
    by (simp add: send_command_def)
  then have 7: "worker_step strerror a (?c6, ?w SendingStart) = (?c7, ?w ResettingTrackers)"
    using assms(4) by (simp add: worker_step_def)
  have 8: "worker_step strerror a (?c7, ?w ResettingTrackers) = (streaming_client n cfg c, ?w ArmDeadline)"
    by (simp add: worker_step_def streaming_client_def Let_def)
  have 9: "worker_step strerror a (streaming_client n cfg c, ?w ArmDeadline)
      = (streaming_client n cfg c, ?w (LoopHead deadline))"
    using assms(1) by (simp add: worker_step_def good_answer_def streaming_client_def Let_def)
  have "replicate 9 a = [a, a, a, a, a, a, a, a, a]" by (simp add: eval_nat_numeral)
  then show ?thesis by (simp only: run_worker.simps 1 2 3 4 5 6 7 8 9)
qed

text \<open>One round of the loop in which a deliverable record arrives.\<close>

lemma callback_round:
  assumes "good_answer a c cfg0 rec deadline" and "listening c" and "has_callback c"
    and "sensor_configuration (health c) = Some cfg" and "validate_calibration (calibration cfg) = Inr ()"
    and "deliverable rec (a_now a) (c\<lparr>consecutive_malformed := 0\<rparr>)"
    and "record_outcome rec (c\<lparr>consecutive_malformed := 0\<rparr>) = None"
    and "pc_at w = LoopHead deadline"
  shows "run_worker strerror (replicate 8 a) (c, w) =
    (observed_client rec (a_now a) (c\<lparr>consecutive_malformed := 0\<rparr>),
     w\<lparr>pc_at := InCallback (make_sample rec (a_now a) cfg) None deadline, valid_seen := True\<rparr>)"
proof -
  let ?u = "seconds_of (deadline - a_now a)"
  let ?b = "serialise_record rec"
  let ?st = "\<lambda>p. (c, w\<lparr>pc_at := p\<rparr>)"
  let ?w = "\<lambda>p. w\<lparr>pc_at := p, valid_seen := True\<rparr>"
  let ?c1 = "c\<lparr>consecutive_malformed := 0\<rparr>"
  let ?c2 = "observed_client rec (a_now a) ?c1"
  let ?s = "make_sample rec (a_now a) cfg"
  have g: "a_now a < deadline" "a_polls a = [Events False]" "a_received a = Datagram ?b"
    "checked_deadline (a_now a) (receive_timeout (cl_config c)) = Inr deadline"
    using assms(1) by (simp_all add: good_answer_def)
  obtain t where t: "checked_deadline (a_now a) ?u = Inr t"
    using assms(1) by (auto simp: good_answer_def succeeds_iff)
  obtain sk where sk: "tr_socket (transport c) = Some sk" "\<not> shutdown_requested (transport c)" "\<not> stopping c"
    using assms(2) by (auto simp: listening_def)
  have b: "?b \<noteq> []" "length ?b \<le> 65536" using length_serialise_record [of rec] by (auto simp del: length_serialise_record)
  have 1: "worker_step strerror a (c, w) = ?st (LoopClock deadline)"
    using assms(8) sk by (simp add: worker_step_def)
  have 2: "worker_step strerror a (?st (LoopClock deadline)) = ?st (ReceiveBegin deadline ?u)"
    using g by (simp add: worker_step_def)
  have 3: "worker_step strerror a (?st (ReceiveBegin deadline ?u)) = ?st (ReceiveWait deadline ?u)"
    using sk by (simp add: worker_step_def receive_begin_def)
  have 4: "worker_step strerror a (?st (ReceiveWait deadline ?u)) = ?st (ReceiveEnd deadline (Inr (Ready False)))"
    by (simp add: worker_step_def receive_wait_def t g)
  have 5: "worker_step strerror a (?st (ReceiveEnd deadline (Inr (Ready False)))) = ?st (Received deadline ?b)"
    using sk b by (simp add: worker_step_def receive_end_def g)
  have 6: "worker_step strerror a (?st (Received deadline ?b)) = ?st (ValidRecord rec)"
    using sk b decode_serialised [of rec] by (simp add: worker_step_def)
  have 7: "worker_step strerror a (?st (ValidRecord rec)) = (?c1, ?w (ObservingRecord rec (a_now a) deadline))"
    by (simp add: worker_step_def g Let_def)
  have obs: "observe_record rec (a_now a) ?c1 = (?c2, Inr (True, None, cfg))"
    using observe_record_Some [of ?c1 cfg rec "a_now a"] assms(4,6,7) by simp
  have 8: "worker_step strerror a (?c1, ?w (ObservingRecord rec (a_now a) deadline)) = (?c2, ?w (InCallback ?s None deadline))"
    using assms(3) sensor_scaled_finite [OF assms(5)] by (simp add: worker_step_def obs Let_def)
  have "replicate 8 a = [a, a, a, a, a, a, a, a]" by (simp add: eval_nat_numeral)
  then show ?thesis by (simp only: run_worker.simps 1 2 3 4 5 6 7 8)
qed

lemma delivering_round:
  assumes "good_answer a c cfg0 rec deadline" and "listening c" and "has_callback c"
    and "sensor_configuration (health c) = Some cfg" and "validate_calibration (calibration cfg) = Inr ()"
    and "deliverable rec (a_now a) (c\<lparr>consecutive_malformed := 0\<rparr>)"
    and "record_outcome rec (c\<lparr>consecutive_malformed := 0\<rparr>) = None"
    and "pc_at w = LoopHead deadline"
  shows "run_worker strerror (replicate 10 a) (c, w) =
    (deliver_sample (make_sample rec (a_now a) cfg) (observed_client rec (a_now a) (c\<lparr>consecutive_malformed := 0\<rparr>)),
     w\<lparr>pc_at := LoopHead deadline, valid_seen := True\<rparr>)"
proof -
  have "replicate 10 a = replicate 8 a @ [a, a]" by (simp add: eval_nat_numeral)
  moreover have "a_callback a = Returned" using assms(1) by (simp add: good_answer_def)
  ultimately show ?thesis
    by (simp add: run_worker_append callback_round [OF assms] worker_step_def after_record_def)
qed

lemma good_answer_config: "cl_config c' = cl_config c \<Longrightarrow> good_answer a c' cfg rec d = good_answer a c cfg rec d"
  by (simp add: good_answer_def)

lemma streaming_client_fields [simp]:
  "stopping (streaming_client n cfg c) = stopping c" "has_callback (streaming_client n cfg c) = has_callback c"
  "cl_config (streaming_client n cfg c) = cl_config c" "last_delivery_at (streaming_client n cfg c) = last_delivery_at c"
  "transport (streaming_client n cfg c) = \<lparr>tr_socket = Some n, shutdown_requested = False\<rparr>"
  "sent_commands (streaming_client n cfg c) = sent_commands c @ [StartRealtime]"
  "generation (streaming_client n cfg c) = generation c"
  "rdt_sequence (streaming_client n cfg c) = rdt_reset (rdt_sequence c)"
  "ft_sequence (streaming_client n cfg c) = ft_begin_session (ft_sequence c)"
  by (simp_all add: streaming_client_def Let_def)

lemma streaming_client_configured:
  "\<exists>cfg'. sensor_configuration (health (streaming_client n cfg c)) = Some cfg' \<and> calibration cfg' = calibration cfg"
  using apply_configuration_Some [of cfg "c\<lparr>health := (health c)\<lparr>h_state := CS_Connecting\<rparr>\<rparr>"]
  by (simp add: streaming_client_def Let_def)

lemma observed_client_sent [simp]:
  "sent_commands (observed_client rec r c) = sent_commands c"
  by (simp add: observed_client_def)

lemma deliver_sample_generation [simp]:
  "generation (deliver_sample s c) = generation c"
  by (simp add: deliver_sample_def Let_def)

lemma fresh_session_begun:
  assumes "good_answer a c cfg rec deadline" and "calibration_override (cl_config c) = None"
    and "classify_status (raw_status rec) \<noteq> SevError"
    and "ft_advances (snd (ft_observe (raw_ft_sequence rec) (ft_begin_session (ft_sequence c))))"
  obtains n cfg' w where "run_worker strerror (replicate 9 a) (started c, worker_start c) = (streaming_client n cfg (started c), w)"
    and "calibration cfg' = calibration cfg" and "pc_at w = LoopHead deadline"
    and "\<And>d. d = streaming_client n cfg (started c) \<Longrightarrow>
      good_answer a d cfg rec deadline \<and> listening d \<and> has_callback d
      \<and> sensor_configuration (health d) = Some cfg' \<and> validate_calibration (calibration cfg') = Inr ()
      \<and> deliverable rec (a_now a) (d\<lparr>consecutive_malformed := 0\<rparr>)
      \<and> record_outcome rec (d\<lparr>consecutive_malformed := 0\<rparr>) = None"
proof -
  obtain n where n: "a_resolved a = Inr [Connected n]" using assms(1) by (auto simp: good_answer_def)
  define d where "d = streaming_client n cfg (started c)"
  define w where "w = (worker_start c)\<lparr>pc_at := LoopHead deadline, valid_seen := False\<rparr>"
  have g: "good_answer a (started c) cfg rec deadline" "good_answer a d cfg rec deadline"
    using assms(1) by (simp_all add: d_def good_answer_config [of "started c" c]
        good_answer_config [of "streaming_client n cfg (started c)" c])
  have begun: "run_worker strerror (replicate 9 a) (started c, worker_start c) = (d, w)"
    using session_setup [OF g(1) n, of "worker_start c" strerror] assms(2) by (simp add: worker_start_def d_def w_def)
  obtain cfg' where cfg': "sensor_configuration (health d) = Some cfg'" "calibration cfg' = calibration cfg"
    using streaming_client_configured [of n cfg "started c"] by (auto simp: d_def)
  have v: "validate_calibration (calibration cfg') = Inr ()" using assms(1) cfg'(2) by (simp add: good_answer_def)
  have ft: "record_ft rec (d\<lparr>consecutive_malformed := 0\<rparr>) = snd (ft_observe (raw_ft_sequence rec) (ft_begin_session (ft_sequence c)))"
    by (simp add: record_ft_def d_def)
  have del: "deliverable rec (a_now a) (d\<lparr>consecutive_malformed := 0\<rparr>)"
    using assms(3,4) by (simp add: deliverable_def ft rate_limited_def)
      (simp add: record_rdt_def d_def rdt_observe_def rdt_reset_def rdt_advances_def)
  have out: "record_outcome rec (d\<lparr>consecutive_malformed := 0\<rparr>) = None"
    using assms(3,4) by (auto simp: record_outcome_def ft ft_advances_def)
  have ls: "listening d" "has_callback d" by (simp_all add: listening_def d_def)
  show thesis
    by (rule that [of n w cfg']) (use begun cfg' g(2) v del out ls in \<open>simp_all add: d_def w_def\<close>)
qed

lemma fresh_session_run:
  assumes "good_answer a c cfg rec deadline" and "calibration_override (cl_config c) = None"
    and "classify_status (raw_status rec) \<noteq> SevError"
    and "ft_advances (snd (ft_observe (raw_ft_sequence rec) (ft_begin_session (ft_sequence c))))"
  shows "\<exists>cfg'. calibration cfg' = calibration cfg
    \<and> (let (c', w') = run_worker strerror (replicate 19 a) (started c, worker_start c) in
         pc_at w' = LoopHead deadline \<and> latest c' = Some (make_sample rec (a_now a) cfg')
         \<and> wait_answer (generation c + 1) c' \<and> sent_commands c' = sent_commands c @ [StartRealtime])"
proof -
  obtain n cfg' w where begun: "run_worker strerror (replicate 9 a) (started c, worker_start c) = (streaming_client n cfg (started c), w)"
    and cfg': "calibration cfg' = calibration cfg" and w: "pc_at w = LoopHead deadline"
    and d: "\<And>d. d = streaming_client n cfg (started c) \<Longrightarrow>
      good_answer a d cfg rec deadline \<and> listening d \<and> has_callback d
      \<and> sensor_configuration (health d) = Some cfg' \<and> validate_calibration (calibration cfg') = Inr ()
      \<and> deliverable rec (a_now a) (d\<lparr>consecutive_malformed := 0\<rparr>)
      \<and> record_outcome rec (d\<lparr>consecutive_malformed := 0\<rparr>) = None"
    by (rule fresh_session_begun [OF assms, where strerror = strerror], rule that)
  define d' where "d' = streaming_client n cfg (started c)"
  have "run_worker strerror (replicate 10 a) (d', w) =
    (deliver_sample (make_sample rec (a_now a) cfg') (observed_client rec (a_now a) (d'\<lparr>consecutive_malformed := 0\<rparr>)),
     w\<lparr>pc_at := LoopHead deadline, valid_seen := True\<rparr>)"
    using delivering_round [of a d' cfg rec deadline cfg' w strerror] d [OF d'_def] w by simp
  moreover have "replicate 19 a = replicate 9 a @ replicate 10 a" by (simp flip: replicate_add)
  ultimately show ?thesis
    by (intro exI [of _ cfg']) (simp add: run_worker_append begun cfg' wait_answer_def flip: d'_def, simp add: d'_def)
qed

text \<open>Two steps earlier the same worker is inside its callback.\<close>

lemma fresh_session_callback:
  assumes "good_answer a c cfg rec deadline" and "calibration_override (cl_config c) = None"
    and "classify_status (raw_status rec) \<noteq> SevError"
    and "ft_advances (snd (ft_observe (raw_ft_sequence rec) (ft_begin_session (ft_sequence c))))"
  shows "\<exists>s. let (c', w') = run_worker strerror (replicate 17 a) (started c, worker_start c) in
    pc_at w' = InCallback s None deadline \<and> from_worker_thread True c'"
proof -
  obtain n cfg' w where begun: "run_worker strerror (replicate 9 a) (started c, worker_start c) = (streaming_client n cfg (started c), w)"
    and w: "pc_at w = LoopHead deadline"
    and d: "\<And>d. d = streaming_client n cfg (started c) \<Longrightarrow>
      good_answer a d cfg rec deadline \<and> listening d \<and> has_callback d
      \<and> sensor_configuration (health d) = Some cfg' \<and> validate_calibration (calibration cfg') = Inr ()
      \<and> deliverable rec (a_now a) (d\<lparr>consecutive_malformed := 0\<rparr>)
      \<and> record_outcome rec (d\<lparr>consecutive_malformed := 0\<rparr>) = None"
    by (rule fresh_session_begun [OF assms, where strerror = strerror], rule that)
  define d' where "d' = streaming_client n cfg (started c)"
  have "run_worker strerror (replicate 8 a) (d', w) =
    (observed_client rec (a_now a) (d'\<lparr>consecutive_malformed := 0\<rparr>),
     w\<lparr>pc_at := InCallback (make_sample rec (a_now a) cfg') None deadline, valid_seen := True\<rparr>)"
    using callback_round [of a d' cfg rec deadline cfg' w strerror] d [OF d'_def] w by simp
  moreover have "replicate 17 a = replicate 9 a @ replicate 8 a" by (simp flip: replicate_add)
  moreover have "from_worker_thread True (observed_client rec (a_now a) (d'\<lparr>consecutive_malformed := 0\<rparr>))"
    by (simp add: d'_def from_worker_thread_def observed_client_def streaming_client_def apply_configuration_def
        started_def start_committed_def start_reset_def Let_def split: option.split)
  ultimately show ?thesis by (simp add: run_worker_append begun flip: d'_def)
qed

text \<open>
  C11: a session in order delivers. When discovery, connecting and sending succeed and the
  device's record arrives before the deadline with an acceptable status and an advancing FT
  counter, a freshly started worker is, nineteen steps later, back at the head of its loop
  with that record's sample published, scaled by the discovered calibration; the device was
  sent one start request, and waiting for the first sample of this generation answers true.
\<close>

theorem fresh_session_delivers:
  assumes "good_answer a c cfg rec deadline" and "calibration_override (cl_config c) = None"
    and "classify_status (raw_status rec) \<noteq> SevError"
    and "ft_advances (snd (ft_observe (raw_ft_sequence rec) (ft_begin_session (ft_sequence c))))"
  shows "\<exists>cfg'. calibration cfg' = calibration cfg
    \<and> (let (c', w') = run_worker strerror (replicate 19 a) (started c, worker_start c) in
         pc_at w' = LoopHead deadline \<and> latest c' = Some (make_sample rec (a_now a) cfg')
         \<and> wait_answer (generation c + 1) c' \<and> sent_commands c' = sent_commands c @ [StartRealtime])"
  by (rule fresh_session_run [OF assms])

lemma worker_latch_kept: "latch (fst s) \<noteq> FC_None \<Longrightarrow> latch (fst (worker_step strerror a s)) = latch (fst s)"
  by (cases "pc_at (snd s)")
    (auto simp: worker_step_def Let_def case_prod_unfold split: sum.split exn.split option.split)

text \<open>
  C14: a latched fault is final. No step of any thread changes or clears it, except a start of
  a new worker, which opens a new generation.
\<close>

theorem fault_kept_until_start:
  assumes "sys_step strerror s s'" and "reachable strerror s" and "latch (s_client s) \<noteq> FC_None"
  shows "latch (s_client s') = latch (s_client s)
    \<or> generation (s_client s') = generation (s_client s) + 1 \<and> \<not> worker_alive (s_client s)"
  using assms
proof (induction rule: sys_step_induct)
  case (step_worker s a c' w')
  then show ?case using worker_latch_kept [of "(s_client s, s_worker s)" strerror a] by simp
next
  case (step_stop_decide s self c' r)
  then show ?case using stop_decide_cases [of self "s_client s" c' r] by auto
next
  case (step_start_check s self c' r)
  then show ?case using start_check_cases [of self "s_client s" c' r] by auto
next
  case (step_start s self c' callback)
  then show ?case
    using start_check_Proceeds [of self "s_client s" c'] by (simp add: start_committed_def start_reset_def)
next
  case (step_start_failed s self c' callback)
  then show ?case
    using start_check_Proceeds [of self "s_client s" c'] start_rollback_reset [OF reachable_parts(1)] by simp
next
  case (step_bias answer1 answer2 s c' r)
  then show ?case using bias_keeps(1) by simp
next
  case (step_health now s c' h)
  then show ?case by (auto simp: take_health_def Let_def)
qed (simp_all add: stop_request_def stop_joined_def start_reaped_def)

section \<open>Concrete systems\<close>

definition example_config :: config where
  "example_config = default_config\<lparr>receive_timeout := fone, configuration_connect_timeout := fone,
     configuration_timeout := fone, reconnect_initial_delay := fone, reconnect_max_delay := fone\<rparr>"

lemma checked_one_second: "checked_duration fone = Inr 1000000000"
  using fround_x87_int [of 1000000000 False]
  by (simp add: checked_duration_def fone_def fzero_def ticks_max_def Let_def)

lemma example_config_valid: "validate_config (\<lambda>k. 1000) example_config = Inr ()"
proof -
  have "timeout_ok 1000 fone"
    by (simp add: timeout_ok_def checked_one_second ticks_max_def) (simp add: fone_def fzero_def)
  moreover have "http_timeout_ok fone"
    using fround_x87_int [of 1000 False] by (simp add: http_timeout_ok_def fone_def ticks_max_def)
  ultimately show ?thesis
    by (simp add: validate_config_iff config_ok_def example_config_def)
      (simp add: default_config_def is_blank_def is_space_def fzero_def fone_def)
qed

definition idle_client :: client where
  "idle_client = sum.projr (client_init (\<lambda>k. 1000) example_config)"

lemma idle_client: "client_init (\<lambda>k. 1000) example_config = Inr idle_client"
  by (simp add: idle_client_def client_init_def example_config_valid)

lemma idle_client_fields [simp]:
  "cl_config idle_client = example_config" "worker_joinable idle_client = False" "joining idle_client = False"
  "worker_exited idle_client = True" "latch idle_client = FC_None" "generation idle_client = 0"
  "session_started idle_client = False" "ft_sequence idle_client = ft_init"
  by (simp_all add: idle_client_def client_init_def example_config_valid)

definition idle_sys :: sys where
  "idle_sys = \<lparr>s_client = idle_client, s_worker = \<lparr>pc_at = Exited, backoff = fone, valid_seen = False\<rparr>,
     s_lock = Unlocked, s_stop_joins = False\<rparr>"

lemma reachable_idle: "reachable strerror idle_sys"
  by (rule reachable_initial) (use idle_client in \<open>auto simp: initial_def idle_sys_def\<close>)

lemma idle_proceeds: "start_check False idle_client = (idle_client, Start_Proceeds)"
  by (simp add: start_check_def from_worker_thread_def Let_def)

lemma reachable_started:
  "reachable strerror (idle_sys\<lparr>s_client := started idle_client, s_worker := worker_start idle_client\<rparr>)"
proof (rule reachable_step [OF reachable_idle])
  have "sys_step strerror idle_sys (idle_sys\<lparr>s_client := start_committed (start_reset True idle_client),
       s_worker := worker_start idle_client\<rparr>)"
    by (rule step_start [of _ False]) (simp_all add: idle_sys_def idle_proceeds)
  then show "sys_step strerror idle_sys (idle_sys\<lparr>s_client := started idle_client, s_worker := worker_start idle_client\<rparr>)"
    by (simp add: started_def)
qed

lemma reachable_run:
  assumes "reachable strerror s" and "worker_alive (s_client s)"
  shows "reachable strerror (s\<lparr>s_client := fst (run_worker strerror as (s_client s, s_worker s)),
    s_worker := snd (run_worker strerror as (s_client s, s_worker s))\<rparr>)"
  using assms
proof (induction as arbitrary: s)
  case (Cons a as)
  obtain c' w' where st: "worker_step strerror a (s_client s, s_worker s) = (c', w')" by force
  let ?s = "s\<lparr>s_client := c', s_worker := w'\<rparr>"
  have "reachable strerror ?s"
    using Cons.prems st by (intro reachable_step [OF Cons.prems(1)] step_worker)
  moreover have "worker_alive (s_client ?s)"
    using alive_step [of strerror a "(s_client s, s_worker s)"] Cons.prems(2) st by simp
  ultimately show ?case using Cons.IH [of ?s] st by simp
qed simp

text \<open>A worker that ran into an exception of discovery: five steps to the fault.\<close>

definition broken_answer :: answer where
  "broken_answer = quiet_answer\<lparr>a_discovered := Inl (InvalidArgument ''bad host'')\<rparr>"

definition faulted_run :: "client \<times> worker" where
  "faulted_run = run_worker (\<lambda>e. []) (replicate 5 broken_answer) (started idle_client, worker_start idle_client)"

lemma faulted_run_fields: "latch (fst faulted_run) = FC_Socket" "pc_at (snd faulted_run) = FinishClosing"
  by (simp_all add: faulted_run_def eval_nat_numeral worker_step_def worker_start_def faulted_iff
      broken_answer_def configuration_for_session_def example_config_def default_config_def)

definition faulted_sys :: sys where
  "faulted_sys = idle_sys\<lparr>s_client := fst faulted_run, s_worker := snd faulted_run\<rparr>"

lemma started_alive: "worker_alive (started c)"
  by (simp add: worker_alive_def started_def start_committed_def)

lemma reachable_faulted: "reachable (\<lambda>e. []) faulted_sys"
  using reachable_run [OF reachable_started, of "\<lambda>e. []" "replicate 5 broken_answer"] started_alive
  by (simp add: faulted_sys_def faulted_run_def)


theorem fault_kept_until_start_witness:
  "latch (stop_request (s_client faulted_sys)) = FC_Socket"
proof -
  have "sys_step (\<lambda>e. []) faulted_sys (faulted_sys\<lparr>s_client := stop_request (s_client faulted_sys), s_lock := StopRequested False\<rparr>)"
    by (rule step_stop_request) (simp_all add: faulted_sys_def idle_sys_def may_be_worker_def)
  from fault_kept_until_start [OF this reachable_faulted] show ?thesis
    by (auto simp: faulted_sys_def faulted_run_fields stop_request_def)
qed

theorem start_failure_restores_witness:
  "start_rollback idle_client (start_reset True idle_client) = idle_client"
  using start_failure_restores [OF reachable_idle, of False idle_client True]
  by (simp add: idle_sys_def idle_proceeds)

theorem reachable_stop_effective_witness:
  "h_state (health (s_client idle_sys)) \<in> {CS_Stopped, CS_Faulted} \<and> tr_socket (transport (s_client idle_sys)) = None"
  using reachable_stop_effective [OF reachable_idle] by (simp add: idle_sys_def worker_alive_def)

definition good_example :: answer where
  "good_example = \<lparr>a_now = 1000, a_discovered = Inr example_session_configuration, a_resolved = Inr [Connected 3],
     a_sent = Inr 8, a_polls = [Events False], a_received = Datagram (serialise_record example_record), a_callback = Returned\<rparr>"

lemma good_example: "good_answer good_example idle_client example_session_configuration example_record 1000001000"
proof -
  have "seconds_of 1000000000 = fone"
    using fof_int_exact [of 1000000000] fof_int_exact [of 1] by (simp add: seconds_of_def fof_int_def fone_def)
  then show ?thesis
    by (simp add: good_answer_def good_example_def example_client_configured checked_deadline_def
      checked_one_second ticks_max_def)
      (simp add: example_config_def checked_one_second, rule exI [of _ 1000000000], simp)
qed

definition delivered_run :: "client \<times> worker" where
  "delivered_run = run_worker (\<lambda>e. []) (replicate 19 good_example) (started idle_client, worker_start idle_client)"

lemma delivered_run_fields:
  "wait_answer 1 (fst delivered_run)" "sent_commands (fst delivered_run) = sent_commands idle_client @ [StartRealtime]"
  using fresh_session_run [OF good_example, of "\<lambda>e. []"]
  by (auto simp: delivered_run_def example_config_def default_config_def example_record_def
      classify_status_def ft_observe_def ft_begin_session_def ft_init_def ft_advances_def case_prod_unfold Let_def)

theorem fresh_session_delivers_witness:
  "\<exists>cfg'. latest (fst delivered_run) = Some (make_sample example_record 1000 cfg')"
  using fresh_session_delivers [OF good_example, of "\<lambda>e. []"]
  by (auto simp: delivered_run_def example_config_def default_config_def example_record_def
      classify_status_def ft_observe_def ft_begin_session_def ft_init_def ft_advances_def case_prod_unfold Let_def
      good_example_def)

definition delivered_sys :: sys where
  "delivered_sys = idle_sys\<lparr>s_client := fst delivered_run, s_worker := snd delivered_run\<rparr>"

lemma reachable_delivered: "reachable (\<lambda>e. []) delivered_sys"
  using reachable_run [OF reachable_started, of "\<lambda>e. []" "replicate 19 good_example"] started_alive
  by (simp add: delivered_sys_def delivered_run_def)

theorem first_sample_available_witness:
  "latest (s_client delivered_sys) \<noteq> None"
  using first_sample_available [OF reachable_delivered, of 1000 fone "started idle_client" 1000001000 1]
  by (simp add: wait_begin_def checked_deadline_def checked_one_second ticks_max_def delivered_sys_def delivered_run_fields)

theorem failstop_latches_fault_witness:
  "latch (fst (run_worker (\<lambda>e. []) (replicate 4 quiet_answer)
     (idle_client\<lparr>cl_config := example_config\<lparr>recovery_policy := FailStop\<rparr>\<rparr>,
      example_worker\<lparr>pc_at := Judging \<lparr>so_result = SR_MalformedStorm, so_message = [], received_valid_record = True\<rparr>\<rparr>)))
   = FC_MalformedStorm"
  using failstop_latches_fault [of "idle_client\<lparr>cl_config := example_config\<lparr>recovery_policy := FailStop\<rparr>\<rparr>"
    "\<lparr>so_result = SR_MalformedStorm, so_message = [], received_valid_record = True\<rparr>"
    "example_worker\<lparr>pc_at := Judging \<lparr>so_result = SR_MalformedStorm, so_message = [], received_valid_record = True\<rparr>\<rparr>"
    "\<lambda>e. []" quiet_answer quiet_answer quiet_answer quiet_answer]
  by (simp add: case_prod_unfold Let_def numeral_eq_Suc)

end
