(* ===== verification/Client_Automaton.thy ===== *)
theory Client_Automaton
  imports Client_System
begin

text \<open>
  What a client promises to its user, as a small automaton over the published state, the
  fault, the generation and the sample of the generation, and the proof that the worker and
  the public operations, in every interleaving, implement it. No code is modelled here.
\<close>

section \<open>The automaton\<close>

record view =
  phase :: client_state
  fault :: fault_code
  epoch :: u64
  reading :: "sample option"

definition view_init :: view where
  "view_init = \<lparr>phase = CS_Stopped, fault = FC_None, epoch = 0, reading = None\<rparr>"

inductive view_step :: "view \<Rightarrow> view \<Rightarrow> bool" where
  view_start: "phase v \<in> {CS_Stopped, CS_Faulted} \<Longrightarrow>
     view_step v \<lparr>phase = CS_Connecting, fault = FC_None, epoch = epoch v + 1, reading = None\<rparr>"
| view_connect: "phase v \<in> {CS_Connecting, CS_Backoff} \<Longrightarrow> view_step v (v\<lparr>phase := CS_Connecting\<rparr>)"
| view_stream: "phase v \<in> {CS_Connecting, CS_Streaming} \<Longrightarrow> view_step v (v\<lparr>phase := CS_Streaming\<rparr>)"
| view_publish: "phase v = CS_Streaming \<Longrightarrow> view_step v (v\<lparr>reading := Some s\<rparr>)"
| view_backoff: "phase v \<in> {CS_Connecting, CS_Streaming} \<Longrightarrow> view_step v (v\<lparr>phase := CS_Backoff\<rparr>)"
| view_fail: "fault v = FC_None \<Longrightarrow> phase v \<in> {CS_Connecting, CS_Streaming, CS_Backoff} \<Longrightarrow> f \<noteq> FC_None \<Longrightarrow>
     view_step v (v\<lparr>phase := CS_Faulted, fault := f\<rparr>)"
| view_stop: "fault v = FC_None \<Longrightarrow> view_step v (v\<lparr>phase := CS_Stopped\<rparr>)"

inductive view_reachable :: "view \<Rightarrow> bool" where
  view_begins: "view_reachable view_init"
| view_continues: "view_reachable v \<Longrightarrow> view_step v v' \<Longrightarrow> view_reachable v'"

inductive_cases view_stepE: "view_step v v'"

text \<open>What the automaton alone gives.\<close>

lemma view_faulted: "view_reachable v \<Longrightarrow> phase v = CS_Faulted \<longleftrightarrow> fault v \<noteq> FC_None"
  by (induction rule: view_reachable.induct) (auto simp: view_init_def elim: view_stepE)

lemma view_monotone:
  "view_step v v' \<Longrightarrow> epoch v' = epoch v \<Longrightarrow> (fault v \<noteq> FC_None \<longrightarrow> fault v' = fault v)
    \<and> (reading v \<noteq> None \<longrightarrow> reading v' \<noteq> None)"
  by (auto elim: view_stepE)

section \<open>The abstraction\<close>

definition view_of :: "client \<Rightarrow> view" where
  "view_of c =
     \<lparr>phase = h_state (health c), fault = latch c, epoch = generation c,
      reading = (if generation c \<noteq> 0 \<and> delivered_generation c = generation c then latest c else None)\<rparr>"

text \<open>Where the worker is tells which states can be published.\<close>

fun phases :: "pc \<Rightarrow> client_state list" where
  "phases RunHead = [CS_Connecting, CS_Backoff]"
| "phases SessionEnter = [CS_Connecting, CS_Backoff]"
| "phases SessionStopCheck = [CS_Connecting]"
| "phases Discovering = [CS_Connecting]"
| "phases ConfiguredCheck = [CS_Connecting]"
| "phases Connecting = [CS_Connecting]"
| "phases SendingStart = [CS_Connecting]"
| "phases ResettingTrackers = [CS_Connecting]"
| "phases ArmDeadline = [CS_Connecting]"
| "phases (InCallback s out d) = [CS_Streaming]"
| "phases (CallbackFailed m out d) = [CS_Streaming]"
| "phases (Delivering s out d) = [CS_Streaming]"
| "phases ArmingBackoff = [CS_Backoff]"
| "phases (BackingOff t) = [CS_Backoff]"
| "phases (RunFailed e) = [CS_Connecting, CS_Streaming, CS_Backoff]"
| "phases FinishClosing = [CS_Connecting, CS_Streaming, CS_Backoff, CS_Faulted]"
| "phases FinishExiting = [CS_Connecting, CS_Streaming, CS_Backoff, CS_Faulted]"
| "phases FinishState = [CS_Connecting, CS_Streaming, CS_Backoff, CS_Faulted]"
| "phases Exited = [CS_Stopped, CS_Faulted]"
| "phases p = [CS_Connecting, CS_Streaming]"

definition phase_inv :: "client \<Rightarrow> worker \<Rightarrow> bool" where
  "phase_inv c w \<longleftrightarrow> h_state (health c) \<in> set (phases (pc_at w))"

lemma phase_keeps [simp]:
  "h_state (health (apply_configuration cfg c)) = h_state (health c)"
  "h_state (health (deliver_sample s c)) = h_state (health c)"
  "h_state (health (record_callback_error m c)) = h_state (health c)"
  "h_state (health (close_session strerror a c)) = h_state (health c)"
  by (simp_all add: apply_configuration_def deliver_sample_def record_callback_error_def close_session_def
      stop_streaming_def Let_def split: option.split)

lemma phase_inv_step:
  assumes "phase_inv (fst s) (snd s)" and "fault_inv (fst s) (snd s)"
  shows "phase_inv (fst (worker_step strerror a s)) (snd (worker_step strerror a s))"
proof (cases "pc_at (snd s)")
  case (ObservingRecord rec received_at deadline)
  then show ?thesis using assms
    by (cases "sensor_configuration (health (fst s))")
      (auto simp: phase_inv_def worker_step_def Let_def observe_record_None observe_record_Some
        observed_client_def counted_health_def after_record_def end_session_def split: option.split)
qed (use assms in \<open>auto simp: phase_inv_def fault_inv_def fault_consistent_def worker_step_def Let_def case_prod_unfold
      faulted_iff after_record_def end_session_def health_set_fault split: sum.split exn.split option.split\<close>)

section \<open>The worker implements the automaton\<close>

lemma view_of_cong:
  "h_state (health c') = h_state (health c) \<Longrightarrow> latch c' = latch c \<Longrightarrow> generation c' = generation c \<Longrightarrow>
   delivered_generation c' = delivered_generation c \<Longrightarrow> latest c' = latest c \<Longrightarrow> view_of c' = view_of c"
  by (simp add: view_of_def)

lemma view_keeps [simp]:
  "view_of (apply_configuration cfg c) = view_of c"
  "view_of (record_callback_error m c) = view_of c"
  "view_of (close_session strerror a c) = view_of c"
  "view_of (fst (send_command strerror a cmd c)) = view_of c"
  by (rule view_of_cong; simp add: apply_configuration_def record_callback_error_def close_session_def
      stop_streaming_def Let_def split: option.split)+

lemma view_set_fault:
  "latch c = FC_None \<Longrightarrow> view_of (set_fault f m c) = (view_of c)\<lparr>phase := CS_Faulted, fault := f\<rparr>"
  by (simp add: view_of_def set_fault_def latch_publish_def)

lemma view_observed:
  "view_of (observed_client rec r c) = (view_of c)\<lparr>phase := CS_Streaming\<rparr>"
  by (simp add: view_of_def observed_client_def counted_health_def)

lemma view_delivered:
  "view_of (deliver_sample s c) = (if generation c = 0 then view_of c else (view_of c)\<lparr>reading := Some s\<rparr>)"
  by (simp add: view_of_def deliver_sample_def Let_def)

lemma fault_for_None: "fault_for r = FC_None \<longleftrightarrow> r = SR_Stopped"
  by (cases r) simp_all

lemma view_fields [simp]:
  "phase (view_of c) = h_state (health c)" "fault (view_of c) = latch c" "epoch (view_of c) = generation c"
  by (simp_all add: view_of_def)

lemma worker_simulates:
  assumes "phase_inv (fst s) (snd s)" and "fault_inv (fst s) (snd s)"
  shows "view_of (fst (worker_step strerror a s)) = view_of (fst s)
    \<or> view_step (view_of (fst s)) (view_of (fst (worker_step strerror a s)))"
proof (cases "pc_at (snd s)")
  case SessionEnter
  then have "view_of (fst (worker_step strerror a s)) = (view_of (fst s))\<lparr>phase := CS_Connecting\<rparr>"
    by (simp add: worker_step_def view_of_def)
  then show ?thesis using assms SessionEnter by (simp add: phase_inv_def view_connect)
next
  case (ObservingRecord rec received_at deadline)
  show ?thesis
  proof (cases "sensor_configuration (health (fst s))")
    case None
    then show ?thesis using ObservingRecord
      by (simp add: worker_step_def observe_record_None view_of_def)
  next
    case (Some cfg)
    then have "view_of (fst (worker_step strerror a s)) = (view_of (fst s))\<lparr>phase := CS_Streaming\<rparr>"
      using ObservingRecord by (simp add: worker_step_def observe_record_Some view_observed)
    then show ?thesis using assms ObservingRecord by (simp add: phase_inv_def view_stream)
  qed
next
  case (Delivering smp out d)
  then show ?thesis using assms by (simp add: worker_step_def view_delivered phase_inv_def view_publish)
next
  case (Judging oc)
  then show ?thesis using assms
    by (auto simp: worker_step_def Let_def fault_inv_def closing_pc_def view_set_fault phase_inv_def fault_for_None
        intro!: view_fail)
next
  case (RunFailed e)
  then show ?thesis using assms
    by (auto simp: worker_step_def Let_def fault_inv_def closing_pc_def view_set_fault phase_inv_def intro!: view_fail)
next
  case (EnteringBackoff m)
  then have "view_of (fst (worker_step strerror a s)) = (view_of (fst s))\<lparr>phase := CS_Backoff\<rparr>"
    by (simp add: worker_step_def view_of_def)
  then show ?thesis using assms EnteringBackoff by (simp add: phase_inv_def view_backoff)
next
  case FinishState
  then have "view_of (fst (worker_step strerror a s)) =
      (if faulted (fst s) then view_of (fst s) else (view_of (fst s))\<lparr>phase := CS_Stopped\<rparr>)"
    by (simp add: worker_step_def view_of_def)
  then show ?thesis by (simp add: faulted_iff view_stop)
qed (auto simp: worker_step_def Let_def case_prod_unfold split: sum.split exn.split option.split intro: view_of_cong)

section \<open>So does the system\<close>

lemma view_mark_stopped: "view_of (mark_stopped c) = view_of c \<or> view_step (view_of c) (view_of (mark_stopped c))"
proof -
  have "view_of (mark_stopped c) = (if faulted c then view_of c else (view_of c)\<lparr>phase := CS_Stopped\<rparr>)"
    by (simp add: mark_stopped_def view_of_def)
  then show ?thesis by (simp add: faulted_iff view_stop)
qed

lemma stop_decide_stops:
  assumes "stop_decide self c = (c', r)"
  shows "view_of c' = view_of c \<or> \<not> worker_alive c \<and> c' = mark_stopped c"
  using assms by (auto simp: stop_decide_def worker_alive_def view_of_def split: if_splits)

lemma start_check_view: "start_check self c = (c', r) \<Longrightarrow> view_of c' = view_of c"
  using start_check_cases [of self c c' r] by (auto simp: view_of_def)

lemma view_start:
  assumes "h_state (health c) \<in> {CS_Stopped, CS_Faulted}"
  shows "view_step (view_of c) (view_of (start_committed (start_reset callback c)))"
proof -
  have "view_of (start_committed (start_reset callback c)) =
      \<lparr>phase = CS_Connecting, fault = FC_None, epoch = epoch (view_of c) + 1, reading = None\<rparr>"
    by (simp add: view_of_def start_committed_def start_reset_def latch_reset_def)
  then show ?thesis using assms view_step.view_start [of "view_of c"] by simp
qed

lemma sys_step_simulates:
  assumes "sys_step strerror s s'" and "reachable strerror s" and "phase_inv (s_client s) (s_worker s)"
  shows "view_of (s_client s') = view_of (s_client s) \<or> view_step (view_of (s_client s)) (view_of (s_client s'))"
  using assms
proof (induction rule: sys_step_induct)
  case (step_worker s a c' w')
  then have "fault_inv (s_client s) (s_worker s)" using reachable_parts(1,2) by (simp add: fault_inv_def)
  then show ?case
    using step_worker worker_simulates [of "(s_client s, s_worker s)" strerror a] by simp
next
  case (step_stop_decide s self c' r)
  then show ?case using stop_decide_stops [of self "s_client s" c' r] view_mark_stopped [of "s_client s"] by auto
next
  case (step_stop_joined s)
  have "view_of (stop_joined (s_client s)) = view_of (mark_stopped (s_client s))"
    by (simp add: stop_joined_def view_of_def)
  then show ?case using view_mark_stopped [of "s_client s"] by simp
next
  case (step_start_check s self c' r)
  then show ?case using start_check_view [of self "s_client s" c' r] by simp
next
  case (step_start s self c' callback)
  then have "c' = s_client s" and "h_state (health (s_client s)) \<in> {CS_Stopped, CS_Faulted}"
    using start_check_Proceeds [of self "s_client s" c'] reachable_parts(4,7) by (auto simp: rest_inv_def)
  then show ?case using view_start [of "s_client s" callback] by simp
next
  case (step_start_failed s self c' callback)
  then show ?case
    using start_check_Proceeds [of self "s_client s" c'] start_rollback_reset [OF reachable_parts(1)] by simp
next
  case (step_bias answer1 answer2 s c' r)
  then show ?case using bias_keeps [OF step_bias.hyps] by (simp add: view_of_def)
next
  case (step_health now s c' h)
  then show ?case by (auto simp: take_health_def Let_def view_of_def)
qed (simp_all add: stop_request_def start_reaped_def view_of_def stop_command_def stop_streaming_def
  transport_shutdown_def Let_def)

lemma phase_inv_exited: "pc_at w = Exited \<Longrightarrow> rest_inv c w \<Longrightarrow> phase_inv c w"
  by (simp add: phase_inv_def rest_inv_def)

lemma sys_step_phase:
  assumes "sys_step strerror s s'" and "reachable strerror s" and "phase_inv (s_client s) (s_worker s)"
  shows "phase_inv (s_client s') (s_worker s')"
proof (cases "pc_at (s_worker s') = Exited")
  case True
  then show ?thesis using reachable_parts(4) [OF reachable_step [OF assms(2,1)]] by (rule phase_inv_exited)
next
  case False
  from assms False show ?thesis
  proof (induction rule: sys_step_induct)
    case (step_worker s a c' w')
    then have "fault_inv (s_client s) (s_worker s)" using reachable_parts(1,2) by (simp add: fault_inv_def)
    then show ?case
      using step_worker phase_inv_step [of "(s_client s, s_worker s)" strerror a] by simp
  next
    case (step_stop_decide s self c' r)
    then have "worker_alive (s_client s)" using reachable_parts(7) [of strerror s] by auto
    then have "view_of c' = view_of (s_client s)"
      using step_stop_decide stop_decide_stops [of self "s_client s" c' r] by auto
    then show ?case using step_stop_decide by (simp add: phase_inv_def view_of_def)
  next
    case (step_start_check s self c' r)
    then show ?case
      using start_check_view [of self "s_client s" c' r] by (simp add: phase_inv_def view_of_def)
  next
    case (step_start s self c' callback)
    then show ?case by (simp add: phase_inv_def worker_start_def start_committed_def start_reset_def)
  next
    case (step_start_failed s self c' callback)
    then show ?case
      using start_check_Proceeds [of self "s_client s" c'] start_rollback_reset [OF reachable_parts(1)] by simp
  next
    case (step_bias answer1 answer2 s c' r)
    then show ?case using bias_keeps [OF step_bias.hyps] by (simp add: phase_inv_def)
  next
    case (step_health now s c' h)
    then show ?case by (auto simp: take_health_def Let_def phase_inv_def)
  qed (simp_all add: stop_request_def phase_inv_def)
qed

lemma reachable_phase: "reachable strerror s \<Longrightarrow> phase_inv (s_client s) (s_worker s)"
proof (induction rule: reachable.induct)
  case (reachable_initial s)
  then have "reachable strerror s" by (rule reachable.reachable_initial)
  then show ?case using reachable_initial reachable_parts(4) [of strerror s] phase_inv_exited
    by (auto simp: initial_def)
next
  case (reachable_step s s')
  then show ?case by (blast intro: sys_step_phase)
qed

lemma view_client_init: "client_init now cfg = Inr c \<Longrightarrow> view_of c = view_init"
  by (auto simp: client_init_def view_of_def view_init_def default_health_def)

lemma view_initial: "initial s \<Longrightarrow> view_of (s_client s) = view_init"
  using view_client_init by (auto simp: initial_def)

lemma reachable_view: "reachable strerror s \<Longrightarrow> view_reachable (view_of (s_client s))"
proof (induction rule: reachable.induct)
  case (reachable_initial s)
  then show ?case by (simp add: view_initial view_begins)
next
  case (reachable_step s s')
  then show ?case
    using sys_step_simulates [OF reachable_step.hyps(2,1) reachable_phase [OF reachable_step.hyps(1)]]
    by (auto intro: view_continues)
qed



end
