(* ===== verification/Condition_Waits.thy ===== *)
theory Condition_Waits
  imports Prelude
begin

text \<open>
  The condition variables of the client, \<open>src/core/src/detail/client_impl.cpp\<close>, and of the
  deferred destroyer, \<open>src/core/src/client.cpp\<close>. A thread that waits checks its condition
  with its mutex held and blocks; a thread that makes the condition true changes a flag and
  notifies. A notification only reaches a thread that is blocked already, so it is lost when
  the flag changes between the check and the blocking. That cannot happen when the flag is
  changed under the mutex of the wait; which pairs of the code do that, and which do not, is
  shown here on the locks, the changes and the notifications of each writer, in their order.
\<close>

section \<open>Locks, flags and notifications\<close>

datatype mutex = Lifecycle_Mutex | Command_Mutex | Record_Mutex | Data_Mutex | Queue_Mutex

datatype condvar = Lifecycle_Cv | First_Sample_Cv | Queue_Cv

text \<open>
  What the conditions read: \<open>stopping_\<close>, \<open>worker_exited_\<close>, \<open>!faulted()\<close> and \<open>faulted()\<close>,
  \<open>delivered_generation_ == captured\<close>, \<open>generation_ != captured\<close>, \<open>!joining_\<close> and a queue that
  is not empty.
\<close>

datatype flag = Stopping | Worker_Exited | Unfaulted | Faulted | Delivered | Regenerated | Unjoined | Pending

datatype action = Acquire mutex | Release mutex | Raise flag | Lower flag | Notify condvar

section \<open>The waits\<close>

text \<open>A wait ends when one of its flags is up.\<close>

record cv_wait =
  wt_mutex :: mutex
  wt_cv :: condvar
  wt_flags :: "flag list"

definition wait_met :: "cv_wait \<Rightarrow> flag set \<Rightarrow> bool" where
  "wait_met w raised \<longleftrightarrow> list_ex (\<lambda>f. f \<in> raised) (wt_flags w)"

definition joining_wait :: cv_wait where
  "joining_wait = \<lparr>wt_mutex = Lifecycle_Mutex, wt_cv = Lifecycle_Cv, wt_flags = [Unjoined]\<rparr>"

definition exited_wait :: cv_wait where
  "exited_wait = \<lparr>wt_mutex = Lifecycle_Mutex, wt_cv = Lifecycle_Cv, wt_flags = [Worker_Exited, Unfaulted]\<rparr>"

definition first_sample_wait :: cv_wait where
  "first_sample_wait = \<lparr>wt_mutex = Data_Mutex, wt_cv = First_Sample_Cv,
     wt_flags = [Regenerated, Delivered, Stopping, Faulted]\<rparr>"

definition backoff_wait :: cv_wait where
  "backoff_wait = \<lparr>wt_mutex = Data_Mutex, wt_cv = First_Sample_Cv, wt_flags = [Stopping]\<rparr>"

definition queue_wait :: cv_wait where
  "queue_wait = \<lparr>wt_mutex = Queue_Mutex, wt_cv = Queue_Cv, wt_flags = [Pending]\<rparr>"

section \<open>The writers\<close>

definition delivery_actions :: "action list" where
  "delivery_actions = [Acquire Record_Mutex, Acquire Data_Mutex, Raise Delivered, Release Data_Mutex,
     Release Record_Mutex, Notify First_Sample_Cv, Notify Lifecycle_Cv]"

text \<open>\<open>set_fault\<close>, with \<open>FaultLatch::publish\<close> inside.\<close>

definition set_fault_actions :: "action list" where
  "set_fault_actions = [Acquire Data_Mutex, Raise Faulted, Lower Unfaulted, Release Data_Mutex,
     Notify First_Sample_Cv, Notify Lifecycle_Cv]"

text \<open>A \<open>start\<close> that creates its thread; the latch is reset under the data mutex.\<close>

definition start_actions :: "action list" where
  "start_actions = [Acquire Lifecycle_Mutex, Acquire Record_Mutex, Release Record_Mutex, Acquire Data_Mutex,
     Lower Faulted, Raise Unfaulted, Raise Regenerated, Lower Delivered, Release Data_Mutex, Lower Stopping,
     Lower Worker_Exited, Notify First_Sample_Cv, Notify Lifecycle_Cv, Release Lifecycle_Mutex]"

definition reaped_actions :: "action list" where
  "reaped_actions = [Acquire Lifecycle_Mutex, Raise Unjoined, Release Lifecycle_Mutex, Notify Lifecycle_Cv]"

definition joined_actions :: "action list" where
  "joined_actions = [Acquire Lifecycle_Mutex, Acquire Data_Mutex, Release Data_Mutex, Raise Unjoined,
     Release Lifecycle_Mutex, Notify Lifecycle_Cv, Notify First_Sample_Cv]"

text \<open>The sections of \<open>stop\<close> on a running client.\<close>

definition stop_actions :: "action list" where
  "stop_actions = [Acquire Lifecycle_Mutex, Raise Stopping, Notify First_Sample_Cv, Notify Lifecycle_Cv,
     Acquire Command_Mutex, Release Command_Mutex, Lower Unjoined, Release Lifecycle_Mutex]"

text \<open>\<open>finish_session\<close> of a faulted worker.\<close>

definition finish_actions :: "action list" where
  "finish_actions = [Acquire Command_Mutex, Release Command_Mutex, Raise Worker_Exited,
     Notify First_Sample_Cv, Notify Lifecycle_Cv]"

definition enqueue_actions :: "action list" where
  "enqueue_actions = [Acquire Queue_Mutex, Raise Pending, Release Queue_Mutex, Notify Queue_Cv]"

section \<open>A wait beside a writer\<close>

text \<open>\<open>Checked\<close> holds the mutex and has seen the condition false; \<open>Blocked\<close> has released it.\<close>

datatype wait_place = Outside | Checked | Blocked | Through

record race =
  rc_raised :: "flag set"
  rc_held :: "mutex set"
  rc_place :: wait_place
  rc_program :: "action list"

datatype mover = Waiter | Writer | Spurious

text \<open>One move of one thread, \<open>None\<close> for a thread that cannot move.\<close>

definition waiter_move :: "cv_wait \<Rightarrow> race \<Rightarrow> race option" where
  "waiter_move w r =
     (case rc_place r of
        Outside \<Rightarrow> if wt_mutex w \<in> rc_held r then None
          else Some (r\<lparr>rc_place := (if wait_met w (rc_raised r) then Through else Checked)\<rparr>)
      | Checked \<Rightarrow> Some (r\<lparr>rc_place := Blocked\<rparr>)
      | Blocked \<Rightarrow> None
      | Through \<Rightarrow> None)"

definition writer_move :: "cv_wait \<Rightarrow> race \<Rightarrow> race option" where
  "writer_move w r =
     (case rc_program r of
        [] \<Rightarrow> None
      | Acquire m # p \<Rightarrow> if rc_place r = Checked \<and> m = wt_mutex w then None
          else Some (r\<lparr>rc_held := insert m (rc_held r), rc_program := p\<rparr>)
      | Release m # p \<Rightarrow> Some (r\<lparr>rc_held := rc_held r - {m}, rc_program := p\<rparr>)
      | Raise f # p \<Rightarrow> Some (r\<lparr>rc_raised := insert f (rc_raised r), rc_program := p\<rparr>)
      | Lower f # p \<Rightarrow> Some (r\<lparr>rc_raised := rc_raised r - {f}, rc_program := p\<rparr>)
      | Notify cv # p \<Rightarrow> Some (r\<lparr>rc_place := (if rc_place r = Blocked \<and> cv = wt_cv w then Outside else rc_place r),
          rc_program := p\<rparr>))"

fun race_move :: "cv_wait \<Rightarrow> mover \<Rightarrow> race \<Rightarrow> race option" where
  "race_move w Waiter r = waiter_move w r"
| "race_move w Writer r = writer_move w r"
| "race_move w Spurious r = (if rc_place r = Blocked then Some (r\<lparr>rc_place := Outside\<rparr>) else None)"

fun race_run :: "cv_wait \<Rightarrow> mover list \<Rightarrow> race \<Rightarrow> race option" where
  "race_run w [] r = Some r"
| "race_run w (m # ms) r = (case race_move w m r of None \<Rightarrow> None | Some r' \<Rightarrow> race_run w ms r')"

definition race_begin :: "flag set \<Rightarrow> action list \<Rightarrow> race" where
  "race_begin raised p = \<lparr>rc_raised = raised, rc_held = {}, rc_place = Outside, rc_program = p\<rparr>"

text \<open>A lost notification: the writer is done, the condition holds, and the thread still blocks.\<close>

definition wakeup_lost :: "cv_wait \<Rightarrow> race \<Rightarrow> bool" where
  "wakeup_lost w r \<longleftrightarrow> rc_program r = [] \<and> rc_place r = Blocked \<and> wait_met w (rc_raised r)"

section \<open>Guarded writers\<close>

text \<open>Every change that can end the wait is made under its mutex and followed by a notification;
  the mutex is given back.\<close>

fun guarded :: "cv_wait \<Rightarrow> bool \<Rightarrow> action list \<Rightarrow> bool" where
  "guarded w held [] = (\<not> held)"
| "guarded w held (Acquire m # p) = guarded w (wt_mutex w = m \<or> held) p"
| "guarded w held (Release m # p) = guarded w (held \<and> wt_mutex w \<noteq> m) p"
| "guarded w held (Raise f # p) = ((f \<in> set (wt_flags w) \<longrightarrow> held \<and> Notify (wt_cv w) \<in> set p) \<and> guarded w held p)"
| "guarded w held (Lower f # p) = guarded w held p"
| "guarded w held (Notify cv # p) = guarded w held p"

locale guarded_writer =
  fixes w :: cv_wait and program :: "action list"
  assumes guarded: "guarded w False program"
begin

definition race_inv :: "race \<Rightarrow> bool" where
  "race_inv r \<longleftrightarrow> guarded w (wt_mutex w \<in> rc_held r) (rc_program r)
     \<and> (rc_place r = Checked \<longrightarrow> wt_mutex w \<notin> rc_held r \<and> \<not> wait_met w (rc_raised r))
     \<and> (rc_place r = Blocked \<and> wait_met w (rc_raised r) \<longrightarrow> Notify (wt_cv w) \<in> set (rc_program r))"

lemma race_inv_waiter: "waiter_move w r = Some r' \<Longrightarrow> race_inv r \<Longrightarrow> race_inv r'"
  by (auto simp: waiter_move_def race_inv_def split: wait_place.splits if_splits)

lemma race_inv_writer:
  assumes "writer_move w r = Some r'" and "race_inv r"
  shows "race_inv r'"
proof (cases "rc_program r")
  case (Cons a p)
  then show ?thesis using assms
    by (cases a) (auto simp: writer_move_def race_inv_def wait_met_def list_ex_iff split: if_splits)
qed (use assms in \<open>simp add: writer_move_def\<close>)

lemma race_inv_move: "race_move w m r = Some r' \<Longrightarrow> race_inv r \<Longrightarrow> race_inv r'"
  
  by (cases m) (simp_all add: race_inv_waiter race_inv_writer, auto simp: race_inv_def split: if_splits)

lemma race_inv_run: "race_run w ms r = Some r' \<Longrightarrow> race_inv r \<Longrightarrow> race_inv r'"
  by (induction ms arbitrary: r) (auto split: option.splits dest: race_inv_move)

lemma comes_through:
  assumes "race_run w ms (race_begin raised program) = Some r" and "rc_program r = []" and "wait_met w (rc_raised r)"
  shows "rc_place r = Through \<or> race_move w Waiter r = Some (r\<lparr>rc_place := Through\<rparr>)"
proof -
  have "race_inv (race_begin raised program)" using guarded by (simp add: race_inv_def race_begin_def)
  from race_inv_run [OF assms(1) this] show ?thesis
    using assms(2,3) by (cases "rc_place r") (auto simp: race_inv_def waiter_move_def)
qed

end

section \<open>The pairs of the code\<close>

text \<open>The waits beside the writers that change their flags under the mutex of the wait.\<close>

interpretation joining_joined: guarded_writer joining_wait joined_actions
  by unfold_locales (simp add: joining_wait_def joined_actions_def)

interpretation joining_reaped: guarded_writer joining_wait reaped_actions
  by unfold_locales (simp add: joining_wait_def reaped_actions_def)

interpretation exited_start: guarded_writer exited_wait start_actions
  by unfold_locales (simp add: exited_wait_def start_actions_def)

interpretation sample_delivery: guarded_writer first_sample_wait delivery_actions
  by unfold_locales (simp add: first_sample_wait_def delivery_actions_def)

interpretation sample_fault: guarded_writer first_sample_wait set_fault_actions
  by unfold_locales (simp add: first_sample_wait_def set_fault_actions_def)

interpretation sample_start: guarded_writer first_sample_wait start_actions
  by unfold_locales (simp add: first_sample_wait_def start_actions_def)

interpretation queue_enqueue: guarded_writer queue_wait enqueue_actions
  by unfold_locales (simp add: queue_wait_def enqueue_actions_def)

definition guarded_pairs :: "(cv_wait \<times> action list) list" where
  "guarded_pairs = [(joining_wait, joined_actions), (joining_wait, reaped_actions), (exited_wait, start_actions),
     (first_sample_wait, delivery_actions), (first_sample_wait, set_fault_actions), (first_sample_wait, start_actions),
     (queue_wait, enqueue_actions)]"

lemma guarded_pairs_guarded: "(w, p) \<in> set guarded_pairs \<Longrightarrow> guarded_writer w p"
  using joining_joined.guarded_writer_axioms joining_reaped.guarded_writer_axioms exited_start.guarded_writer_axioms
    sample_delivery.guarded_writer_axioms sample_fault.guarded_writer_axioms sample_start.guarded_writer_axioms
    queue_enqueue.guarded_writer_axioms
  by (auto simp: guarded_pairs_def)

text \<open>
  C19: no notification is lost between the waits and the writers that change the flags under the
  mutex. However the threads interleave, once the writer is done and the condition holds the
  waiting thread is through or can go on: for the end of a join, a new start, a delivered
  sample, a latched fault and a value for the destroyer.
\<close>

theorem notifications_kept:
  assumes "(w, p) \<in> set guarded_pairs" and "race_run w ms (race_begin raised p) = Some r"
    and "rc_program r = []" and "wait_met w (rc_raised r)"
  shows "rc_place r = Through \<or> race_move w Waiter r = Some (r\<lparr>rc_place := Through\<rparr>)"
  by (rule guarded_writer.comes_through [OF guarded_pairs_guarded [OF assms(1)] assms(2-4)])

text \<open>A thread that blocks before the sample is delivered can come through.\<close>

theorem notifications_kept_witness:
  "case race_run first_sample_wait ([Waiter, Waiter] @ replicate 7 Writer) (race_begin {} delivery_actions) of
     Some r \<Rightarrow> race_move first_sample_wait Waiter r = Some (r\<lparr>rc_place := Through\<rparr>)
   | None \<Rightarrow> False"
proof -
  let ?ms = "[Waiter, Waiter] @ replicate 7 Writer"
  let ?r = "\<lparr>rc_raised = {Delivered}, rc_held = {}, rc_place = Outside, rc_program = []\<rparr>"
  have run: "race_run first_sample_wait ?ms (race_begin {} delivery_actions) = Some ?r"
    by (simp add: eval_nat_numeral race_begin_def delivery_actions_def first_sample_wait_def waiter_move_def writer_move_def
        wait_met_def insert_commute)
  have mem: "(first_sample_wait, delivery_actions) \<in> set guarded_pairs" by (simp add: guarded_pairs_def)
  have "wait_met first_sample_wait {Delivered}" by (simp add: wait_met_def first_sample_wait_def)
  then show ?thesis unfolding run using notifications_kept [OF mem run] by simp
qed

section \<open>The notifications that can be lost\<close>

text \<open>
  \<open>stopping_\<close> is raised under the lifecycle mutex, but the backoff of the worker and the wait for
  the first sample check it under the data mutex; \<open>worker_exited_\<close> is raised under no mutex at
  all. When the change and its notification fall between the check and the blocking, the thread
  blocks on a condition that holds, and no thread of the race can move any more. The first two
  waits have deadlines, the backoff delay and the caller's timeout, so stopping is only delayed;
  the wait of \<open>start\<close> for a faulted worker has none.
\<close>

definition unguarded_pairs :: "(cv_wait \<times> action list) list" where
  "unguarded_pairs = [(backoff_wait, stop_actions), (first_sample_wait, stop_actions), (exited_wait, finish_actions)]"

lemma notifications_lost:
  assumes "(w, p) \<in> set unguarded_pairs"
  shows "\<exists>r. race_run w ([Waiter] @ replicate (length p) Writer @ [Waiter]) (race_begin {Unjoined} p) = Some r
    \<and> wakeup_lost w r \<and> race_move w Waiter r = None \<and> race_move w Writer r = None"
proof -
  note defs = eval_nat_numeral race_begin_def waiter_move_def writer_move_def wait_met_def wakeup_lost_def
  consider "w = backoff_wait" "p = stop_actions" | "w = first_sample_wait" "p = stop_actions"
    | "w = exited_wait" "p = finish_actions"
    using assms by (auto simp: unguarded_pairs_def)
  then show ?thesis
  proof cases
    case 1
    then show ?thesis by (simp add: defs backoff_wait_def stop_actions_def)
  next
    case 2
    then show ?thesis by (simp add: defs first_sample_wait_def stop_actions_def)
  next
    case 3
    then show ?thesis by (simp add: defs exited_wait_def finish_actions_def)
  qed
qed

lemma exited_wait_lost:
  "\<exists>r. race_run exited_wait ([Waiter] @ replicate (length finish_actions) Writer @ [Waiter])
      (race_begin {Unjoined} finish_actions) = Some r \<and> wakeup_lost exited_wait r
    \<and> race_move exited_wait Waiter r = None \<and> race_move exited_wait Writer r = None"
  by (rule notifications_lost) (simp add: unguarded_pairs_def)

end
