(* ===== verification/Xml_Config.thy ===== *)
theory Xml_Config
  imports Types
begin

text \<open>
  The parser of the sensor's configuration document,
  \<open>src/core/src/detail/xml_config.cpp\<close>. The code walks a position through the document;
  the model walks the suffix that starts there. The stack of open elements has its top,
  \<open>elements.back()\<close>, at the head of the list.
\<close>

section \<open>Scanning\<close>

definition maximum_field_length :: nat where
  "maximum_field_length = 128"

definition required_tags :: "string list" where
  "required_tags = [''prodname'', ''cfgcpf'', ''cfgcpt'', ''scfgfu'', ''scfgtu'']"

definition trim_ascii_whitespace :: "string \<Rightarrow> string" where
  "trim_ascii_whitespace v = rev (dropWhile is_space (rev (dropWhile is_space v)))"

fun index_of :: "string \<Rightarrow> string list \<Rightarrow> nat \<Rightarrow> int" where
  "index_of name [] k = -1"
| "index_of name (t # ts) k = (if name = t then int k else index_of name ts (k + 1))"

definition required_tag_index :: "string \<Rightarrow> int" where
  "required_tag_index name = index_of name required_tags 0"

text \<open>\<open>find(needle, from)\<close> on the suffix: the offset of the first occurrence.\<close>

fun find_sub :: "string \<Rightarrow> string \<Rightarrow> nat option" where
  "find_sub needle [] = (if needle = [] then Some 0 else None)"
| "find_sub needle (c # cs) =
     (if take (length needle) (c # cs) = needle then Some 0
      else map_option Suc (find_sub needle cs))"

text \<open>The end of a tag: the first \<open>>\<close> outside quotes; \<open>CHR 0x00\<close> is "no open quote".\<close>

fun find_tag_end :: "char \<Rightarrow> string \<Rightarrow> nat option" where
  "find_tag_end quote [] = None"
| "find_tag_end quote (c # cs) =
     (if quote \<noteq> CHR 0x00
      then map_option Suc (find_tag_end (if c = quote then CHR 0x00 else quote) cs)
      else if c = CHR 0x27 \<or> c = dquote then map_option Suc (find_tag_end c cs)
      else if c = CHR ''>'' then Some 0
      else map_option Suc (find_tag_end quote cs))"

section \<open>The element walk\<close>

record open_element =
  el_name :: string
  required_index :: int

record parser =
  elements :: "open_element list"
  field_texts :: "string list"
  seen :: "bool list"

definition parser_init :: parser where
  "parser_init = \<lparr>elements = [], field_texts = replicate 5 [], seen = replicate 5 False\<rparr>"

definition inside_required :: "parser \<Rightarrow> bool" where
  "inside_required p \<longleftrightarrow> elements p \<noteq> [] \<and> required_index (hd (elements p)) \<ge> 0"

definition append_required_text :: "string \<Rightarrow> parser \<Rightarrow> parser" where
  "append_required_text text p =
     (if inside_required p
      then let i = nat (required_index (hd (elements p)))
           in p\<lparr>field_texts := (field_texts p)[i := field_texts p ! i @ text]\<rparr>
      else p)"

definition discovery_error :: "string \<Rightarrow> 'a result" where
  "discovery_error m = Inl (DiscoveryError (''sensor configuration '' @ m))"

definition field_error :: "nat \<Rightarrow> string \<Rightarrow> 'a result" where
  "field_error i m = discovery_error (''field '' @ [CHR 0x27] @ required_tags ! i @ [CHR 0x27] @ m)"

definition close_tag :: "string \<Rightarrow> parser \<Rightarrow> parser result" where
  "close_tag tag p =
     (let name = trim_ascii_whitespace (tl tag)
      in if name = [] \<or> list_ex (\<lambda>c. is_space c \<or> c = CHR ''/'') name \<or> elements p = []
            \<or> el_name (hd (elements p)) \<noteq> name
         then discovery_error ''contains malformed element nesting''
         else Inr (p\<lparr>elements := tl (elements p)\<rparr>))"

definition open_tag :: "string \<Rightarrow> parser \<Rightarrow> parser result" where
  "open_tag tag0 p =
     (let self_closing = (last tag0 = CHR ''/'');
          tag = (if self_closing then trim_ascii_whitespace (butlast tag0) else tag0);
          name = takeWhile (\<lambda>c. \<not> is_space c) tag
      in if name = [] \<or> hd name = CHR ''/'' then discovery_error ''contains malformed markup''
         else let r = required_tag_index name
         in if inside_required p then discovery_error ''fields must contain text only''
         else if r \<ge> 0 \<and> seen p ! nat r then field_error (nat r) '' must appear exactly once''
         else let p1 = (if r \<ge> 0 then p\<lparr>seen := (seen p)[nat r := True]\<rparr> else p)
         in Inr (if self_closing then p1
                 else p1\<lparr>elements := \<lparr>el_name = name, required_index = r\<rparr> # elements p1\<rparr>))"

definition skip_until :: "string \<Rightarrow> nat \<Rightarrow> string \<Rightarrow> string \<Rightarrow> (string \<times> string) result" where
  "skip_until close n m err =
     (case find_sub close (drop n m) of
        None \<Rightarrow> discovery_error err
      | Some k \<Rightarrow> Inr (take k (drop n m), drop (n + k + length close) m))"

text \<open>One iteration of the loop: the text before the next markup, then the markup.\<close>

definition xml_step :: "parser \<Rightarrow> string \<Rightarrow> (parser \<times> string) result" where
  "xml_step p0 xml =
     (let text = takeWhile (\<lambda>c. c \<noteq> CHR ''<'') xml;
          m = dropWhile (\<lambda>c. c \<noteq> CHR ''<'') xml;
          p = append_required_text text p0
      in if m = [] then Inr (p, [])
         else if take 4 m = ''<!--''
         then and_then (skip_until ''-->'' 4 m ''contains an unterminated comment'')
                (\<lambda>(_, rest). Inr (p, rest))
         else if take 9 m = ''<![CDATA[''
         then and_then (skip_until '']]>'' 9 m ''contains unterminated CDATA'')
                (\<lambda>(t, rest). Inr (append_required_text t p, rest))
         else if take 2 m = ''<?''
         then and_then (skip_until ''?>'' 2 m ''contains unterminated markup'')
                (\<lambda>(_, rest). Inr (p, rest))
         else if take 2 m = ''<!'' then discovery_error ''contains unsupported markup''
         else case find_tag_end (CHR 0x00) (tl m) of
           None \<Rightarrow> discovery_error ''contains unterminated markup''
         | Some k \<Rightarrow>
             (let tag = trim_ascii_whitespace (take k (tl m))
              in if tag = [] then discovery_error ''contains malformed markup''
                 else and_then (if hd tag = CHR ''/'' then close_tag tag p else open_tag tag p)
                        (\<lambda>p'. Inr (p', drop (k + 2) m))))"

lemma dropWhile_shorter: "length (dropWhile P xs) \<le> length xs"
  by (induction xs) auto

lemma skip_until_shorter:
  assumes "skip_until close n m err = Inr (t, rest)" and "m \<noteq> []" and "0 < n"
  shows "length rest < length m"
  using assms by (auto simp: skip_until_def discovery_error_def split: option.splits)

lemma xml_step_shorter:
  assumes "xml_step p xml = Inr (p', rest)" and "xml \<noteq> []"
  shows "length rest < length xml"
proof -
  define m where "m = dropWhile (\<lambda>c. c \<noteq> CHR ''<'') xml"
  have le: "length m \<le> length xml" unfolding m_def by (rule dropWhile_shorter)
  have "m = [] \<and> rest = [] \<or> m \<noteq> [] \<and> length rest < length m"
    using assms(1) skip_until_shorter [of _ _ m _ _ rest]
    by (auto simp: xml_step_def Let_def m_def [symmetric] discovery_error_def
        split: if_splits option.splits prod.splits)
  with le assms(2) show ?thesis by auto
qed

function xml_loop :: "parser \<Rightarrow> string \<Rightarrow> parser result" where
  "xml_loop p xml =
     (if xml = [] then Inr p
      else case xml_step p xml of Inl e \<Rightarrow> Inl e | Inr (p', rest) \<Rightarrow> xml_loop p' rest)"
  by pat_completeness auto
termination
  by (relation "measure (\<lambda>(p, xml). length xml)") (auto simp: xml_step_shorter)

declare xml_loop.simps [simp del]

section \<open>The five fields\<close>

definition finish_field :: "nat \<Rightarrow> bool \<Rightarrow> string \<Rightarrow> string result" where
  "finish_field index was_seen text =
     (if \<not> was_seen
      then if index = 0 then Inr ''ATI Net F/T''
           else field_error index '' must appear exactly once''
      else let v = trim_ascii_whitespace text
           in if v = [] then field_error index '' is empty''
              else if maximum_field_length < length v then field_error index '' is too long''
              else Inr v)"

fun finish_fields :: "nat \<Rightarrow> (bool \<times> string) list \<Rightarrow> string list result" where
  "finish_fields index [] = Inr []"
| "finish_fields index ((was_seen, text) # fs) =
     and_then (finish_field index was_seen text)
       (\<lambda>v. and_then (finish_fields (index + 1) fs) (\<lambda>vs. Inr (v # vs)))"

definition extract_required_fields :: "string \<Rightarrow> string list result" where
  "extract_required_fields xml =
     and_then (xml_loop parser_init xml) (\<lambda>p.
       if elements p \<noteq> [] then discovery_error ''contains malformed element nesting''
       else finish_fields 0 (zip (seen p) (field_texts p)))"

section \<open>Numbers and units\<close>

definition is_digit :: "char \<Rightarrow> bool" where
  "is_digit c \<longleftrightarrow> 48 \<le> (of_char c :: nat) \<and> (of_char c :: nat) \<le> 57"

definition digits_value :: "string \<Rightarrow> nat" where
  "digits_value ds = foldl (\<lambda>n c. 10 * n + ((of_char c :: nat) - 48)) 0 ds"

fun split_sign :: "string \<Rightarrow> bool \<times> string" where
  "split_sign [] = (False, [])"
| "split_sign (c # cs) =
     (if c = CHR ''-'' then (True, cs) else if c = CHR ''+'' then (False, cs) else (False, c # cs))"

text \<open>
  \<open>istream >> double\<close> without skipping blanks, in the classic locale: the longest prefix
  of a decimal literal is taken and converted, correctly rounded. \<open>None\<close> is a failed
  stream: no digits, an exponent without digits, or an overflow. The second component is
  what the stream has left.
\<close>

definition read_double :: "string \<Rightarrow> (fp \<times> string) option" where
  "read_double s =
     (let (neg, r1) = split_sign s;
          ip = takeWhile is_digit r1; r2 = dropWhile is_digit r1;
          dot = (r2 \<noteq> [] \<and> hd r2 = CHR ''.'');
          frac = (if dot then takeWhile is_digit (tl r2) else []);
          r3 = (if dot then dropWhile is_digit (tl r2) else r2);
          sci = (r3 \<noteq> [] \<and> hd r3 \<in> {CHR ''e'', CHR ''E''});
          (eneg, r4) = (if sci then split_sign (tl r3) else (False, r3));
          ex = (if sci then takeWhile is_digit r4 else []);
          r5 = (if sci then dropWhile is_digit r4 else r4);
          scale = (if eneg then - int (digits_value ex) else int (digits_value ex)) - int (length frac);
          x = fround binary64 neg (of_nat (digits_value (ip @ frac)) * 10 powi scale)
      in if ip @ frac = [] \<or> sci \<and> ex = [] \<or> \<not> isfinite x then None else Some (x, r5))"

definition parse_positive_count :: "string \<Rightarrow> string \<Rightarrow> fp result" where
  "parse_positive_count value tag =
     (let bad = discovery_error (''field '' @ [CHR 0x27] @ tag @ [CHR 0x27] @ '' must be a finite positive number'')
      in case read_double value of
           None \<Rightarrow> bad
         | Some (x, rest) \<Rightarrow>
             if value = [] \<or> hd value = CHR ''+'' \<or> rest \<noteq> [] \<or> \<not> isfinite x \<or> fle x fzero
             then bad else Inr x)"

definition normalize_torque_spelling :: "string \<Rightarrow> string" where
  "normalize_torque_spelling value =
     (if value = ''Nm'' then ''N-m''
      else if value = ''Nmm'' then ''N-mm''
      else if value = ''kg-cm'' then ''kgf-cm'' else value)"

definition parse_force_unit :: "string \<Rightarrow> force_unit result" where
  "parse_force_unit value =
     (case force_unit_from_string value of
        None \<Rightarrow> discovery_error ''contains an unknown force unit''
      | Some u \<Rightarrow> if u = FU_Unknown then discovery_error ''contains an unknown force unit'' else Inr u)"

definition parse_torque_unit :: "string \<Rightarrow> torque_unit result" where
  "parse_torque_unit value =
     (case torque_unit_from_string (normalize_torque_spelling value) of
        None \<Rightarrow> discovery_error ''contains an unknown torque unit''
      | Some u \<Rightarrow> if u = TU_Unknown then discovery_error ''contains an unknown torque unit'' else Inr u)"

section \<open>The document\<close>

definition parse_sensor_configuration :: "string \<Rightarrow> sensor_configuration result" where
  "parse_sensor_configuration xml =
     and_then (extract_required_fields xml) (\<lambda>fs.
     and_then (parse_positive_count (fs ! 1) ''cfgcpf'') (\<lambda>cpf.
     and_then (parse_positive_count (fs ! 2) ''cfgcpt'') (\<lambda>cpt.
     and_then (parse_force_unit (fs ! 3)) (\<lambda>fu.
     and_then (parse_torque_unit (fs ! 4)) (\<lambda>tu.
     (let c = \<lparr>counts_per_force_unit = cpf, counts_per_torque_unit = cpt,
               force_unit = fu, torque_unit = tu\<rparr>
      in case validate_calibration c of
           Inl e \<Rightarrow> Inl (DiscoveryError (what e))
         | Inr _ \<Rightarrow> Inr \<lparr>product_name = fs ! 0, calibration = c, cfg_source = Sensor, revision = 1\<rparr>))))))"

section \<open>What the parser accepts\<close>

lemmas parser_results = discovery_error_def field_error_def

lemma parse_positive_count_Inr:
  assumes "parse_positive_count v tag = Inr x"
  shows "isfinite x" and "flt fzero x"
proof -
  from assms have f: "isfinite x" and n: "\<not> fle x fzero"
    by (auto simp: parse_positive_count_def Let_def parser_results split: option.splits if_splits)
  then show "isfinite x" and "flt fzero x" by (simp_all add: fle_fzero_iff)
qed

lemma finish_field_Inr:
  "finish_field i b t = Inr v \<Longrightarrow> v \<noteq> [] \<and> length v \<le> maximum_field_length"
  by (auto simp: finish_field_def Let_def parser_results maximum_field_length_def split: if_splits)

lemma finish_fields_Inr:
  "finish_fields i fs = Inr vs \<Longrightarrow>
     length vs = length fs \<and> (\<forall>v \<in> set vs. v \<noteq> [] \<and> length v \<le> maximum_field_length)"
  by (induction i fs arbitrary: vs rule: finish_fields.induct) (auto dest: finish_field_Inr)

lemma index_of_range: "index_of t ts k = -1 \<or> (int k \<le> index_of t ts k \<and> index_of t ts k < int (k + length ts))"
proof (induction t ts k rule: index_of.induct)
  case (2 name t ts k)
  then show ?case by (cases "name = t") auto
qed simp

lemma index_of_nth:
  "int k \<le> index_of t ts k \<Longrightarrow> ts ! nat (index_of t ts k - int k) = t"
proof (induction t ts k rule: index_of.induct)
  case (2 name t ts k)
  show ?case
  proof (cases "name = t")
    case False
    with "2.prems" index_of_range [of name ts "k + 1"] have le: "int (k + 1) \<le> index_of name ts (k + 1)"
      by auto
    then have "nat (index_of name ts (k + 1) - int k) = Suc (nat (index_of name ts (k + 1) - int (k + 1)))"
      by simp
    then show ?thesis using False "2.IH" [OF False le] by simp
  qed simp
qed simp

lemma index_of_notin: "index_of t ts k = -1 \<longleftrightarrow> t \<notin> set ts"
  by (induction t ts k rule: index_of.induct) auto

lemma length_required_tags [simp]: "length required_tags = 5"
  by (simp add: required_tags_def)

lemma distinct_required_tags: "distinct required_tags"
  by (simp add: required_tags_def)

lemma required_tag_index_cases:
  obtains "required_tag_index t = -1" "t \<notin> set required_tags"
  | i where "required_tag_index t = int i" "i < 5" "required_tags ! i = t" "t \<in> set required_tags"
proof (cases "t \<in> set required_tags")
  case False
  then show ?thesis using that(1) by (simp add: required_tag_index_def index_of_notin)
next
  case True
  then have r: "0 \<le> required_tag_index t" "required_tag_index t < 5"
    using index_of_range [of t required_tags 0] index_of_notin [of t required_tags 0]
    by (auto simp: required_tag_index_def)
  moreover from r have "required_tags ! nat (required_tag_index t) = t"
    using index_of_nth [of 0 t required_tags] by (simp add: required_tag_index_def)
  ultimately show ?thesis using that(2) [of "nat (required_tag_index t)"] True by simp
qed

text \<open>Walking never changes the number of fields, nor of their marks.\<close>

definition five_fields :: "parser \<Rightarrow> bool" where
  "five_fields p \<longleftrightarrow> length (field_texts p) = 5 \<and> length (seen p) = 5"

lemma five_fields_append [simp]: "five_fields (append_required_text t p) = five_fields p"
  by (simp add: append_required_text_def Let_def five_fields_def)

lemma five_fields_close: "close_tag t p = Inr p' \<Longrightarrow> five_fields p' = five_fields p"
  by (auto simp: close_tag_def Let_def parser_results five_fields_def split: if_splits)

lemma five_fields_open: "open_tag t p = Inr p' \<Longrightarrow> five_fields p' = five_fields p"
  by (auto simp: open_tag_def Let_def parser_results five_fields_def split: if_splits)

lemma five_fields_markup:
  "and_then (skip_until c n m e) (\<lambda>(t, rest). Inr (f t, rest)) = Inr (p', rest) \<Longrightarrow>
     \<exists>t. p' = f t"
  by (auto split: prod.splits)

lemma five_fields_tag:
  "and_then (close_tag t p) (\<lambda>p'. Inr (p', r)) = Inr (p', rest) \<Longrightarrow> five_fields p' = five_fields p"
  "and_then (open_tag t p) (\<lambda>p'. Inr (p', r)) = Inr (p', rest) \<Longrightarrow> five_fields p' = five_fields p"
  by (auto dest: five_fields_close five_fields_open)

lemma five_fields_step:
  assumes "xml_step p xml = Inr (p', rest)"
  shows "five_fields p' = five_fields p"
proof -
  define q where "q = append_required_text (takeWhile (\<lambda>c. c \<noteq> CHR ''<'') xml) p"
  have q: "five_fields q = five_fields p" by (simp add: q_def)
  define m where "m = dropWhile (\<lambda>c. c \<noteq> CHR ''<'') xml"
  note step = assms [unfolded xml_step_def Let_def, folded q_def m_def]
  show ?thesis
    using step q
    by (simp only: if_split [of "\<lambda>r. r = Inr (p', rest)"])
       (auto simp del: and_then_Inr simp: parser_results split: option.splits if_splits
        dest!: five_fields_markup five_fields_tag)
qed

lemma five_fields_loop: "xml_loop p xml = Inr p' \<Longrightarrow> five_fields p' = five_fields p"
proof (induction p xml rule: xml_loop.induct)
  case (1 p xml)
  show ?case
  proof (cases "xml = []")
    case True
    then show ?thesis using "1.prems" by (simp add: xml_loop.simps [of p "[]"])
  next
    case False
    with "1.prems" obtain q rest where s: "xml_step p xml = Inr (q, rest)"
      and l: "xml_loop q rest = Inr p'"
      by (auto simp: xml_loop.simps [of p xml] split: sum.splits)
    from "1.IH" [OF False s refl l] five_fields_step [OF s] show ?thesis by simp
  qed
qed

lemma extract_required_fields_Inr:
  assumes "extract_required_fields xml = Inr fs"
  shows "length fs = 5" and "v \<in> set fs \<Longrightarrow> v \<noteq> [] \<and> length v \<le> maximum_field_length"
proof -
  from assms obtain p where p: "xml_loop parser_init xml = Inr p"
    and f: "finish_fields 0 (zip (seen p) (field_texts p)) = Inr fs"
    by (auto simp: extract_required_fields_def parser_results split: if_splits)
  from five_fields_loop [OF p] have "five_fields p" by (simp add: five_fields_def parser_init_def)
  with finish_fields_Inr [OF f] show "length fs = 5"
    and "v \<in> set fs \<Longrightarrow> v \<noteq> [] \<and> length v \<le> maximum_field_length"
    by (simp_all add: five_fields_def)
qed

lemma sum_case_Inr:
  "(case r of Inl e \<Rightarrow> Inl (f e) | Inr x \<Rightarrow> Inr (g x)) = Inr y \<longleftrightarrow> (\<exists>x. r = Inr x \<and> g x = y)"
  by (cases r) auto

lemma parse_result_sound:
  assumes "parse_sensor_configuration xml = Inr cfg"
  shows "validate_calibration (calibration cfg) = Inr () \<and> cfg_source cfg = Sensor
    \<and> revision cfg = 1 \<and> product_name cfg \<noteq> [] \<and> length (product_name cfg) \<le> 128"
proof -
  from assms obtain fs where fs: "extract_required_fields xml = Inr fs"
    and "validate_calibration (calibration cfg) = Inr ()" "cfg_source cfg = Sensor"
    "revision cfg = 1" "product_name cfg = fs ! 0"
    unfolding parse_sensor_configuration_def Let_def and_then_Inr sum_case_Inr
    by fastforce
  moreover have "fs ! 0 \<in> set fs"
    using extract_required_fields_Inr(1) [OF fs] by (intro nth_mem) simp
  ultimately show ?thesis
    using extract_required_fields_Inr(2) [OF fs] by (auto simp: maximum_field_length_def)
qed

text \<open>
  C25: what a successful parse promises to the session: a calibration that validates, so
  every scaled count is finite, a bounded non-empty product name, the sensor as source.
\<close>

theorem parse_sensor_configuration_sound:
  assumes "parse_sensor_configuration xml = Inr cfg"
  shows "validate_calibration (calibration cfg) = Inr () \<and> cfg_source cfg = Sensor
    \<and> revision cfg = 1 \<and> product_name cfg \<noteq> [] \<and> length (product_name cfg) \<le> 128"
  using assms by (rule parse_result_sound)

section \<open>The only exception is a discovery error\<close>

definition discovery_only :: "'a result \<Rightarrow> bool" where
  "discovery_only r \<longleftrightarrow> (case r of Inl e \<Rightarrow> \<exists>m. e = DiscoveryError m | Inr _ \<Rightarrow> True)"

lemma discovery_only_simps [simp]:
  "discovery_only (Inr x)" "discovery_only (discovery_error m)" "discovery_only (field_error i m)"
  "discovery_only (Inl (DiscoveryError m))"
  by (simp_all add: discovery_only_def parser_results)

lemma discovery_only_and_then:
  "discovery_only r \<Longrightarrow> (\<And>x. discovery_only (k x)) \<Longrightarrow> discovery_only (and_then r k)"
  by (cases r) (simp_all add: discovery_only_def)

lemma discovery_only_skip: "discovery_only (skip_until c n m e)"
  by (simp add: skip_until_def split: option.splits)

lemma discovery_only_tags: "discovery_only (close_tag t p)" "discovery_only (open_tag t p)"
  by (simp_all add: close_tag_def open_tag_def Let_def)

lemma discovery_only_step: "discovery_only (xml_step p xml)"
  by (simp add: xml_step_def Let_def discovery_only_tags discovery_only_and_then
      discovery_only_skip split: option.split prod.split)

lemma discovery_only_loop: "discovery_only (xml_loop p xml)"
proof (induction p xml rule: xml_loop.induct)
  case (1 p xml)
  then show ?case
    using discovery_only_step [of p xml]
    by (cases "xml_step p xml") (auto simp: xml_loop.simps [of p xml] discovery_only_def)
qed

lemma discovery_only_finish: "discovery_only (finish_fields i fs)"
  by (induction i fs rule: finish_fields.induct)
    (auto simp: finish_field_def Let_def intro!: discovery_only_and_then)

lemma discovery_only_extract: "discovery_only (extract_required_fields xml)"
  by (simp add: extract_required_fields_def discovery_only_and_then discovery_only_loop
      discovery_only_finish)

lemma discovery_only_parsers:
  "discovery_only (parse_positive_count v t)" "discovery_only (parse_force_unit v)"
  "discovery_only (parse_torque_unit v)"
  by (simp_all add: parse_positive_count_def parse_force_unit_def parse_torque_unit_def Let_def
      split: option.splits)

text \<open>
  Parsing throws nothing but a discovery error, the one exception the session turns
  into a sensor-configuration fault; any other would surface as a socket fault.
\<close>

theorem parse_throws_discovery_error_only:
  "parse_sensor_configuration xml = Inl e \<Longrightarrow> \<exists>m. e = DiscoveryError m"
proof -
  assume e: "parse_sensor_configuration xml = Inl e"
  have "discovery_only (parse_sensor_configuration xml)"
    unfolding parse_sensor_configuration_def Let_def
    by (intro discovery_only_and_then discovery_only_extract discovery_only_parsers)
      (simp split: sum.split)
  with e show ?thesis by (simp add: discovery_only_def)
qed

section \<open>Reading a document back\<close>

definition plain_name :: "string \<Rightarrow> bool" where
  "plain_name t \<longleftrightarrow> t \<noteq> [] \<and> hd t \<noteq> CHR ''!'' \<and> hd t \<noteq> CHR ''?''
     \<and> list_all (\<lambda>c. \<not> is_space c \<and> c \<notin> {CHR ''<'', CHR ''>'', CHR ''/'', CHR 0x27, CHR 0x22}) t"

definition plain_text :: "string \<Rightarrow> bool" where
  "plain_text v \<longleftrightarrow> CHR ''<'' \<notin> set v"

definition start_tag :: "string \<Rightarrow> string" where
  "start_tag t = ''<'' @ t @ ''>''"

definition end_tag :: "string \<Rightarrow> string" where
  "end_tag t = ''</'' @ t @ ''>''"

fun print_elements :: "(string \<times> string) list \<Rightarrow> string" where
  "print_elements [] = []"
| "print_elements ((t, v) # els) = start_tag t @ v @ end_tag t @ print_elements els"

definition print_document :: "string \<Rightarrow> (string \<times> string) list \<Rightarrow> string" where
  "print_document outer els = start_tag outer @ print_elements els @ end_tag outer"

lemma dropWhile_none: "\<forall>c \<in> set t. \<not> P c \<Longrightarrow> dropWhile P t = t"
  by (cases t) auto

lemma trim_plain: "list_all (\<lambda>c. \<not> is_space c) t \<Longrightarrow> trim_ascii_whitespace t = t"
  by (simp add: trim_ascii_whitespace_def list_all_iff dropWhile_none)

lemma find_tag_end_plain:
  "list_all (\<lambda>c. c \<notin> {CHR ''>'', CHR 0x27, CHR 0x22}) t \<Longrightarrow>
     find_tag_end (CHR 0x00) (t @ CHR ''>'' # rest) = Some (length t)"
  by (induction t) (auto simp: dquote_def)

lemma split_text:
  assumes "plain_text v"
  shows "takeWhile (\<lambda>c. c \<noteq> CHR ''<'') (v @ CHR ''<'' # r) = v"
    and "dropWhile (\<lambda>c. c \<noteq> CHR ''<'') (v @ CHR ''<'' # r) = CHR ''<'' # r"
  using assms by (induction v) (auto simp: plain_text_def)

lemma plain_parts:
  assumes "plain_name t"
  shows "t \<noteq> []" "hd t \<noteq> CHR ''!''" "hd t \<noteq> CHR ''?''" "hd t \<noteq> CHR ''/''"
    "trim_ascii_whitespace t = t" "last t \<noteq> CHR ''/''" "takeWhile (\<lambda>c. \<not> is_space c) t = t"
    "list_all (\<lambda>c. c \<notin> {CHR ''>'', CHR 0x27, CHR 0x22}) t"
    "\<not> list_ex (\<lambda>c. is_space c \<or> c = CHR ''/'') t"
    "trim_ascii_whitespace (CHR ''/'' # t) = CHR ''/'' # t"
proof -
  have all: "\<forall>c \<in> set t. \<not> is_space c \<and> c \<notin> {CHR ''<'', CHR ''>'', CHR ''/'', CHR 0x27, CHR 0x22}"
    using assms by (simp add: plain_name_def list_all_iff)
  show ne: "t \<noteq> []" and "hd t \<noteq> CHR ''!''" "hd t \<noteq> CHR ''?''"
    using assms by (simp_all add: plain_name_def)
  show "hd t \<noteq> CHR ''/''" "last t \<noteq> CHR ''/''"
    using all ne by (metis hd_in_set insertCI, metis last_in_set insertCI)
  show "trim_ascii_whitespace t = t" using all by (intro trim_plain) (simp add: list_all_iff)
  show "takeWhile (\<lambda>c. \<not> is_space c) t = t" using all by (simp add: takeWhile_eq_all_conv)
  show "list_all (\<lambda>c. c \<notin> {CHR ''>'', CHR 0x27, CHR 0x22}) t"
    "\<not> list_ex (\<lambda>c. is_space c \<or> c = CHR ''/'') t"
    using all by (auto simp: list_all_iff list_ex_iff)
  show "trim_ascii_whitespace (CHR ''/'' # t) = CHR ''/'' # t"
    using all by (intro trim_plain) (simp add: list_all_iff is_space_def)
qed

lemma no_special_markup:
  assumes "t \<noteq> []" "hd t \<noteq> CHR ''!''" "hd t \<noteq> CHR ''?''"
  shows "take 4 (CHR ''<'' # t @ r) \<noteq> ''<!--''" "take 9 (CHR ''<'' # t @ r) \<noteq> ''<![CDATA[''"
    "take 2 (CHR ''<'' # t @ r) \<noteq> ''<?''" "take 2 (CHR ''<'' # t @ r) \<noteq> ''<!''"
  using assms by (cases t; simp)+

lemma xml_step_tag:
  assumes t: "t \<noteq> []" "hd t \<noteq> CHR ''!''" "hd t \<noteq> CHR ''?''"
    "list_all (\<lambda>c. c \<notin> {CHR ''>'', CHR 0x27, CHR 0x22}) t" "trim_ascii_whitespace t = t"
    and v: "plain_text v"
  shows "xml_step p (v @ CHR ''<'' # t @ CHR ''>'' # rest)
       = and_then (if hd t = CHR ''/'' then close_tag t (append_required_text v p)
                   else open_tag t (append_required_text v p)) (\<lambda>p'. Inr (p', rest))"
  using no_special_markup [OF t(1-3), of "CHR ''>'' # rest"] t
  by (simp add: xml_step_def Let_def split_text [OF v] find_tag_end_plain)

lemma xml_step_start:
  assumes "plain_name t" and "plain_text v"
  shows "xml_step p (v @ start_tag t @ rest)
       = and_then (open_tag t (append_required_text v p)) (\<lambda>p'. Inr (p', rest))"
  using xml_step_tag [of t v p rest] plain_parts [OF assms(1)] assms(2)
  by (simp add: start_tag_def)

lemma xml_step_end:
  assumes "plain_name t" and "plain_text v"
  shows "xml_step p (v @ end_tag t @ rest)
       = and_then (close_tag (CHR ''/'' # t) (append_required_text v p)) (\<lambda>p'. Inr (p', rest))"
  using xml_step_tag [of "CHR ''/'' # t" v p rest] plain_parts [OF assms(1)] assms(2)
  by (simp add: end_tag_def)

lemma xml_loop_step:
  "xml \<noteq> [] \<Longrightarrow> xml_loop p xml = and_then (xml_step p xml) (\<lambda>(p', rest). xml_loop p' rest)"
  by (cases "xml_step p xml") (auto simp: xml_loop.simps [of p xml])

text \<open>What one element without markup of its own adds to the fields.\<close>

definition add_field :: "string \<Rightarrow> string \<Rightarrow> parser \<Rightarrow> parser" where
  "add_field t v p =
     (if t \<in> set required_tags
      then let i = nat (required_tag_index t)
           in p\<lparr>seen := (seen p)[i := True], field_texts := (field_texts p)[i := field_texts p ! i @ v]\<rparr>
      else p)"

lemma append_outside: "\<not> inside_required p \<Longrightarrow> append_required_text v p = p"
  by (simp add: append_required_text_def)

lemma xml_loop_element:
  assumes t: "plain_name t" and v: "plain_text v" and out: "\<not> inside_required p"
    and new: "t \<in> set required_tags \<longrightarrow> \<not> seen p ! nat (required_tag_index t)"
  shows "xml_loop p (start_tag t @ v @ end_tag t @ rest) = xml_loop (add_field t v p) rest"
proof -
  note tt = plain_parts [OF t]
  define q where "q = (if required_tag_index t \<ge> 0 then p\<lparr>seen := (seen p)[nat (required_tag_index t) := True]\<rparr> else p)"
  define q' where "q' = q\<lparr>elements := \<lparr>el_name = t, required_index = required_tag_index t\<rparr> # elements q\<rparr>"
  have idx: "required_tag_index t \<ge> 0 \<longleftrightarrow> t \<in> set required_tags"
    by (rule required_tag_index_cases [of t]) auto
  have op: "open_tag t p = Inr q'"
    using tt(1,4) out new idx unfolding open_tag_def Let_def
    by (simp only: tt(6,7) if_False) (auto simp: q_def q'_def)
  have "xml_loop p (start_tag t @ v @ end_tag t @ rest) = xml_loop q' (v @ end_tag t @ rest)"
    using xml_step_start [OF t, of "[]" p "v @ end_tag t @ rest"] op
    by (subst xml_loop_step) (simp_all add: start_tag_def plain_text_def append_outside [OF out])
  also have "\<dots> = xml_loop ((append_required_text v q')\<lparr>elements := elements q\<rparr>) rest"
  proof -
    have "close_tag (CHR ''/'' # t) (append_required_text v q')
        = Inr ((append_required_text v q')\<lparr>elements := elements q\<rparr>)"
      using tt by (simp add: close_tag_def Let_def q'_def append_required_text_def)
    then show ?thesis
      using xml_step_end [OF t v, of q' rest]
      by (subst xml_loop_step) (simp_all add: end_tag_def)
  qed
  also have "(append_required_text v q')\<lparr>elements := elements q\<rparr> = add_field t v p"
    using idx by (auto simp: append_required_text_def inside_required_def q'_def q_def add_field_def Let_def)
  finally show ?thesis .
qed

text \<open>All elements of a document in turn, from any state outside the required fields.\<close>

fun add_fields :: "(string \<times> string) list \<Rightarrow> parser \<Rightarrow> parser" where
  "add_fields [] p = p"
| "add_fields ((t, v) # els) p = add_fields els (add_field t v p)"

lemma elements_add_field [simp]: "elements (add_field t v p) = elements p"
  by (simp add: add_field_def Let_def)

lemma inside_add_field [simp]: "inside_required (add_field t v p) = inside_required p"
  by (simp add: inside_required_def)

lemma elements_add_fields [simp]: "elements (add_fields els p) = elements p"
  by (induction els p rule: add_fields.induct) simp_all

definition fresh_fields :: "(string \<times> string) list \<Rightarrow> parser \<Rightarrow> bool" where
  "fresh_fields els p \<longleftrightarrow>
     (\<forall>t \<in> fst ` set els. t \<in> set required_tags \<longrightarrow> \<not> seen p ! nat (required_tag_index t))"

lemma required_tag_index_inj:
  assumes "s \<in> set required_tags" "t \<in> set required_tags"
    and "nat (required_tag_index s) = nat (required_tag_index t)"
  shows "s = t"
  using assms
  by (cases s rule: required_tag_index_cases; cases t rule: required_tag_index_cases) auto

lemma fresh_fields_step:
  assumes "fresh_fields ((t, v) # els) p" and "t \<notin> fst ` set els"
  shows "fresh_fields els (add_field t v p)"
  using assms required_tag_index_inj [of _ t]
  by (auto simp: fresh_fields_def add_field_def Let_def nth_list_update)
     (metis fst_conv image_eqI nth_list_update_neq)

lemma xml_loop_elements:
  assumes "\<forall>(t, v) \<in> set els. plain_name t \<and> plain_text v" and "distinct (map fst els)"
    and "\<not> inside_required p" and "fresh_fields els p"
  shows "xml_loop p (print_elements els @ rest) = xml_loop (add_fields els p) rest"
  using assms
proof (induction els arbitrary: p)
  case (Cons e els)
  obtain t v where e: "e = (t, v)" by force
  have "xml_loop p (print_elements (e # els) @ rest)
      = xml_loop (add_field t v p) (print_elements els @ rest)"
    using xml_loop_element [of t v p "print_elements els @ rest"] Cons.prems e
    by (simp add: fresh_fields_def)
  also have "\<dots> = xml_loop (add_fields els (add_field t v p)) rest"
    using Cons.prems e fresh_fields_step [of t v els p] by (intro Cons.IH) auto
  finally show ?case by (simp add: e)
qed simp

definition field_state :: "parser \<Rightarrow> (bool \<times> string) list" where
  "field_state p = zip (seen p) (field_texts p)"

lemma field_state_add_field:
  assumes "five_fields p" and "i < 5" and "t \<in> set required_tags \<longrightarrow> \<not> seen p ! nat (required_tag_index t)"
    and "field_texts p ! i = [] \<or> seen p ! i"
  shows "field_state (add_field t v p) ! i =
    (if required_tags ! i = t then (True, v) else field_state p ! i)"
  using assms distinct_required_tags
  by (cases t rule: required_tag_index_cases)
     (auto simp: field_state_def add_field_def five_fields_def Let_def nth_list_update nth_eq_iff_index_eq)

definition unseen_empty :: "parser \<Rightarrow> bool" where
  "unseen_empty p \<longleftrightarrow> five_fields p \<and> (\<forall>i < 5. \<not> seen p ! i \<longrightarrow> field_texts p ! i = [])"

lemma unseen_empty_add_field: "unseen_empty p \<Longrightarrow> unseen_empty (add_field t v p)"
  by (cases t rule: required_tag_index_cases)
     (auto simp: unseen_empty_def add_field_def five_fields_def Let_def nth_list_update)

lemma field_state_add_fields:
  assumes "unseen_empty p" and "i < 5" and "distinct (map fst els)" and "fresh_fields els p"
  shows "field_state (add_fields els p) ! i =
    (case map_of els (required_tags ! i) of Some v \<Rightarrow> (True, v) | None \<Rightarrow> field_state p ! i)"
  using assms
proof (induction els arbitrary: p)
  case (Cons e els)
  obtain t v where e: "e = (t, v)" by force
  have ih: "field_state (add_fields els (add_field t v p)) ! i =
    (case map_of els (required_tags ! i) of Some v \<Rightarrow> (True, v) | None \<Rightarrow> field_state (add_field t v p) ! i)"
    using Cons.prems e fresh_fields_step [of t v els p] unseen_empty_add_field by (intro Cons.IH) auto
  have "field_state (add_field t v p) ! i = (if required_tags ! i = t then (True, v) else field_state p ! i)"
    using Cons.prems e by (intro field_state_add_field) (auto simp: unseen_empty_def fresh_fields_def)
  moreover have "map_of els t = None" using Cons.prems e by (simp add: map_of_eq_None_iff)
  ultimately show ?case using ih e by (simp split: option.split)
qed simp

definition document_fields :: "(string \<times> string) list \<Rightarrow> (bool \<times> string) list" where
  "document_fields els =
     map (\<lambda>t. case map_of els t of None \<Rightarrow> (False, []) | Some v \<Rightarrow> (True, v)) required_tags"

definition flat_document :: "string \<Rightarrow> (string \<times> string) list \<Rightarrow> bool" where
  "flat_document outer els \<longleftrightarrow>
     plain_name outer \<and> outer \<notin> set required_tags \<and> distinct (map fst els)
     \<and> list_all (\<lambda>(t, v). plain_name t \<and> plain_text v) els"

lemma five_fields_add_fields: "five_fields (add_fields els p) = five_fields p"
proof (induction els p rule: add_fields.induct)
  case (2 t v els p)
  have "five_fields (add_field t v p) = five_fields p"
    by (simp add: five_fields_def add_field_def Let_def)
  with 2 show ?case by simp
qed simp

lemma extract_print_document:
  assumes "flat_document outer els"
  shows "extract_required_fields (print_document outer els) = finish_fields 0 (document_fields els)"
proof -
  have o: "plain_name outer" "required_tag_index outer = -1"
    and els: "\<forall>(t, v) \<in> set els. plain_name t \<and> plain_text v" "distinct (map fst els)"
    using assms by (auto simp: flat_document_def list_all_iff required_tag_index_def index_of_notin)
  define p0 where "p0 = parser_init\<lparr>elements := [\<lparr>el_name = outer, required_index = -1\<rparr>]\<rparr>"
  have out: "\<not> inside_required p0" "\<not> inside_required parser_init"
    by (simp_all add: p0_def inside_required_def parser_init_def)
  have nth: "i < 5 \<Longrightarrow> (replicate 5 x) ! i = x" for i x by simp
  have fresh: "fresh_fields els p0"
    by (auto simp: fresh_fields_def p0_def parser_init_def nth elim!: required_tag_index_cases)
      (metis int_ops(6) nat_int nth required_tag_index_cases)
  have op: "open_tag outer parser_init = Inr p0"
    using plain_parts(1,4) [OF o(1)] o(2) out unfolding open_tag_def Let_def
    by (simp only: plain_parts(6,7) [OF o(1)] if_False) (simp add: p0_def parser_init_def)
  have "xml_loop parser_init (print_document outer els) = xml_loop p0 (print_elements els @ end_tag outer)"
    using xml_step_start [OF o(1), of "[]" parser_init "print_elements els @ end_tag outer"] op
    by (subst xml_loop_step)
      (simp_all add: print_document_def start_tag_def plain_text_def append_outside [OF out(2)])
  also have "\<dots> = xml_loop (add_fields els p0) (end_tag outer)"
    by (rule xml_loop_elements [OF els out(1) fresh])
  also have "\<dots> = Inr ((add_fields els p0)\<lparr>elements := []\<rparr>)"
  proof -
    have "\<not> inside_required (add_fields els p0)" using out(1) by (simp add: inside_required_def)
    moreover have "close_tag (CHR ''/'' # outer) (add_fields els p0) = Inr ((add_fields els p0)\<lparr>elements := []\<rparr>)"
      using plain_parts [OF o(1)] by (simp add: close_tag_def p0_def)
    ultimately show ?thesis
      using xml_step_end [OF o(1), of "[]" "add_fields els p0" "[]"]
      by (subst xml_loop_step)
        (simp_all add: end_tag_def plain_text_def append_outside xml_loop.simps [of _ "[]"])
  qed
  finally have loop: "xml_loop parser_init (print_document outer els) = Inr ((add_fields els p0)\<lparr>elements := []\<rparr>)" .
  have ue: "unseen_empty p0"
    by (simp add: unseen_empty_def five_fields_def p0_def parser_init_def nth)
  have "zip (seen (add_fields els p0)) (field_texts (add_fields els p0)) = document_fields els"
  proof (rule nth_equalityI)
    have five: "five_fields (add_fields els p0)" using ue by (simp add: five_fields_add_fields unseen_empty_def)
    then show "length (zip (seen (add_fields els p0)) (field_texts (add_fields els p0))) = length (document_fields els)"
      by (simp add: document_fields_def five_fields_def)
    fix i assume "i < length (zip (seen (add_fields els p0)) (field_texts (add_fields els p0)))"
    with five have i: "i < 5" by (simp add: five_fields_def)
    have "field_state p0 ! i = (False, [])"
      using i by (simp add: field_state_def p0_def parser_init_def nth)
    then show "zip (seen (add_fields els p0)) (field_texts (add_fields els p0)) ! i = document_fields els ! i"
      using field_state_add_fields [OF ue i els(2) fresh] i
      by (simp add: field_state_def document_fields_def split: option.split)
  qed
  with loop show ?thesis by (simp add: extract_required_fields_def)
qed

text \<open>
  C24: reading a document back. For a flat document, one outer element holding named text
  elements in any order, unknown ones included, the five fields the scanner extracts are the
  texts of the five required elements, trimmed and bounded; nothing else leaks into them.
\<close>

theorem document_read_back:
  "flat_document outer els \<Longrightarrow>
     extract_required_fields (print_document outer els) = finish_fields 0 (document_fields els)"
  by (rule extract_print_document)

definition example_elements :: "(string \<times> string) list" where
  "example_elements = [(''prodname'', '' Gamma ''), (''setuser'', ''0''), (''cfgcpt'', ''1e6''),
     (''cfgcpf'', ''1000000''), (''scfgtu'', ''Nm''), (''scfgfu'', ''N'')]"

lemma example_flat: "flat_document ''netft'' example_elements"
  by (simp add: flat_document_def example_elements_def plain_name_def plain_text_def is_space_def
      required_tags_def)

lemma example_fields:
  "finish_fields 0 (document_fields example_elements) = Inr [''Gamma'', ''1000000'', ''1e6'', ''N'', ''Nm'']"
  by (simp add: document_fields_def example_elements_def required_tags_def finish_field_def Let_def
      trim_ascii_whitespace_def is_space_def maximum_field_length_def)

theorem document_read_back_witness:
  "extract_required_fields (print_document ''netft'' example_elements)
     = Inr [''Gamma'', ''1000000'', ''1e6'', ''N'', ''Nm'']"
  using document_read_back [OF example_flat] by (simp add: example_fields)

definition example_configuration :: sensor_configuration where
  "example_configuration = \<lparr>product_name = ''Gamma'', calibration = example_calibration,
     cfg_source = Sensor, revision = 1\<rparr>"

lemma example_read_double:
  "read_double ''1000000'' = Some (Fin False 1000000, [])"
  "read_double ''1e6'' = Some (Fin False 1000000, [])"
  using fof_int_exact [of 1000000]
  by (simp_all add: read_double_def is_digit_def digits_value_def fof_int_def)

lemma example_units:
  "parse_force_unit ''N'' = Inr Newton" "parse_torque_unit ''Nm'' = Inr NewtonMeter"
  by (simp_all add: parse_force_unit_def parse_torque_unit_def force_unit_from_string_def
      torque_unit_from_string_def normalize_torque_spelling_def)

lemma example_counts:
  "parse_positive_count ''1000000'' tag = Inr (Fin False 1000000)"
  "parse_positive_count ''1e6'' tag = Inr (Fin False 1000000)"
  by (simp_all add: parse_positive_count_def example_read_double fle_fzero_iff fzero_def)

lemma example_parses:
  "parse_sensor_configuration (print_document ''netft'' example_elements) = Inr example_configuration"
  using example_calibration_validates
  by (simp add: parse_sensor_configuration_def extract_print_document [OF example_flat] example_fields
     example_units example_counts example_configuration_def example_calibration_def Let_def split: sum.splits)

theorem parse_sensor_configuration_sound_witness:
  "validate_calibration (calibration example_configuration) = Inr ()
    \<and> cfg_source example_configuration = Sensor
    \<and> revision example_configuration = 1 \<and> product_name example_configuration \<noteq> []
    \<and> length (product_name example_configuration) \<le> 128"
  by (rule parse_sensor_configuration_sound [OF example_parses])

lemma example_unterminated:
  "parse_sensor_configuration ''<a'' = discovery_error ''contains unterminated markup''"
  by (simp add: parse_sensor_configuration_def extract_required_fields_def xml_loop_step
      xml_step_def dquote_def discovery_error_def)

theorem parse_throws_discovery_error_only_witness:
  "\<exists>m. DiscoveryError (''sensor configuration '' @ ''contains unterminated markup'') = DiscoveryError m"
  by (rule parse_throws_discovery_error_only [of "''<a''"])
    (simp only: example_unterminated discovery_error_def)

end
