(* ===== verification/Rounding_Guard.thy ===== *)
theory Rounding_Guard
  imports Xml_Config
begin

text \<open>
  The guard \<open>ScopedRoundToNearest\<close> of \<open>src/core/src/detail/xml_config.cpp\<close> around the reading
  of a number: it holds the floating-point environment, selects round-to-nearest, and restores
  the environment on every way out, or terminates the process. The answers of the functions of
  \<open><cfenv>\<close> are arguments; termination is the value \<open>None\<close>. \<open>Xml_Config\<close> has the parser
  for calls that succeed.
\<close>

section \<open>The environment\<close>

datatype rounding_mode = To_Nearest | Toward_Zero | Upward | Downward

record fenv =
  fe_mode :: rounding_mode
  fe_flags :: nat

record fenv_answers =
  fa_held :: bool
  fa_inspected :: bool
  fa_selected :: bool
  fa_restored :: bool

definition restore_environment_or_terminate ::
  "fenv_answers \<Rightarrow> fenv \<Rightarrow> 'a result \<Rightarrow> (fenv \<times> 'a result) option" where
  "restore_environment_or_terminate a saved r = (if fa_restored a then Some (saved, r) else None)"

text \<open>The constructor, the guarded code in the environment it leaves, and the destructor.\<close>

definition scoped_round_to_nearest ::
  "fenv_answers \<Rightarrow> (fenv \<Rightarrow> 'a result) \<Rightarrow> fenv \<Rightarrow> (fenv \<times> 'a result) option" where
  "scoped_round_to_nearest a guarded saved =
     (if \<not> fa_held a
      then Some (saved, Inl (DiscoveryError ''failed to hold the floating-point environment''))
      else let held = saved\<lparr>fe_flags := 0\<rparr> in
        if \<not> fa_inspected a
        then restore_environment_or_terminate a saved
               (Inl (DiscoveryError ''failed to inspect the floating-point rounding mode''))
        else if fe_mode held \<noteq> To_Nearest \<and> \<not> fa_selected a
        then restore_environment_or_terminate a saved
               (Inl (DiscoveryError ''failed to select round-to-nearest floating-point parsing''))
        else restore_environment_or_terminate a saved (guarded (held\<lparr>fe_mode := To_Nearest\<rparr>)))"

section \<open>Reading a number in an environment\<close>

fun round_under :: "rounding_mode \<Rightarrow> bool \<Rightarrow> rat \<Rightarrow> int" where
  "round_under To_Nearest s x = round_half_even x"
| "round_under Toward_Zero s x = \<lfloor>x\<rfloor>"
| "round_under Upward s x = (if s then \<lfloor>x\<rfloor> else \<lceil>x\<rceil>)"
| "round_under Downward s x = (if s then \<lceil>x\<rceil> else \<lfloor>x\<rfloor>)"

text \<open>An overflow rounds to the greatest value where the mode does not point away from zero.\<close>

definition fround_under :: "rounding_mode \<Rightarrow> bool \<Rightarrow> rat \<Rightarrow> fp" where
  "fround_under m s q =
     (let u = ulp_exp binary64 q;
          r = (if q = 0 then 0 else of_int (round_under m s (q / 2 powi u)) * 2 powi u)
      in if 2 powi emax binary64 \<le> r
         then (if m = To_Nearest \<or> m = Upward \<and> \<not> s \<or> m = Downward \<and> s then Inf s
               else case dbl_max of Fin _ d \<Rightarrow> Fin s d | x \<Rightarrow> x)
         else Fin s r)"

lemma fround_under_nearest [simp]: "fround_under To_Nearest s q = fround binary64 s q"
  by (simp add: fround_under_def fround_def round_mag_def Let_def)

definition read_double_under :: "rounding_mode \<Rightarrow> string \<Rightarrow> (fp \<times> string) option" where
  "read_double_under m s =
     (let (neg, r1) = split_sign s;
          ip = takeWhile is_digit r1; r2 = dropWhile is_digit r1;
          dot = (r2 \<noteq> [] \<and> hd r2 = CHR ''.'');
          frac = (if dot then takeWhile is_digit (tl r2) else []);
          r3 = (if dot then dropWhile is_digit (tl r2) else r2);
          sci = (r3 \<noteq> [] \<and> hd r3 \<in> {CHR ''e'', CHR ''E''});
          (eneg, r4) = (if sci then split_sign (tl r3) else (False, r3));
          ex = (if sci then takeWhile is_digit r4 else []);
          r5 = (if sci then dropWhile is_digit r4 else r4);
          scale = (if eneg then - int (digits_value ex) else int (digits_value ex)) - int (length frac);
          x = fround_under m neg (of_nat (digits_value (ip @ frac)) * 10 powi scale)
      in if ip @ frac = [] \<or> sci \<and> ex = [] \<or> \<not> isfinite x then None else Some (x, r5))"

lemma read_double_nearest [simp]: "read_double_under To_Nearest s = read_double s"
  by (simp add: read_double_under_def read_double_def)

definition count_under :: "rounding_mode \<Rightarrow> string \<Rightarrow> string \<Rightarrow> fp result" where
  "count_under m value tag =
     (let bad = discovery_error (''field '' @ [CHR 0x27] @ tag @ [CHR 0x27] @ '' must be a finite positive number'')
      in case read_double_under m value of
           None \<Rightarrow> bad
         | Some (x, rest) \<Rightarrow>
             if value = [] \<or> hd value = CHR ''+'' \<or> rest \<noteq> [] \<or> \<not> isfinite x \<or> fle x fzero
             then bad else Inr x)"

lemma count_nearest [simp]: "count_under To_Nearest value tag = parse_positive_count value tag"
  by (simp add: count_under_def parse_positive_count_def)

text \<open>\<open>parse_positive_count\<close> as a whole, called in the environment of its caller.\<close>

definition guarded_count :: "fenv_answers \<Rightarrow> string \<Rightarrow> string \<Rightarrow> fenv \<Rightarrow> (fenv \<times> fp result) option" where
  "guarded_count a value tag env =
     scoped_round_to_nearest a (\<lambda>e. count_under (fe_mode e) value tag) env"

section \<open>What the guard gives\<close>

definition guard_succeeds :: "fenv_answers \<Rightarrow> bool" where
  "guard_succeeds a \<longleftrightarrow> fa_held a \<and> fa_inspected a \<and> fa_selected a \<and> fa_restored a"

text \<open>
  The guarded code sees round-to-nearest only; the caller gets its environment back, the
  exception flags included, whatever fails, and the process ends only when that is impossible.
\<close>

lemma scoped_outcomes:
  "case scoped_round_to_nearest a guarded env of
     None \<Rightarrow> \<not> fa_restored a
   | Some (env', r) \<Rightarrow> env' = env \<and>
       (r = guarded (env\<lparr>fe_flags := 0, fe_mode := To_Nearest\<rparr>)
        \<or> \<not> guard_succeeds a \<and> (\<exists>m. r = Inl (DiscoveryError m)))"
  by (auto simp: scoped_round_to_nearest_def restore_environment_or_terminate_def guard_succeeds_def Let_def)

lemma scoped_succeeds:
  "guard_succeeds a \<Longrightarrow> scoped_round_to_nearest a guarded env
    = Some (env, guarded (env\<lparr>fe_flags := 0, fe_mode := To_Nearest\<rparr>))"
  by (auto simp: scoped_round_to_nearest_def restore_environment_or_terminate_def guard_succeeds_def Let_def)

lemma guarded_count_exact:
  "guard_succeeds a \<Longrightarrow> guarded_count a value tag env = Some (env, parse_positive_count value tag)"
  by (simp add: guarded_count_def scoped_succeeds)

text \<open>
  The reading of a number does not depend on the rounding mode of its caller: with or
  without failing calls it is the number read under round-to-nearest, or a discovery error,
  and the environment is the caller's.
\<close>

theorem count_ignores_rounding_mode:
  "case guarded_count a value tag env of
     None \<Rightarrow> \<not> fa_restored a
   | Some (env', r) \<Rightarrow> env' = env \<and>
       (r = parse_positive_count value tag \<or> \<not> guard_succeeds a \<and> (\<exists>m. r = Inl (DiscoveryError m)))"
  using scoped_outcomes [where a = a and env = env and guarded = "\<lambda>e. count_under (fe_mode e) value tag"]
  by (simp add: guarded_count_def split: option.splits prod.splits)

end
