(* ===== verification/Udp_Windows.thy ===== *)
theory Udp_Windows
  imports Udp_Transport
begin

text \<open>
  The WinSock variant of the UDP transport,
  \<open>src/core/src/detail/udp_transport_windows.cpp\<close>, over the same state and in the style of
  the POSIX one, and the contract that both variants keep, as a locale interpreted on each.
  The answers of WinSock are arguments; error numbers are those of its headers.
\<close>

section \<open>Errors\<close>

definition winsock_error :: "string \<Rightarrow> int \<Rightarrow> exn" where
  "winsock_error operation e = RuntimeError (operation @ '' (WinSock error '' @ dec_of_int e @ '')'')"

definition wsa_eintr :: int where "wsa_eintr = 10004"
definition wsa_enotsock :: int where "wsa_enotsock = 10038"
definition wsa_econnreset :: int where "wsa_econnreset = 10054"
definition wsa_eshutdown :: int where "wsa_eshutdown = 10058"
definition wsa_ehostunreach :: int where "wsa_ehostunreach = 10065"

text \<open>\<open>WSAStartup\<close> in the constructor of the runtime.\<close>

definition winsock_startup :: "int \<Rightarrow> transport result" where
  "winsock_startup r =
     (if r \<noteq> 0 then Inl (winsock_error ''failed to initialize WinSock'' r) else Inr transport_init)"

text \<open>
  The events a poll reports: \<open>POLLNVAL\<close>, \<open>POLLERR\<close>, \<open>POLLHUP\<close>, and what \<open>getsockopt\<close> gives
  for the pending error when it is asked, \<open>None\<close> for a failure.
\<close>

record win_events =
  ev_nval :: bool
  ev_err :: bool
  ev_hup :: bool
  ev_pending :: "int option"

definition socket_wait_error :: "win_events \<Rightarrow> int" where
  "socket_wait_error ev =
     (if ev_nval ev then wsa_enotsock
      else case ev_pending ev of
             Some e \<Rightarrow> if ev_err ev \<and> e \<noteq> 0 then e else wsa_econnreset
           | None \<Rightarrow> wsa_econnreset)"

section \<open>Connecting and sending\<close>

definition win_connect :: "int + address_attempt list \<Rightarrow> transport \<Rightarrow> transport \<times> unit result" where
  "win_connect resolved t =
     (case resolved of
        Inl e \<Rightarrow> (t, Inl (winsock_error ''failed to resolve sensor'' e))
      | Inr attempts \<Rightarrow>
          (case try_addresses attempts wsa_ehostunreach of
             Inl e \<Rightarrow> (t, Inl (winsock_error ''failed to connect UDP socket'' e))
           | Inr s \<Rightarrow> (t\<lparr>tr_socket := Some s, shutdown_requested := False\<rparr>, Inr ())))"

definition win_send :: "os_count \<Rightarrow> u8 list \<Rightarrow> transport \<Rightarrow> unit result" where
  "win_send answer request t =
     (if tr_socket t = None then Inl (RuntimeError ''UDP socket is not connected'')
      else case answer of
             Inl e \<Rightarrow> Inl (winsock_error ''failed to send UDP request'' e)
           | Inr n \<Rightarrow> throw_if (n \<noteq> length request) (RuntimeError ''short UDP request write''))"

section \<open>Receiving\<close>

text \<open>
  One turn of the wait: whether a shutdown was requested when the turn looks, the clock, and
  the answer of \<open>WSAPoll\<close>: failed, nothing yet with the clock read again, or events.
\<close>

datatype win_poll = Win_Failed int | Win_Nothing ticks | Win_Ready win_events

datatype win_end = Gives_Up | Has_Events win_events

definition shutdown_check_interval :: int where
  "shutdown_check_interval = 50"

definition poll_timeout :: "ticks \<Rightarrow> ticks \<Rightarrow> fp" where
  "poll_timeout deadline now =
     (if deadline - now > 0
      then fmin (seconds_of (deadline - now))
                (fdiv binary64 (Fin False (of_int shutdown_check_interval)) (Fin False 1000))
      else fzero)"

definition win_timeout_milliseconds :: "fp \<Rightarrow> int" where
  "win_timeout_milliseconds timeout =
     (let milliseconds = fceil (fmul binary64 timeout (Fin False 1000))
      in if fle (Fin False (of_int int_max)) milliseconds then int_max else ftrunc milliseconds)"

lemma win_timeout_milliseconds_eq: "win_timeout_milliseconds = timeout_milliseconds"
  by (simp add: fun_eq_iff win_timeout_milliseconds_def timeout_milliseconds_def)

fun win_wait :: "ticks \<Rightarrow> (bool \<times> ticks \<times> win_poll) list \<Rightarrow> win_end result option \<times> int list" where
  "win_wait deadline [] = (None, [])"
| "win_wait deadline ((shut, now, answer) # turns) =
     (if shut then (Some (Inr Gives_Up), [])
      else let ms = min shutdown_check_interval (win_timeout_milliseconds (poll_timeout deadline now)) in
        case answer of
          Win_Failed e \<Rightarrow>
            (Some (if e = wsa_eintr then Inr Gives_Up
                   else Inl (winsock_error ''failed to wait for UDP record'' e)), [ms])
        | Win_Ready ev \<Rightarrow> (Some (Inr (Has_Events ev)), [ms])
        | Win_Nothing now' \<Rightarrow>
            if now' \<ge> deadline then (Some (Inr Gives_Up), [ms])
            else let (r, asked) = win_wait deadline turns in (r, ms # asked))"

text \<open>\<open>recv\<close>, and whether a shutdown was requested when its error is looked at.\<close>

datatype win_recv = Win_Recv_Failed int bool | Win_Datagram "u8 list"

definition win_receive_end :: "nat \<Rightarrow> win_end result \<Rightarrow> win_recv \<Rightarrow> transport \<Rightarrow> u8 list result" where
  "win_receive_end capacity waited answer t =
     and_then waited (\<lambda>w. case w of
       Gives_Up \<Rightarrow> Inr []
     | Has_Events ev \<Rightarrow>
         (if shutdown_requested t then Inr []
          else if ev_err ev \<or> ev_hup ev \<or> ev_nval ev
          then Inl (winsock_error ''failed to wait for UDP record'' (socket_wait_error ev))
          else case answer of
                 Win_Datagram bytes \<Rightarrow> Inr (take (min capacity (nat int_max)) bytes)
               | Win_Recv_Failed e shut \<Rightarrow>
                   if shut \<or> e = wsa_eintr \<or> e = wsa_eshutdown then Inr []
                   else Inl (winsock_error ''failed to receive UDP record'' e)))"

text \<open>
  The whole of \<open>receive\<close>: the clock that the deadline starts from, the turns of the wait,
  whether a shutdown comes in before the second look at the state, and the answer of \<open>recv\<close>.
\<close>

definition win_receive ::
  "nat \<Rightarrow> ticks \<Rightarrow> fp \<Rightarrow> (bool \<times> ticks \<times> win_poll) list \<Rightarrow> bool \<Rightarrow> win_recv \<Rightarrow> transport \<Rightarrow> u8 list result option" where
  "win_receive capacity now timeout turns shut answer t =
     (if tr_socket t = None then Some (Inl (RuntimeError ''UDP socket is not connected''))
      else if shutdown_requested t then Some (Inr [])
      else case checked_deadline now timeout of
             Inl e \<Rightarrow> Some (Inl e)
           | Inr deadline \<Rightarrow>
               map_option (\<lambda>w. win_receive_end capacity w answer
                   (t\<lparr>shutdown_requested := shut \<or> shutdown_requested t\<rparr>))
                 (fst (win_wait deadline turns)))"

definition win_shutdown :: "transport \<Rightarrow> transport" where
  "win_shutdown t = t\<lparr>shutdown_requested := True\<rparr>"

definition win_close :: "transport \<Rightarrow> transport" where
  "win_close t = \<lparr>tr_socket = None, shutdown_requested = True\<rparr>"

section \<open>The wait never blocks long\<close>

text \<open>Each poll waits 50 ms at most, so a shutdown request is seen within that time.\<close>

lemma win_wait_asks: "ms \<in> set (snd (win_wait deadline turns)) \<Longrightarrow> ms \<le> 50"
  by (induction deadline turns rule: win_wait.induct)
    (auto simp: Let_def shutdown_check_interval_def split: if_splits win_poll.splits prod.splits)

text \<open>The POSIX \<open>receive\<close> as a whole, in the same terms.\<close>

definition transport_receive ::
  "(int \<Rightarrow> string) \<Rightarrow> nat \<Rightarrow> ticks \<Rightarrow> fp \<Rightarrow> poll_answer list \<Rightarrow> bool \<Rightarrow> recv_answer \<Rightarrow> transport \<Rightarrow> u8 list result option" where
  "transport_receive strerror capacity now timeout polls shut answer t =
     (case receive_begin t of
        Inl e \<Rightarrow> Some (Inl e)
      | Inr None \<Rightarrow> Some (Inr [])
      | Inr (Some s) \<Rightarrow>
          map_option (\<lambda>w. receive_end strerror capacity w answer
              (t\<lparr>shutdown_requested := shut \<or> shutdown_requested t\<rparr>))
            (receive_wait strerror now timeout polls))"

section \<open>The contract of both variants\<close>

text \<open>
  What the client relies on: a failed connect changes nothing, a shut-down transport gives no
  bytes, a closed one does not send either, and only a successful connect undoes that.
\<close>

locale datagram_transport =
  fixes connect :: "'c \<Rightarrow> transport \<Rightarrow> transport \<times> unit result"
    and send :: "'a \<Rightarrow> u8 list \<Rightarrow> transport \<Rightarrow> unit result"
    and receive :: "'r \<Rightarrow> transport \<Rightarrow> u8 list result option"
    and shut :: "transport \<Rightarrow> transport" and close :: "transport \<Rightarrow> transport"
  assumes failed_connect: "connect c t = (t', Inl e) \<Longrightarrow> t' = t"
    and shut_state: "shut t = t\<lparr>shutdown_requested := True\<rparr>"
    and close_state: "close t = \<lparr>tr_socket = None, shutdown_requested = True\<rparr>"
    and silent: "shutdown_requested t \<Longrightarrow> receive r t = Some (Inr bs) \<Longrightarrow> bs = []"
    and answers: "shutdown_requested t \<Longrightarrow> receive r t \<noteq> None"
    and unsent: "tr_socket t = None \<Longrightarrow> send a request t \<noteq> Inr ()"
begin

text \<open>The operations that end or do not begin a connection.\<close>

inductive winds_down :: "transport \<Rightarrow> transport \<Rightarrow> bool" where
  done_already: "winds_down t t"
| by_shutdown: "winds_down t t' \<Longrightarrow> winds_down t (shut t')"
| by_close: "winds_down t t' \<Longrightarrow> winds_down t (close t')"
| by_failed_connect: "winds_down t t' \<Longrightarrow> connect c t' = (t'', Inl e) \<Longrightarrow> winds_down t t''"

lemma winds_down_shut: "winds_down t t' \<Longrightarrow> shutdown_requested t \<Longrightarrow> shutdown_requested t'"
  by (induction rule: winds_down.induct) (auto simp: shut_state close_state dest: failed_connect)

lemma winds_down_closed: "winds_down t t' \<Longrightarrow> tr_socket t = None \<Longrightarrow> tr_socket t' = None"
  by (induction rule: winds_down.induct) (auto simp: shut_state close_state dest: failed_connect)

lemma quiet_after_shutdown:
  assumes "winds_down (shut t) t'"
  shows "\<exists>res. receive r t' = Some res \<and> (\<forall>bs. res = Inr bs \<longrightarrow> bs = [])"
proof -
  have "shutdown_requested t'" using winds_down_shut [OF assms] by (simp add: shut_state)
  then show ?thesis using silent answers by (metis option.exhaust)
qed

lemma dead_after_close:
  assumes "winds_down (close t) t'"
  shows "send a request t' \<noteq> Inr () \<and> shutdown_requested t'"
  using winds_down_shut [OF assms] winds_down_closed [OF assms] unsent by (simp add: close_state)

end

interpretation posix: datagram_transport
  "\<lambda>(strerror, resolved). transport_connect strerror resolved"
  "\<lambda>(strerror, answer). transport_send strerror answer"
  "\<lambda>(strerror, capacity, now, timeout, polls, shut, answer). transport_receive strerror capacity now timeout polls shut answer"
  transport_shutdown transport_close
  by unfold_locales
    (auto simp: transport_connect_def transport_send_def transport_receive_def transport_shutdown_def
      transport_close_def receive_begin_def split: sum.splits prod.splits option.splits)

interpretation windows: datagram_transport
  win_connect win_send
  "\<lambda>(capacity, now, timeout, turns, shut, answer). win_receive capacity now timeout turns shut answer"
  win_shutdown win_close
  by unfold_locales
    (auto simp: win_connect_def win_send_def win_receive_def win_shutdown_def win_close_def
      split: sum.splits prod.splits option.splits if_split_asm)

text \<open>
  C27: on both platforms shutting down and closing are final until the next successful
  connect: after a shutdown, whatever further shutdowns, closes and failed connects come, a
  \<open>receive\<close> returns at once and without bytes, whatever the system answers; after a close no
  request is sent either.
\<close>

theorem transports_stay_down:
  "(posix.winds_down (transport_shutdown t) t' \<longrightarrow>
     (\<exists>res. transport_receive strerror n now d polls later answer t' = Some res \<and> (\<forall>bs. res = Inr bs \<longrightarrow> bs = [])))
   \<and> (windows.winds_down (win_shutdown t) t' \<longrightarrow>
     (\<exists>res. win_receive n now d turns later answer' t' = Some res \<and> (\<forall>bs. res = Inr bs \<longrightarrow> bs = [])))
   \<and> (posix.winds_down (transport_close t) t' \<longrightarrow> transport_send strerror sent request t' \<noteq> Inr ())
   \<and> (windows.winds_down (win_close t) t' \<longrightarrow> win_send sent request t' \<noteq> Inr ())"
  using posix.quiet_after_shutdown [of t t' "(strerror, n, now, d, polls, later, answer)"]
    windows.quiet_after_shutdown [of t t' "(n, now, d, turns, later, answer')"]
    posix.dead_after_close [of t t' "(strerror, sent)" request]
    windows.dead_after_close [of t t' sent request]
  by simp

theorem transports_stay_down_witness:
  "win_receive 65536 0 fone [(False, 0, Win_Ready \<lparr>ev_nval = False, ev_err = False, ev_hup = False, ev_pending = None\<rparr>)]
     False (Win_Datagram [1, 2]) (fst (win_connect (Inl 11001) (win_shutdown \<lparr>tr_socket = Some 3, shutdown_requested = False\<rparr>)))
   = Some (Inr [])"
  (is "win_receive _ _ _ ?turns _ ?a ?t = _")
proof -
  have "windows.winds_down (win_shutdown \<lparr>tr_socket = Some 3, shutdown_requested = False\<rparr>) ?t"
    by (rule windows.winds_down.by_failed_connect [OF windows.winds_down.done_already, where c = "Inl 11001"])
      (simp add: win_connect_def)
  then have "\<exists>res. win_receive 65536 0 fone ?turns False ?a ?t = Some res \<and> (\<forall>bs. res = Inr bs \<longrightarrow> bs = [])"
    using transports_stay_down [of "\<lparr>tr_socket = Some 3, shutdown_requested = False\<rparr>" ?t] by blast
  then show ?thesis by (auto simp: win_receive_def win_shutdown_def win_connect_def)
qed

end
