(* ===== verification/Discovery.thy ===== *)
theory Discovery
  imports Xml_Config
begin

text \<open>
  Fetching the sensor's configuration, \<open>src/core/src/discovery.cpp\<close>: the validation of the
  options, the URL and the request, the bounded response buffer that libcurl writes to, and
  what is made of the answer. libcurl is a parameter: the record \<open>curl\<close> holds its answers.
  As documented, \<open>curl_easy_perform\<close> passes the body to the write function chunk by chunk and
  gives up once that function does not take a chunk as a whole.
\<close>

section \<open>Options\<close>

record discovery_options =
  do_sensor_host :: string
  do_http_port :: int
  do_connect_timeout :: fp
  do_total_timeout :: fp

definition discovery_timeout_ms :: "fp \<Rightarrow> string \<Rightarrow> int result" where
  "discovery_timeout_ms seconds name =
     (let rejected = discovery_error (name @ '' must be finite, positive, and representable'') in
      if \<not> isfinite seconds \<or> fle seconds fzero then rejected
      else let ms = fceil (fmul extended80 seconds (Fin False 1000))
           in if \<not> isfinite ms \<or> flt (Fin False (of_int ticks_max)) ms then rejected
              else Inr (ftrunc ms))"

definition is_ascii_blank :: "string \<Rightarrow> bool" where
  "is_ascii_blank value \<longleftrightarrow>
     (if value = [] then True
      else list_all (\<lambda>c. c = CHR '' '' \<or> c = CHR 0x09 \<or> c = CHR 0x0A \<or> c = CHR 0x0D \<or> c = CHR 0x0C \<or> c = CHR 0x0B) value)"

text \<open>Discovery means the same by a blank host as the client does.\<close>

lemma is_ascii_blank_eq [simp]: "is_ascii_blank value = is_blank value"
  by (auto simp: is_ascii_blank_def is_blank_def is_space_def list_all_iff)

definition validate_options :: "discovery_options \<Rightarrow> unit result" where
  "validate_options o' =
     (if is_ascii_blank (do_sensor_host o') then discovery_error ''sensor_host must not be blank''
      else if do_http_port o' < 1 \<or> do_http_port o' > 65535
      then discovery_error ''http_port must be in the range 1..65535''
      else and_then (discovery_timeout_ms (do_connect_timeout o') ''connect_timeout'') (\<lambda>_.
           and_then (discovery_timeout_ms (do_total_timeout o') ''total_timeout'') (\<lambda>_.
           Inr ())))"

text \<open>An IPv6 address is put into brackets unless it has them.\<close>

definition url_host :: "string \<Rightarrow> string" where
  "url_host host =
     (if CHR '':'' \<in> set host \<and> (length host < 2 \<or> hd host \<noteq> CHR ''['' \<or> last host \<noteq> CHR '']'')
      then ''['' @ host @ '']'' else host)"

definition url_parts :: "discovery_options \<Rightarrow> (string \<times> string) list" where
  "url_parts o' = [(''SCHEME'', ''http''), (''HOST'', url_host (do_sensor_host o')),
     (''PORT'', dec_of_int (do_http_port o')), (''PATH'', ''/netftapi2.xml'')]"

section \<open>The response\<close>

definition maximum_response_bytes :: u64 where
  "maximum_response_bytes = 65536"

record response =
  body :: string
  too_large :: bool
  write_failed :: bool

text \<open>One call of the write function; \<open>stored\<close> says whether the string could grow.\<close>

definition append_response :: "string \<Rightarrow> u64 \<Rightarrow> u64 \<Rightarrow> bool \<Rightarrow> response \<Rightarrow> response \<times> u64" where
  "append_response data sz count stored r =
     (if sz \<noteq> 0 \<and> count > (- 1) div sz then (r\<lparr>too_large := True\<rparr>, 0)
      else let byte_count = sz * count in
        if byte_count > maximum_response_bytes - of_nat (length (body r))
        then (r\<lparr>too_large := True\<rparr>, 0)
        else if \<not> stored then (r\<lparr>write_failed := True\<rparr>, 0)
        else (r\<lparr>body := body r @ take (unat byte_count) data\<rparr>, byte_count))"

section \<open>libcurl\<close>

text \<open>The values of the options: a text, a number, or an object of the request.\<close>

datatype curl_value = Text string | Number_Of int | The_Url | The_Writer | The_Response

text \<open>A chunk: its bytes, the size and count it is announced with, and whether it could be stored.\<close>

type_synonym chunk = "string \<times> u64 \<times> u64 \<times> bool"

record curl =
  cu_initialised :: bool
  cu_handle :: bool
  cu_url :: bool
  cu_set_part :: "string \<Rightarrow> string \<Rightarrow> bool"
  cu_set_option :: "string \<Rightarrow> curl_value \<Rightarrow> bool"
  cu_chunks :: "chunk list"
  cu_error :: "string option"
  cu_status :: "int option"

text \<open>
  \<open>curl_global_init\<close> is called once in a process: the flag, \<open>None\<close> until then, keeps its answer,
  and later requests get that one.
\<close>

definition initialize_curl_once :: "bool \<Rightarrow> bool option \<Rightarrow> bool option \<times> bool" where
  "initialize_curl_once answer once =
     (let result = (case once of None \<Rightarrow> answer | Some r \<Rightarrow> r) in (Some result, result))"

lemma initialize_curl_once_kept:
  "initialize_curl_once answer once = (once', r) \<Longrightarrow> initialize_curl_once answer' once' = (once', r)"
  by (auto simp: initialize_curl_once_def split: option.splits)

fun set_url_parts :: "curl \<Rightarrow> (string \<times> string) list \<Rightarrow> unit result" where
  "set_url_parts cu [] = Inr ()"
| "set_url_parts cu ((part, v) # parts) =
     (if \<not> cu_set_part cu part v then discovery_error ''invalid sensor discovery URL''
      else set_url_parts cu parts)"

fun set_curl_options :: "curl \<Rightarrow> (string \<times> curl_value) list \<Rightarrow> unit result" where
  "set_curl_options cu [] = Inr ()"
| "set_curl_options cu ((option, v) # options) =
     (if \<not> cu_set_option cu option v then discovery_error ''failed to configure sensor discovery request''
      else set_curl_options cu options)"

definition request_options :: "int \<Rightarrow> int \<Rightarrow> (string \<times> curl_value) list" where
  "request_options connect_ms total_ms =
     [(''CURLU'', The_Url), (''PROTOCOLS'', Text ''http''), (''FOLLOWLOCATION'', Number_Of 0),
      (''MAXREDIRS'', Number_Of 0), (''NOSIGNAL'', Number_Of 1), (''PROXY'', Text []),
      (''CONNECTTIMEOUT_MS'', Number_Of connect_ms), (''TIMEOUT_MS'', Number_Of total_ms),
      (''WRITEFUNCTION'', The_Writer), (''WRITEDATA'', The_Response)]"

fun transfer :: "chunk list \<Rightarrow> response \<Rightarrow> response" where
  "transfer [] r = r"
| "transfer ((data, sz, count, stored) # chunks) r =
     (let (r', taken) = append_response data sz count stored r
      in if taken \<noteq> sz * count then r' else transfer chunks r')"

definition discover_sensor :: "curl \<Rightarrow> discovery_options \<Rightarrow> sensor_configuration result" where
  "discover_sensor cu o' =
     and_then (validate_options o') (\<lambda>_.
     and_then (if \<not> cu_initialised cu then discovery_error ''failed to initialize HTTP transport'' else Inr ()) (\<lambda>_.
     and_then (if \<not> cu_handle cu then discovery_error ''failed to create HTTP transport'' else Inr ()) (\<lambda>_.
     and_then (if \<not> cu_url cu then discovery_error ''failed to create sensor discovery URL'' else Inr ()) (\<lambda>_.
     and_then (set_url_parts cu (url_parts o')) (\<lambda>_.
     and_then (discovery_timeout_ms (do_connect_timeout o') ''connect_timeout'') (\<lambda>connect_ms.
     and_then (discovery_timeout_ms (do_total_timeout o') ''total_timeout'') (\<lambda>total_ms.
     and_then (set_curl_options cu (request_options connect_ms total_ms)) (\<lambda>_.
     (let r = transfer (cu_chunks cu) \<lparr>body = [], too_large = False, write_failed = False\<rparr> in
      if too_large r then discovery_error ''sensor configuration response exceeds 65536 bytes''
      else if write_failed r then discovery_error ''failed to store sensor configuration response''
      else case cu_error cu of
             Some m \<Rightarrow> discovery_error (''sensor configuration request failed: '' @ m)
           | None \<Rightarrow>
               (case cu_status cu of
                  None \<Rightarrow> discovery_error ''failed to inspect sensor configuration response''
                | Some status \<Rightarrow>
                    if status \<noteq> 200
                    then discovery_error (''sensor configuration request returned HTTP '' @ dec_of_int status)
                    else parse_sensor_configuration (body r)))))))))))"

section \<open>The response is bounded and complete\<close>

definition response_ok :: "response \<Rightarrow> bool" where
  "response_ok r \<longleftrightarrow> length (body r) \<le> 65536"

lemma append_response_cases:
  assumes "response_ok r" and "append_response data sz count stored r = (r', taken)"
  shows "response_ok r'
    \<and> (too_large r' \<or> write_failed r' \<or>
       taken = sz * count \<and> unat sz * unat count \<le> 65536 \<and>
       r' = r\<lparr>body := body r @ take (unat sz * unat count) data\<rparr>)"
proof (cases "sz \<noteq> 0 \<and> count > (- 1) div sz")
  case False
  have "unat sz * unat count < 2 ^ 64"
  proof (cases "sz = 0")
    case nz: False
    with False have "unat count \<le> unat ((- 1) div sz)" by (simp add: word_le_nat_alt not_less)
    also have "\<dots> = (2 ^ 64 - 1) div unat sz"
    proof -
      have "unat (- 1 :: u64) = 2 ^ 64 - 1" by (simp add: unsigned_minus_1_eq_mask mask_eq_exp_minus_1)
      then show ?thesis by (simp only: unat_div)
    qed
    finally have "unat sz * unat count \<le> unat sz * ((2 ^ 64 - 1) div unat sz)" by simp
    also have "\<dots> \<le> 2 ^ 64 - 1" by (rule times_div_less_eq_dividend)
    finally show ?thesis by simp
  qed simp
  then have prod: "unat (sz * count) = unat sz * unat count"
    by (simp add: unat_word_ariths(2))
  have len: "length (body r) \<le> 65536" using assms(1) by (simp add: response_ok_def)
  then have rest: "unat (maximum_response_bytes - of_nat (length (body r))) = 65536 - length (body r)"
    by (simp add: maximum_response_bytes_def unat_sub word_le_nat_alt unat_of_nat)
  show ?thesis
  proof (cases "sz * count > maximum_response_bytes - of_nat (length (body r)) \<or> \<not> stored")
    case True
    then show ?thesis using assms False by (auto simp: append_response_def Let_def response_ok_def split: if_splits)
  next
    case fits: False
    then have "unat sz * unat count \<le> 65536 - length (body r)"
      using prod rest by (simp add: word_le_nat_alt not_less)
    then show ?thesis
      using assms False fits len prod by (auto simp: append_response_def Let_def response_ok_def)
  qed
qed (use assms in \<open>auto simp: append_response_def response_ok_def\<close>)

definition chunk_bytes :: "chunk \<Rightarrow> string" where
  "chunk_bytes c = (case c of (data, sz, count, stored) \<Rightarrow> take (unat sz * unat count) data)"

lemma transfer_cases:
  assumes "response_ok r"
  shows "response_ok (transfer chunks r) \<and>
    (too_large (transfer chunks r) \<or> write_failed (transfer chunks r) \<or>
     body (transfer chunks r) = body r @ concat (map chunk_bytes chunks))"
  using assms
proof (induction chunks r rule: transfer.induct)
  case (2 data sz count stored chunks r)
  obtain r' taken where a: "append_response data sz count stored r = (r', taken)" by force
  note cs = append_response_cases [OF "2.prems" a]
  show ?case
  proof (cases "taken = sz * count")
    case True
    have ok: "response_ok r'" using cs by blast
    note ih = "2.IH" [OF a [symmetric] refl, simplified, OF _ ok]
    show ?thesis
    proof (cases "too_large r' \<or> write_failed r'")
      case True
      have "too_large q \<Longrightarrow> too_large (transfer cs' q)" and "write_failed q \<Longrightarrow> write_failed (transfer cs' q)" for cs' q
        by (induction cs' q rule: transfer.induct)
          (auto simp: append_response_def Let_def split: if_splits prod.splits)
      with True ih \<open>taken = sz * count\<close> show ?thesis by (auto simp: a)
    next
      case False
      with cs have "r' = r\<lparr>body := body r @ take (unat sz * unat count) data\<rparr>" by blast
      with ih True show ?thesis by (auto simp: a chunk_bytes_def)
    qed
  next
    case False
    with cs show ?thesis by (auto simp: a)
  qed
qed simp

section \<open>What discovery promises\<close>

lemma discovery_only_timeout: "discovery_only (discovery_timeout_ms t n)"
  by (simp add: discovery_timeout_ms_def Let_def)

lemma discovery_only_steps:
  "discovery_only (validate_options o')" "discovery_only (set_url_parts cu ps)"
  "discovery_only (set_curl_options cu os)"
proof -
  show "discovery_only (validate_options o')"
    by (simp add: validate_options_def discovery_only_and_then discovery_only_timeout)
  show "discovery_only (set_url_parts cu ps)" by (induction cu ps rule: set_url_parts.induct) simp_all
  show "discovery_only (set_curl_options cu os)" by (induction cu os rule: set_curl_options.induct) simp_all
qed

lemma discovery_only_parse: "discovery_only (parse_sensor_configuration xml)"
  using parse_throws_discovery_error_only [of xml]
  by (auto simp: discovery_only_def split: sum.splits)

lemma discover_discovery_only: "discovery_only (discover_sensor cu o')"
  unfolding discover_sensor_def Let_def
  by (intro discovery_only_and_then discovery_only_steps discovery_only_timeout)
    (simp_all add: discovery_only_parse split: option.split)

lemma discover_outcome:
  "case discover_sensor cu o' of
     Inl e \<Rightarrow> \<exists>m. e = DiscoveryError m
   | Inr c \<Rightarrow> cu_status cu = Some 200 \<and> cu_error cu = None \<and>
       length (concat (map chunk_bytes (cu_chunks cu))) \<le> 65536 \<and>
       parse_sensor_configuration (concat (map chunk_bytes (cu_chunks cu))) = Inr c"
proof (cases "discover_sensor cu o'")
  case (Inl e)
  then show ?thesis using discover_discovery_only [of cu o'] by (simp add: discovery_only_def)
next
  case (Inr c)
  let ?r = "transfer (cu_chunks cu) \<lparr>body = [], too_large = False, write_failed = False\<rparr>"
  have "\<not> too_large ?r" "\<not> write_failed ?r" "cu_status cu = Some 200" "cu_error cu = None"
    "parse_sensor_configuration (body ?r) = Inr c"
    using Inr unfolding discover_sensor_def and_then_Inr Let_def
    by (auto simp: parser_results split: if_splits option.splits)
  moreover have "response_ok \<lparr>body = [], too_large = False, write_failed = False\<rparr>"
    by (simp add: response_ok_def)
  from transfer_cases [OF this, of "cu_chunks cu"] calculation(1,2)
  have "body ?r = concat (map chunk_bytes (cu_chunks cu))" "length (body ?r) \<le> 65536"
    by (auto simp: response_ok_def)
  ultimately show ?thesis using Inr by simp
qed

lemma discovered_validates:
  assumes "discover_sensor cu o' = Inr cfg"
  shows "validate_calibration (calibration cfg) = Inr ()"
  using discover_outcome [of cu o'] assms parse_result_sound by auto

text \<open>
  C39: discovery fails with a discovery error or gives a sensor configuration parsed from the
  complete body, every chunk of it, of a response with status 200 and no more than 65536
  bytes; nothing else ever comes out, whatever libcurl answers.
\<close>

theorem discover_sensor_contract:
  "case discover_sensor cu o' of
     Inl e \<Rightarrow> \<exists>m. e = DiscoveryError m
   | Inr c \<Rightarrow> cu_status cu = Some 200 \<and> cu_error cu = None \<and>
       length (concat (map chunk_bytes (cu_chunks cu))) \<le> 65536 \<and>
       parse_sensor_configuration (concat (map chunk_bytes (cu_chunks cu))) = Inr c"
  by (rule discover_outcome)

section \<open>The client's configuration is acceptable to discovery\<close>

text \<open>The options that a session fills in, \<open>Client::Impl::configuration_for_session\<close>.\<close>

definition session_options :: "config \<Rightarrow> discovery_options" where
  "session_options c = \<lparr>do_sensor_host = sensor_host c, do_http_port = http_port c,
     do_connect_timeout = configuration_connect_timeout c, do_total_timeout = configuration_timeout c\<rparr>"

lemma fceil_finite: "isfinite (fceil x) = isfinite x"
  by (cases x) simp_all

lemma accepted_timeout_ms:
  assumes "timeout_ok now v" and "http_timeout_ok v"
  shows "\<exists>ms. discovery_timeout_ms v name = Inr ms"
proof -
  from assms(1) have v: "isfinite v" "flt fzero v" by (simp_all add: timeout_ok_def)
  then obtain q where q: "v = Fin False q" by (cases v) (auto simp: fzero_def split: if_splits)
  let ?ms = "fceil (fmul extended80 v (Fin False 1000))"
  have "\<not> fle (Fin False (of_int ticks_max)) ?ms" using assms(2) by (simp add: http_timeout_ok_def)
  moreover have "isfinite ?ms \<and> \<not> flt (Fin False (of_int ticks_max)) ?ms"
    if "\<not> fle (Fin False (of_int ticks_max)) ?ms"
    using that unfolding fceil_finite
    by (cases "fmul extended80 v (Fin False 1000)") (auto simp: q fround_def Let_def split: if_splits)
  ultimately show ?thesis
    using v by (simp add: discovery_timeout_ms_def Let_def fle_fzero_iff)
qed

lemma session_options_valid:
  assumes "validate_config now c = Inr ()"
  shows "validate_options (session_options c) = Inr ()"
proof -
  have ok: "config_ok now c" using assms by (simp add: validate_config_iff)
  then obtain a b where "discovery_timeout_ms (configuration_connect_timeout c) ''connect_timeout'' = Inr a"
    "discovery_timeout_ms (configuration_timeout c) ''total_timeout'' = Inr b"
    using accepted_timeout_ms by (metis config_ok_def)
  then show ?thesis using ok by (simp add: validate_options_def session_options_def config_ok_def)
qed

end
