(* ===== verification/Unit_Conversion.thy ===== *)
theory Unit_Conversion
  imports Types
begin

text \<open>
  Conversion of samples to SI units for the ROS adapters,
  \<open>src/ros/unit_conversion.{hpp,cpp}\<close>. A decimal literal of the source is the double nearest
  to it.
\<close>

section \<open>Scales\<close>

definition literal :: "rat \<Rightarrow> fp" where
  "literal q = fround binary64 False q"

record si_sample =
  si_rdt_sequence :: u32
  si_ft_sequence :: u32
  si_status :: u32
  si_force :: "fp list"
  si_torque :: "fp list"
  si_configuration_revision :: u64
  si_received_at :: ticks

definition si_error :: "'a result" where
  "si_error = Inl (InvalidArgument ''measurement cannot be represented in SI units'')"

definition checked_scale :: "fp \<Rightarrow> fp \<Rightarrow> fp result" where
  "checked_scale value scale =
     (if \<not> isfinite value \<or> flt fone scale \<and> flt (fdiv binary64 dbl_max scale) (fabs value)
      then si_error
      else let r = fmul binary64 value scale in if \<not> isfinite r then si_error else Inr r)"

fun force_scale_to_newtons :: "force_unit \<Rightarrow> fp result" where
  "force_scale_to_newtons Newton = Inr fone"
| "force_scale_to_newtons KiloNewton = Inr (Fin False 1000)"
| "force_scale_to_newtons PoundForce = Inr (literal (44482216152605 / 10 ^ 13))"
| "force_scale_to_newtons KiloPoundForce = Inr (literal (44482216152605 / 10 ^ 10))"
| "force_scale_to_newtons KilogramForce = Inr (literal (980665 / 10 ^ 5))"
| "force_scale_to_newtons FU_Unknown = Inl (InvalidArgument ''Unknown force unit'')"

fun torque_scale_to_newton_metres :: "torque_unit \<Rightarrow> fp result" where
  "torque_scale_to_newton_metres NewtonMeter = Inr fone"
| "torque_scale_to_newton_metres NewtonMillimeter = Inr (literal (1 / 1000))"
| "torque_scale_to_newton_metres PoundForceInch = Inr (literal (1129848290276167 / 10 ^ 16))"
| "torque_scale_to_newton_metres PoundForceFoot = Inr (literal (13558179483314004 / 10 ^ 16))"
| "torque_scale_to_newton_metres KilogramForceCentimeter = Inr (literal (980665 / 10 ^ 7))"
| "torque_scale_to_newton_metres KiloNewtonMeter = Inr (Fin False 1000)"
| "torque_scale_to_newton_metres TU_Unknown = Inl (InvalidArgument ''Unknown torque unit'')"

section \<open>Samples\<close>

definition si_sample_is_finite :: "si_sample \<Rightarrow> bool" where
  "si_sample_is_finite s \<longleftrightarrow>
     list_all (\<lambda>(f, t). isfinite f \<and> isfinite t) (zip (si_force s) (si_torque s))"

text \<open>The loop: force and torque of one axis after the other, the first failure thrown.\<close>

fun scale_axes :: "fp \<Rightarrow> fp \<Rightarrow> (fp \<times> fp) list \<Rightarrow> (fp \<times> fp) list result" where
  "scale_axes fs ts [] = Inr []"
| "scale_axes fs ts ((f, t) # axes) =
     and_then (checked_scale f fs) (\<lambda>f'.
     and_then (checked_scale t ts) (\<lambda>t'.
     and_then (scale_axes fs ts axes) (\<lambda>rest. Inr ((f', t') # rest))))"

definition to_si_sample :: "sample \<Rightarrow> si_sample result" where
  "to_si_sample s =
     and_then (force_scale_to_newtons (smp_force_unit s)) (\<lambda>fs.
     and_then (torque_scale_to_newton_metres (smp_torque_unit s)) (\<lambda>ts.
     and_then (scale_axes fs ts (zip (smp_force s) (smp_torque s))) (\<lambda>axes.
     Inr \<lparr>si_rdt_sequence = smp_rdt_sequence s, si_ft_sequence = smp_ft_sequence s,
          si_status = smp_status s, si_force = map fst axes, si_torque = map snd axes,
          si_configuration_revision = configuration_revision s,
          si_received_at = smp_received_at s\<rparr>)))"

section \<open>The scales are the SI definitions\<close>

text \<open>
  Defined from the international pound, the inch, the foot and standard gravity; the
  spelled-out literals of the code have to be these products.
\<close>

definition standard_gravity :: rat where "standard_gravity = 980665 / 100000"
definition pound_in_kg :: rat where "pound_in_kg = 45359237 / 100000000"
definition inch_in_m :: rat where "inch_in_m = 254 / 10000"

fun newtons_per :: "force_unit \<Rightarrow> rat" where
  "newtons_per Newton = 1"
| "newtons_per KiloNewton = 1000"
| "newtons_per PoundForce = pound_in_kg * standard_gravity"
| "newtons_per KiloPoundForce = 1000 * pound_in_kg * standard_gravity"
| "newtons_per KilogramForce = standard_gravity"
| "newtons_per FU_Unknown = 0"

fun newton_metres_per :: "torque_unit \<Rightarrow> rat" where
  "newton_metres_per NewtonMeter = 1"
| "newton_metres_per NewtonMillimeter = 1 / 1000"
| "newton_metres_per PoundForceInch = newtons_per PoundForce * inch_in_m"
| "newton_metres_per PoundForceFoot = newtons_per PoundForce * 12 * inch_in_m"
| "newton_metres_per KilogramForceCentimeter = newtons_per KilogramForce / 100"
| "newton_metres_per KiloNewtonMeter = 1000"
| "newton_metres_per TU_Unknown = 0"

lemmas si_constants = standard_gravity_def pound_in_kg_def inch_in_m_def

lemma literal_int: "0 \<le> i \<Longrightarrow> i \<le> 2 ^ 53 \<Longrightarrow> literal (of_int i) = Fin False (of_int i)"
  using fof_int_exact [of i] by (simp add: literal_def fof_int_def)

lemma scales_si:
  "force_scale_to_newtons u =
     (if u = FU_Unknown then Inl (InvalidArgument ''Unknown force unit'') else Inr (literal (newtons_per u)))
   \<and> torque_scale_to_newton_metres v =
     (if v = TU_Unknown then Inl (InvalidArgument ''Unknown torque unit'') else Inr (literal (newton_metres_per v)))"
  using literal_int [of 1] literal_int [of 1000]
  by (cases u; cases v) (simp_all add: si_constants fone_def)

text \<open>
  The conversion factors are correctly rounded. For every known unit the factor is the
  double nearest to the unit's exact SI value, derived from the pound, the inch and standard
  gravity; unknown units are refused.
\<close>

theorem scales_are_si:
  "force_scale_to_newtons u =
     (if u = FU_Unknown then Inl (InvalidArgument ''Unknown force unit'') else Inr (literal (newtons_per u)))
   \<and> torque_scale_to_newton_metres v =
     (if v = TU_Unknown then Inl (InvalidArgument ''Unknown torque unit'') else Inr (literal (newton_metres_per v)))"
  by (rule scales_si)

section \<open>What a conversion gives\<close>

lemma checked_scale_Inr:
  "checked_scale v s = Inr r \<Longrightarrow> isfinite r \<and> r = fmul binary64 v s \<and> isfinite v"
  by (auto simp: checked_scale_def si_error_def Let_def split: if_splits)

lemma scale_axes_Inr:
  "scale_axes fs ts axes = Inr axes' \<Longrightarrow>
     axes' = map (\<lambda>(f, t). (fmul binary64 f fs, fmul binary64 t ts)) axes
     \<and> list_all (\<lambda>(f, t). isfinite f \<and> isfinite t) axes'"
  by (induction fs ts axes arbitrary: axes' rule: scale_axes.induct) (auto dest: checked_scale_Inr)

lemma scale_axes_Inl: "scale_axes fs ts axes = Inl e \<Longrightarrow> \<exists>m. e = InvalidArgument m"
proof (induction fs ts axes rule: scale_axes.induct)
  case (2 fs ts f t axes)
  then show ?case
    by (cases "checked_scale f fs"; cases "checked_scale t ts"; cases "scale_axes fs ts axes")
      (auto simp: checked_scale_def si_error_def Let_def split: if_splits)
qed simp

lemma to_si_sample_result:
  "case to_si_sample s of
     Inl e \<Rightarrow> (\<exists>m. e = InvalidArgument m)
   | Inr si \<Rightarrow> si_sample_is_finite si
       \<and> si_rdt_sequence si = smp_rdt_sequence s \<and> si_ft_sequence si = smp_ft_sequence s
       \<and> si_status si = smp_status s \<and> si_configuration_revision si = configuration_revision s
       \<and> si_received_at si = smp_received_at s
       \<and> zip (si_force si) (si_torque si) =
           map (\<lambda>(f, t). (fmul binary64 f (literal (newtons_per (smp_force_unit s))),
                          fmul binary64 t (literal (newton_metres_per (smp_torque_unit s)))))
             (zip (smp_force s) (smp_torque s))"
proof (cases "smp_force_unit s = FU_Unknown \<or> smp_torque_unit s = TU_Unknown")
  case True
  then show ?thesis
    using scales_si [of "smp_force_unit s" "smp_torque_unit s"] by (auto simp: to_si_sample_def)
next
  case False
  then have u: "force_scale_to_newtons (smp_force_unit s) = Inr (literal (newtons_per (smp_force_unit s)))"
    "torque_scale_to_newton_metres (smp_torque_unit s) = Inr (literal (newton_metres_per (smp_torque_unit s)))"
    using scales_si [of "smp_force_unit s" "smp_torque_unit s"] by simp_all
  show ?thesis
  proof (cases "scale_axes (literal (newtons_per (smp_force_unit s))) (literal (newton_metres_per (smp_torque_unit s)))
      (zip (smp_force s) (smp_torque s))")
    case (Inl e)
    then show ?thesis using scale_axes_Inl [OF Inl] by (simp add: to_si_sample_def u)
  next
    case (Inr axes)
    have si: "to_si_sample s = Inr \<lparr>si_rdt_sequence = smp_rdt_sequence s, si_ft_sequence = smp_ft_sequence s,
          si_status = smp_status s, si_force = map fst axes, si_torque = map snd axes,
          si_configuration_revision = configuration_revision s, si_received_at = smp_received_at s\<rparr>"
      using Inr by (simp add: to_si_sample_def u)
    have z: "zip (map fst axes) (map snd axes) = axes" by (rule zip_map_fst_snd)
    show ?thesis
      unfolding si sum.case si_sample_is_finite_def si_sample.simps z
      using scale_axes_Inr [OF Inr] by blast
  qed
qed

lemma scale_axes_length: "scale_axes fs ts xs = Inr ys \<Longrightarrow> length ys = length xs"
  by (induction fs ts xs arbitrary: ys rule: scale_axes.induct) auto

lemma to_si_sample_lengths:
  assumes "to_si_sample s = Inr si"
  shows "length (si_force si) = min (length (smp_force s)) (length (smp_torque s))"
    and "length (si_torque si) = min (length (smp_force s)) (length (smp_torque s))"
  using assms by (auto simp: to_si_sample_def dest!: scale_axes_length)

text \<open>
  C38: what a conversion promises to the publishers. It either throws an invalid-argument
  error, or gives a finite sample that keeps the sequence numbers, status, revision and
  reception time and whose components are the products with the unit's factors.
\<close>

theorem to_si_sample_contract:
  "case to_si_sample s of
     Inl e \<Rightarrow> (\<exists>m. e = InvalidArgument m)
   | Inr si \<Rightarrow> si_sample_is_finite si
       \<and> si_rdt_sequence si = smp_rdt_sequence s \<and> si_ft_sequence si = smp_ft_sequence s
       \<and> si_status si = smp_status s \<and> si_configuration_revision si = configuration_revision s
       \<and> si_received_at si = smp_received_at s
       \<and> zip (si_force si) (si_torque si) =
           map (\<lambda>(f, t). (fmul binary64 f (literal (newtons_per (smp_force_unit s))),
                          fmul binary64 t (literal (newton_metres_per (smp_torque_unit s)))))
             (zip (smp_force s) (smp_torque s))"
  by (rule to_si_sample_result)

end
