(* ===== verification/Acquisition_Trace.thy ===== *)
theory Acquisition_Trace
  imports Client_System Discovery Unit_Conversion
begin

text \<open>
  Where the samples come from. The worker of the client, the discovery of the configuration
  and the interleaved public operations, with the trace of what came in from outside: the
  datagrams that \<open>receive\<close> handed out and the configurations of the sessions. The invariant
  says that every sample on its way to the callback, or kept as the latest one, was made of
  a datagram of the trace and a configuration of the trace. The users of the client rest on
  it. No code is modelled here.
\<close>

section \<open>The trace\<close>

text \<open>A datagram, the acceptance of a record at a reading of the clock, a configuration.\<close>

datatype event = Got "u8 list" | Accepted raw_record ticks | Configured sensor_configuration

definition worker_events :: "(int \<Rightarrow> string) \<Rightarrow> answer \<Rightarrow> client \<times> worker \<Rightarrow> event list" where
  "worker_events strerror a s =
     (case pc_at (snd s) of
        Discovering \<Rightarrow>
          (case configuration_for_session (a_discovered a) (fst s) of Inr cfg \<Rightarrow> [Configured cfg] | Inl e \<Rightarrow> [])
      | ReceiveEnd d waited \<Rightarrow>
          (case receive_end strerror 65536 waited (a_received a) (transport (fst s)) of
             Inr bytes \<Rightarrow> [Got bytes] | Inl e \<Rightarrow> [])
      | ValidRecord rec \<Rightarrow> [Accepted rec (a_now a)]
      | _ \<Rightarrow> [])"

definition from_datagram :: "event list \<Rightarrow> raw_record \<Rightarrow> bool" where
  "from_datagram es rec \<longleftrightarrow>
     (\<exists>bytes. Got bytes \<in> set es \<and> decode_record (Some bytes) (length bytes) = Inr rec)"

definition calibrated_by :: "event list \<Rightarrow> sensor_configuration \<Rightarrow> bool" where
  "calibrated_by es cfg \<longleftrightarrow> (\<exists>cfg'. Configured cfg' \<in> set es \<and> calibration cfg = calibration cfg')"

definition sampled :: "event list \<Rightarrow> sample \<Rightarrow> bool" where
  "sampled es s \<longleftrightarrow>
     (\<exists>rec received_at cfg. from_datagram es rec \<and> Accepted rec received_at \<in> set es
        \<and> calibrated_by es cfg \<and> s = make_sample rec received_at cfg)"

fun pc_traced :: "event list \<Rightarrow> pc \<Rightarrow> bool" where
  "pc_traced es (Received d bytes) = (bytes = [] \<or> Got bytes \<in> set es)"
| "pc_traced es (ValidRecord rec) = from_datagram es rec"
| "pc_traced es (ObservingRecord rec r d) = (from_datagram es rec \<and> Accepted rec r \<in> set es)"
| "pc_traced es (InCallback s out d) = sampled es s"
| "pc_traced es (Delivering s out d) = sampled es s"
| "pc_traced es p = True"

definition traced :: "event list \<Rightarrow> client \<Rightarrow> worker \<Rightarrow> bool" where
  "traced es c w \<longleftrightarrow> pc_traced es (pc_at w)
     \<and> (\<forall>cfg. sensor_configuration (health c) = Some cfg \<longrightarrow> calibrated_by es cfg)
     \<and> (\<forall>s. latest c = Some s \<longrightarrow> sampled es s)"

section \<open>The trace only grows\<close>

lemma from_datagram_mono: "from_datagram es rec \<Longrightarrow> set es \<subseteq> set es' \<Longrightarrow> from_datagram es' rec"
  by (auto simp: from_datagram_def)

lemma calibrated_by_mono: "calibrated_by es cfg \<Longrightarrow> set es \<subseteq> set es' \<Longrightarrow> calibrated_by es' cfg"
  by (auto simp: calibrated_by_def)

lemma sampled_mono: "sampled es s \<Longrightarrow> set es \<subseteq> set es' \<Longrightarrow> sampled es' s"
  unfolding sampled_def using from_datagram_mono calibrated_by_mono by blast

lemma pc_traced_mono: "pc_traced es p \<Longrightarrow> set es \<subseteq> set es' \<Longrightarrow> pc_traced es' p"
  by (cases p) (auto intro: from_datagram_mono sampled_mono)

lemma traced_mono: "traced es c w \<Longrightarrow> set es \<subseteq> set es' \<Longrightarrow> traced es' c w"
  unfolding traced_def by (meson pc_traced_mono calibrated_by_mono sampled_mono)

section \<open>The worker\<close>

lemma configuration_keeps [simp]:
  "sensor_configuration (health (record_callback_error m c)) = sensor_configuration (health c)"
  "sensor_configuration (health (close_session strerror a c)) = sensor_configuration (health c)"
  "sensor_configuration (health (set_fault f m c)) = sensor_configuration (health c)"
  "latest (record_callback_error m c) = latest c" "latest (close_session strerror a c) = latest c"
  "latest (set_fault f m c) = latest c" "latest (apply_configuration cfg c) = latest c"
  by (simp_all add: record_callback_error_def close_session_def stop_streaming_def Let_def set_fault_def
      latch_publish_def apply_configuration_def split: option.split)

lemma mark_stopped_samples [simp]:
  "sensor_configuration (health (mark_stopped c)) = sensor_configuration (health c)"
  "latest (mark_stopped c) = latest c" "cl_config (mark_stopped c) = cl_config c"
  by (simp_all add: mark_stopped_def)

lemma applied_calibration:
  assumes "sensor_configuration (health (apply_configuration cfg c)) = Some cfg'"
  shows "calibration cfg' = calibration cfg"
  using assms by (auto simp: apply_configuration_def Let_def split: option.splits if_splits)

lemma pc_traced_ends [simp]:
  "pc_traced es (pc_at (end_session r m w))"
  "pc_traced es (pc_at (after_record out d w))"
  by (simp_all add: end_session_def after_record_def split: option.split)

lemma traced_worker:
  assumes "traced es (fst s) (snd s)"
  shows "traced (worker_events strerror a s @ es)
    (fst (worker_step strerror a s)) (snd (worker_step strerror a s))"
proof (cases "pc_at (snd s)")
  case Discovering
  show ?thesis
  proof (cases "configuration_for_session (a_discovered a) (fst s)")
    case (Inl e)
    then show ?thesis using Discovering assms
      by (auto simp: worker_step_def worker_events_def traced_def split: exn.split)
  next
    case (Inr cfg)
    have "traced (Configured cfg # es) (fst s) (snd s)" by (rule traced_mono [OF assms]) auto
    then show ?thesis using Discovering Inr
      by (auto simp: worker_step_def worker_events_def traced_def calibrated_by_def dest!: applied_calibration)
  qed
next
  case (ReceiveEnd d waited)
  show ?thesis
  proof (cases "receive_end strerror 65536 waited (a_received a) (transport (fst s))")
    case (Inl e)
    then show ?thesis using ReceiveEnd assms by (simp add: worker_step_def worker_events_def traced_def)
  next
    case (Inr bytes)
    have "traced (Got bytes # es) (fst s) (snd s)" by (rule traced_mono [OF assms]) auto
    then show ?thesis using ReceiveEnd Inr by (simp add: worker_step_def worker_events_def traced_def)
  qed
next
  case (Received d bytes)
  have "decode_record (Some []) 0 \<noteq> Inr rec" for rec by (simp add: decode_record_def)
  then show ?thesis using Received assms
    by (auto simp: worker_step_def worker_events_def traced_def from_datagram_def split: sum.split)
next
  case (ValidRecord rec)
  have "traced (Accepted rec (a_now a) # es) (fst s) (snd s)" by (rule traced_mono [OF assms]) auto
  then show ?thesis using ValidRecord
    by (auto simp: worker_step_def worker_events_def traced_def Let_def split: sum.split)
next
  case (ObservingRecord rec r d)
  show ?thesis
  proof (cases "sensor_configuration (health (fst s))")
    case None
    then show ?thesis using ObservingRecord assms
      by (simp add: worker_step_def worker_events_def traced_def observe_record_None)
  next
    case (Some cfg)
    have keeps: "sensor_configuration (health (observed_client rec r (fst s))) = Some cfg"
      using Some by (simp add: observed_client_def counted_health_def)
    have "sampled es (make_sample rec r cfg)"
      using assms ObservingRecord Some unfolding sampled_def traced_def by auto
    then show ?thesis using ObservingRecord Some assms keeps
      by (auto simp: worker_step_def worker_events_def traced_def observe_record_Some Let_def)
  qed
next
  case (Delivering smp out d)
  then show ?thesis using assms by (auto simp: worker_step_def worker_events_def traced_def)
qed (use assms in \<open>auto simp: worker_step_def worker_events_def traced_def Let_def case_prod_unfold
    split: sum.split exn.split option.split\<close>)

section \<open>The public operations\<close>

lemma traced_api:
  assumes "api_step strerror s s'" and "traced es (s_client s) (s_worker s)"
    and "fault_consistent (s_client s)"
  shows "traced es (s_client s') (s_worker s')"
  using assms
proof (induction rule: api_step.induct)
  case (api_stop_decide s self c' r)
  then show ?case
    using stop_decide_cases [of self "s_client s" c' r] by (auto simp: traced_def)
next
  case (api_start_check s self c' r)
  then show ?case using start_check_cases [of self "s_client s" c' r] by (auto simp: traced_def)
next
  case (api_start s self c' callback)
  then show ?case
    using start_check_Proceeds [of self "s_client s" c']
    by (simp add: traced_def start_committed_def start_reset_def worker_start_def)
next
  case (api_start_failed s self c' callback)
  then show ?case
    using start_check_Proceeds [of self "s_client s" c'] start_rollback_reset [of "s_client s" callback] by simp
next
  case (api_bias answer1 answer2 s c' r)
  then show ?case using bias_keeps [OF api_bias.hyps] by (auto simp: traced_def)
next
  case (api_health now s c' h)
  then show ?case by (auto simp: take_health_def Let_def traced_def)
qed (auto simp: stop_request_def stop_joined_def start_reaped_def stop_command_def
    stop_streaming_def transport_shutdown_def Let_def send_command_def traced_def)

lemma api_config: "api_step strerror s s' \<Longrightarrow> cl_config (s_client s') = cl_config (s_client s)"
proof (induction rule: api_step.induct)
  case (api_stop_decide s self c' r)
  then show ?case using stop_decide_cases [of self "s_client s" c' r] by auto
next
  case (api_start_check s self c' r)
  then show ?case using start_check_cases [of self "s_client s" c' r] by auto
next
  case (api_start s self c' callback)
  then show ?case
    using start_check_Proceeds [of self "s_client s" c'] by (simp add: start_committed_def start_reset_def)
next
  case (api_start_failed s self c' callback)
  then show ?case
    using start_check_Proceeds [of self "s_client s" c']
    by (auto simp: start_rollback_def start_reset_def Let_def set_fault_def latch_publish_def)
next
  case (api_bias answer1 answer2 s c' r)
  then show ?case using bias_keeps [OF api_bias.hyps] by simp
next
  case (api_health now s c' h)
  then show ?case by (auto simp: take_health_def Let_def)
qed (auto simp: stop_request_def stop_joined_def start_reaped_def)

lemma worker_config:
  "cl_config (fst (worker_step strerror a s)) = cl_config (fst s)"
  by (cases "pc_at (snd s)")
    (auto simp: worker_step_def Let_def case_prod_unfold apply_configuration_def record_callback_error_def
      close_session_def stop_streaming_def set_fault_def latch_publish_def deliver_sample_def
      observe_record_def send_command_def split: sum.split exn.split option.split)

section \<open>The configurations of the trace\<close>

text \<open>A session uses the override of its client, or what discovery gave for the client's options.\<close>

definition known_configuration :: "config \<Rightarrow> sensor_configuration \<Rightarrow> bool" where
  "known_configuration cl cfg \<longleftrightarrow>
     (case calibration_override cl of
        Some cal \<Rightarrow> calibration cfg = cal
      | None \<Rightarrow> \<exists>cu. discover_sensor cu (session_options cl) = Inr cfg)"

definition known_trace :: "config \<Rightarrow> event list \<Rightarrow> bool" where
  "known_trace cl es \<longleftrightarrow> (\<forall>cfg. Configured cfg \<in> set es \<longrightarrow> known_configuration cl cfg)"

lemma known_worker:
  assumes "known_trace cl es" and "cl_config (fst s) = cl"
    and "a_discovered a = discover_sensor cu (session_options cl)"
  shows "known_trace cl (worker_events strerror a s @ es)"
  using assms
  by (cases "pc_at (snd s)")
    (auto simp: worker_events_def known_trace_def known_configuration_def configuration_for_session_def
      split: sum.splits option.splits)

lemma known_validates:
  assumes "known_configuration cl cfg" and "validate_config now cl = Inr ()"
  shows "validate_calibration (calibration cfg) = Inr ()"
proof (cases "calibration_override cl")
  case None
  then obtain cu where "discover_sensor cu (session_options cl) = Inr cfg"
    using assms(1) by (auto simp: known_configuration_def)
  then show ?thesis by (rule discovered_validates)
next
  case (Some cal)
  then show ?thesis
    using assms by (simp add: known_configuration_def validate_config_def and_then_Inr)
qed

text \<open>What is known of a sample: the bytes and the calibration that it was made of.\<close>

lemma sampled_known:
  assumes "sampled es s" and "known_trace cl es" and "validate_config now cl = Inr ()"
  obtains bytes rec received_at cfg cal where "Got bytes \<in> set es" "Accepted rec received_at \<in> set es" "length bytes = 36"
    "decode_record (Some bytes) 36 = Inr rec" "s = make_sample rec received_at cfg"
    "calibration cfg = cal" "validate_calibration cal = Inr ()"
    "\<exists>cfg'. known_configuration cl cfg' \<and> calibration cfg' = cal"
proof -
  from assms(1) obtain rec received_at cfg where acc: "Accepted rec received_at \<in> set es"
    and "from_datagram es rec" "calibrated_by es cfg"
    and s: "s = make_sample rec received_at cfg" by (auto simp: sampled_def)
  then obtain bytes cfg' where b: "Got bytes \<in> set es" "decode_record (Some bytes) (length bytes) = Inr rec"
    and c: "Configured cfg' \<in> set es" "calibration cfg = calibration cfg'"
    by (auto simp: from_datagram_def calibrated_by_def)
  have len: "length bytes = 36" using b(2) by (auto simp: decode_record_def split: if_splits)
  have k: "known_configuration cl cfg'" using assms(2) c(1) by (simp add: known_trace_def)
  show thesis
    using that [OF b(1) acc len _ s refl] b(2) len k known_validates [OF k assms(3)] c(2) by auto
qed

section \<open>From a record to SI units\<close>

definition si_axes :: "calibration \<Rightarrow> raw_record \<Rightarrow> fp list" where
  "si_axes cal rec =
     map (\<lambda>r. fmul binary64 (scaled r (counts_per_force_unit cal)) (literal (newtons_per (force_unit cal))))
       [fx rec, fy rec, fz rec]
     @ map (\<lambda>r. fmul binary64 (scaled r (counts_per_torque_unit cal)) (literal (newton_metres_per (torque_unit cal))))
       [tx rec, ty rec, tz rec]"

lemma converted_axes:
  assumes "to_si_sample (make_sample rec received_at cfg) = Inr si"
  shows "si_force si @ si_torque si = si_axes (calibration cfg) rec" and "si_received_at si = received_at"
proof -
  let ?s = "make_sample rec received_at cfg"
  let ?f = "\<lambda>v. fmul binary64 v (literal (newtons_per (smp_force_unit ?s)))"
  let ?t = "\<lambda>v. fmul binary64 v (literal (newton_metres_per (smp_torque_unit ?s)))"
  have r: "zip (si_force si) (si_torque si) = map (\<lambda>(f, t). (?f f, ?t t)) (zip (smp_force ?s) (smp_torque ?s))"
    and "si_received_at si = smp_received_at ?s"
    using to_si_sample_result [of ?s] assms by simp_all
  then show "si_received_at si = received_at" by simp
  have l: "length (si_force si) = length (si_torque si)" using to_si_sample_lengths [OF assms] by simp
  have "si_force si = map fst (zip (si_force si) (si_torque si))" "si_torque si = map snd (zip (si_force si) (si_torque si))"
    using l by simp_all
  then show "si_force si @ si_torque si = si_axes (calibration cfg) rec"
    unfolding r by (simp add: make_sample_def Let_def si_axes_def)
qed

end
