(* ===== verification/Formatting.thy ===== *)
theory Formatting
  imports Types
begin

text \<open>
  What the adapters use of the standard library's number formatting, in the classic locale:
  \<open>std::fixed\<close> with a precision, the general format with \<open>max_digits10\<close> digits, and
  eight hexadecimal digits. A double is printed from its exact value, rounded half to even.
  The sign of a NaN is not part of the model.
\<close>

section \<open>Fixed notation\<close>

definition pad_zeros :: "nat \<Rightarrow> string \<Rightarrow> string" where
  "pad_zeros n s = replicate (n - length s) (CHR ''0'') @ s"

definition sign_prefix :: "bool \<Rightarrow> string" where
  "sign_prefix s = (if s then ''-'' else [])"

fun fixed_decimal :: "nat \<Rightarrow> fp \<Rightarrow> string" where
  "fixed_decimal p NaN = ''nan''"
| "fixed_decimal p (Inf s) = sign_prefix s @ ''inf''"
| "fixed_decimal p (Fin s q) =
     (let ds = pad_zeros (p + 1) (dec_of_nat (nat (round_half_even (\<bar>q\<bar> * 10 ^ p))));
          k = length ds - p
      in sign_prefix s @ take k ds @ (if p = 0 then [] else ''.'' @ drop k ds))"

section \<open>General notation\<close>

text \<open>The decimal exponent of a positive value.\<close>

definition ilog10 :: "rat \<Rightarrow> int" where
  "ilog10 q =
     (if 1 \<le> q then int (length (dec_of_nat (nat \<lfloor>q\<rfloor>))) - 1
      else if \<lceil>1 / q\<rceil> = 1 then 0 else - int (length (dec_of_nat (nat (\<lceil>1 / q\<rceil> - 1)))))"

definition strip_zeros :: "string \<Rightarrow> string" where
  "strip_zeros ds = rev (dropWhile (\<lambda>c. c = CHR ''0'') (rev ds))"

definition with_fraction :: "string \<Rightarrow> string \<Rightarrow> string" where
  "with_fraction whole part = (if part = [] then whole else whole @ ''.'' @ part)"

text \<open>\<open>p\<close> significant digits, scientific when the exponent is below -4 or at least \<open>p\<close>.\<close>

fun general_decimal :: "nat \<Rightarrow> fp \<Rightarrow> string" where
  "general_decimal p NaN = ''nan''"
| "general_decimal p (Inf s) = sign_prefix s @ ''inf''"
| "general_decimal p (Fin s q) =
     (if q = 0 then sign_prefix s @ ''0''
      else let e0 = ilog10 \<bar>q\<bar>;
               m0 = nat (round_half_even (\<bar>q\<bar> * 10 powi (int p - 1 - e0)));
               (m, e) = (if 10 ^ p \<le> m0 then (m0 div 10, e0 + 1) else (m0, e0));
               ds = dec_of_nat m
           in sign_prefix s @
              (if e < -4 \<or> int p \<le> e
               then with_fraction (take 1 ds) (strip_zeros (drop 1 ds)) @ ''e'' @
                    (if e < 0 then ''-'' else ''+'') @ pad_zeros 2 (dec_of_nat (nat \<bar>e\<bar>))
               else if 0 \<le> e
               then with_fraction (take (nat e + 1) ds) (strip_zeros (drop (nat e + 1) ds))
               else with_fraction ''0'' (strip_zeros (replicate (nat (- e) - 1) (CHR ''0'') @ ds))))"

section \<open>Hexadecimal\<close>

definition hex8 :: "u32 \<Rightarrow> string" where
  "hex8 w = map (\<lambda>i. hex_char (unat (drop_bit (4 * i) w AND 15))) [7, 6, 5, 4, 3, 2, 1, 0]"

lemma length_hex8 [simp]: "length (hex8 w) = 8"
  by (simp add: hex8_def)

text \<open>Eight digits determine the word.\<close>

lemma nibble_less: "unat (drop_bit k w AND 15 :: u32) < 16"
proof -
  have "drop_bit k w AND 15 \<le> (15 :: u32)" by (rule word_and_le1)
  then show ?thesis by (simp add: word_le_nat_alt)
qed

lemma nibbles_eq:
  assumes "\<forall>i \<in> {0, 1, 2, 3, 4, 5, 6, 7}. drop_bit (4 * i) v AND 15 = (drop_bit (4 * i) w AND 15 :: u32)"
  shows "v = w"
proof (rule bit_word_eqI)
  fix n assume "n < LENGTH(32)"
  then have "n div 4 < 8" by simp
  then have "n div 4 \<in> {0, 1, 2, 3, 4, 5, 6, 7}" by auto
  with assms have e: "drop_bit (4 * (n div 4)) v AND 15 = drop_bit (4 * (n div 4)) w AND 15" by blast
  have f: "(15 :: u32) = mask 4" by (simp add: mask_eq_exp_minus_1)
  have m: "n mod 4 < 4" "n mod 4 < 32" using mod_less_divisor [of 4 n] by linarith+
  have "bit (drop_bit (4 * (n div 4)) v AND mask 4) (n mod 4) = bit (drop_bit (4 * (n div 4)) w AND mask 4) (n mod 4)"
    using e f by simp
  then show "bit v n = bit w n"
    using m by (simp add: bit_and_iff bit_mask_iff bit_drop_bit_eq mult.commute)
qed

lemma hex_char_nibble_inj:
  assumes "hex_char (unat (drop_bit k v AND 15)) = hex_char (unat (drop_bit k w AND 15))"
  shows "drop_bit k v AND 15 = (drop_bit k w AND 15 :: u32)"
  using assms by (simp only: hex_char_inj nibble_less word_unat_eq_iff)

lemma hex8_inj:
  assumes "hex8 v = hex8 w"
  shows "v = w"
proof (rule nibbles_eq, rule ballI)
  fix i :: nat assume i: "i \<in> {0, 1, 2, 3, 4, 5, 6, 7}"
  from assms have "\<forall>i \<in> set [7, 6, 5, 4, 3, 2, 1, 0 :: nat].
      hex_char (unat (drop_bit (4 * i) v AND 15)) = hex_char (unat (drop_bit (4 * i) w AND 15))"
    unfolding hex8_def by (simp only: map_eq_conv)
  with i have "hex_char (unat (drop_bit (4 * i) v AND 15)) = hex_char (unat (drop_bit (4 * i) w AND 15))"
    by (simp only: list.set) blast
  then show "drop_bit (4 * i) v AND 15 = drop_bit (4 * i) w AND 15" by (rule hex_char_nibble_inj)
qed

text \<open>The digits, and runs of the printers on concrete values.\<close>

lemma digit_chars:
  "digit_char 0 = CHR ''0''" "digit_char (Suc 0) = CHR ''1''" "digit_char 1 = CHR ''1''"
  "digit_char 2 = CHR ''2''" "digit_char 3 = CHR ''3''" "digit_char 4 = CHR ''4''"
  "digit_char 5 = CHR ''5''" "digit_char 6 = CHR ''6''" "digit_char 7 = CHR ''7''"
  "digit_char 8 = CHR ''8''" "digit_char 9 = CHR ''9''"
  by (code_simp)+

lemmas printer_eval = pad_zeros_def sign_prefix_def round_half_even_def dec_of_nat.simps digit_chars
  ilog10_def strip_zeros_def with_fraction_def Let_def

lemma fixed_example: "fixed_decimal 1 (Fin False (4001/2)) = ''2000.5''"
  by (simp add: printer_eval)

lemma fixed_example2: "fixed_decimal 3 (Fin False (1/5)) = ''0.200''"
  by (simp add: printer_eval)

lemma general_example: "general_decimal 17 (Fin False (1/4)) = ''0.25''"
  by (simp add: printer_eval power_int_def)

lemma general_example2: "general_decimal 17 (Fin True (1/1048576)) = ''-9.5367431640625e-07''"
  by (simp add: printer_eval power_int_def)

lemma general_example3: "general_decimal 17 (Fin False 1000000) = ''1000000''"
  by (simp add: printer_eval power_int_def)

end
