(* ===== verification/Diagnostics.thy ===== *)
theory Diagnostics
  imports Status Formatting
begin

text \<open>
  The ROS-facing health evaluation, \<open>src/ros/diagnostics.{hpp,cpp}\<close>: the key-value
  rendering of a health snapshot, the evaluator that turns successive snapshots into one
  report each, and the throttle on repeated fault logs. An evaluator remembers the counters
  of the last snapshot it consumed, as its private members do.
\<close>

section \<open>Rendering the values\<close>

definition number :: "fp \<Rightarrow> nat \<Rightarrow> string" where
  "number v p = fixed_decimal p v"

definition count_number :: "u64 \<Rightarrow> string" where
  "count_number v = dec_of_word v"

text \<open>\<open>max_digits10\<close> of a \<open>double\<close> is 17.\<close>

definition calibration_number :: "fp \<Rightarrow> string" where
  "calibration_number v = general_decimal 17 v"

fun sequence_text :: "u32 option \<Rightarrow> string" where
  "sequence_text (Some v) = dec_of_word v"
| "sequence_text None = ''none''"

definition status_code :: "u32 \<Rightarrow> string" where
  "status_code w = ''0x'' @ hex8 w"

fun configuration_source :: "calibration_source \<Rightarrow> string" where
  "configuration_source Sensor = ''sensor''"
| "configuration_source Override = ''override''"

definition malformed_storm_count :: u64 where
  "malformed_storm_count = 10"

definition diagnostic_value_keys :: "string list" where
  "diagnostic_value_keys =
    [''state'', ''sensor'', ''last_rdt_sequence'', ''last_ft_sequence'', ''last_ft_progress'',
     ''device_status'', ''active_status'', ''receive_rate_hz'', ''expected_receive_rate_hz'',
     ''rate_tolerance'', ''delivery_rate_hz'', ''received_count'', ''delivered_count'',
     ''rate_limited_count'', ''device_error_count'', ''lost_count'', ''duplicate_count'',
     ''out_of_order_count'', ''ft_stall_count'', ''ft_backward_count'', ''ft_restart_count'',
     ''malformed_count'', ''malformed_storm_threshold'', ''malformed_storm_window'',
     ''reconnect_count'', ''timeout_count'', ''callback_error_count'', ''last_record_age_s'',
     ''last_error'', ''configuration_source'', ''force_unit'', ''torque_unit'',
     ''configuration_revision'', ''calibration_change_count'', ''counts_per_force_unit'',
     ''counts_per_torque_unit'']"

section \<open>The evaluator\<close>

record report =
  level :: int
  message :: string
  report_values :: "(string \<times> string) list"
  log_key :: string

record evaluator =
  expected_rate :: fp
  tolerance :: fp
  seen_lost :: u64
  seen_device_error :: u64
  seen_timeout :: u64
  seen_malformed :: u64
  seen_ft_stall :: u64
  seen_ft_backward :: u64
  seen_ft_restart :: u64
  seen_callback_error :: u64

definition evaluator_init :: "fp \<Rightarrow> fp \<Rightarrow> evaluator result" where
  "evaluator_init rate tol =
     (if \<not> isfinite rate \<or> fle rate fzero
      then Inl (InvalidArgument ''expected_rdt_rate must be finite and greater than zero'')
      else if \<not> isfinite tol \<or> flt tol fzero \<or> flt (Fin False 1) tol
      then Inl (InvalidArgument ''rate_tolerance must be between 0 and 1'')
      else Inr \<lparr>expected_rate = rate, tolerance = tol, seen_lost = 0, seen_device_error = 0,
        seen_timeout = 0, seen_malformed = 0, seen_ft_stall = 0, seen_ft_backward = 0,
        seen_ft_restart = 0, seen_callback_error = 0\<rparr>)"

text \<open>The increase of a counter; a counter that went backwards counts nothing.\<close>

definition delta :: "u64 \<Rightarrow> u64 \<Rightarrow> u64" where
  "delta current previous = (if current \<ge> previous then current - previous else 0)"

definition snapshot_values :: "evaluator \<Rightarrow> health_snapshot \<Rightarrow> (string \<times> string) list" where
  "snapshot_values ev h =
    [(''state'', client_state_to_string (h_state h)),
     (''sensor'', h_sensor_host h @ '':'' @ dec_of_int (h_rdt_port h)),
     (''last_rdt_sequence'', sequence_text (last_rdt_sequence h)),
     (''last_ft_sequence'', sequence_text (last_ft_sequence h)),
     (''last_ft_progress'', last_ft_progress h),
     (''device_status'', status_code (last_status h)),
     (''active_status'', decode_status (last_status h)),
     (''receive_rate_hz'', number (receive_rate_hz h) 1),
     (''expected_receive_rate_hz'', number (expected_rate ev) 1),
     (''rate_tolerance'', number (tolerance ev) 3),
     (''delivery_rate_hz'', number (delivery_rate_hz h) 1),
     (''received_count'', count_number (received_count h)),
     (''delivered_count'', count_number (delivered_count h)),
     (''rate_limited_count'', count_number (rate_limited_count h)),
     (''device_error_count'', count_number (device_error_count h)),
     (''lost_count'', count_number (lost_count h)),
     (''duplicate_count'', count_number (duplicate_count h)),
     (''out_of_order_count'', count_number (out_of_order_count h)),
     (''ft_stall_count'', count_number (ft_stall_count h)),
     (''ft_backward_count'', count_number (ft_backward_count h)),
     (''ft_restart_count'', count_number (ft_restart_count h)),
     (''malformed_count'', count_number (malformed_count h)),
     (''malformed_storm_threshold'', count_number malformed_storm_count),
     (''malformed_storm_window'', ''between_diagnostic_updates''),
     (''reconnect_count'', count_number (reconnect_count h)),
     (''timeout_count'', count_number (timeout_count h)),
     (''callback_error_count'', count_number (callback_error_count h)),
     (''last_record_age_s'',
        (case last_record_age h of Some age \<Rightarrow> number age 3 | None \<Rightarrow> ''none'')),
     (''last_error'', last_error h)]
    @ (case sensor_configuration h of
         None \<Rightarrow> []
       | Some c \<Rightarrow>
           [(''configuration_source'', configuration_source (cfg_source c)),
            (''force_unit'', force_unit_to_string (force_unit (calibration c))),
            (''torque_unit'', torque_unit_to_string (torque_unit (calibration c))),
            (''configuration_revision'', count_number (revision c)),
            (''calibration_change_count'', count_number (calibration_change_count h)),
            (''counts_per_force_unit'', calibration_number (counts_per_force_unit (calibration c))),
            (''counts_per_torque_unit'', calibration_number (counts_per_torque_unit (calibration c)))])"

text \<open>What \<open>evaluate\<close> remembers once it has taken its differences.\<close>

definition consume_counts :: "health_snapshot \<Rightarrow> evaluator \<Rightarrow> evaluator" where
  "consume_counts h ev =
     ev\<lparr>seen_lost := lost_count h, seen_device_error := device_error_count h,
        seen_timeout := timeout_count h, seen_malformed := malformed_count h,
        seen_ft_stall := ft_stall_count h, seen_ft_backward := ft_backward_count h,
        seen_ft_restart := ft_restart_count h, seen_callback_error := callback_error_count h\<rparr>"

definition is_faulted :: "health_snapshot \<Rightarrow> bool" where
  "is_faulted h \<longleftrightarrow> h_state h = CS_Faulted \<or> h_fault_code h \<noteq> FC_None"

definition rate_outside :: "evaluator \<Rightarrow> health_snapshot \<Rightarrow> bool" where
  "rate_outside ev h \<longleftrightarrow>
     flt (receive_rate_hz h) (fmul binary64 (expected_rate ev) (fsub binary64 fone (tolerance ev))) \<or>
     flt (fmul binary64 (expected_rate ev) (fadd binary64 fone (tolerance ev))) (receive_rate_hz h)"

text \<open>The level, message and key of the report: the chain of early returns of \<open>evaluate\<close>.\<close>

definition verdict :: "evaluator \<Rightarrow> health_snapshot \<Rightarrow> int \<times> string \<times> string" where
  "verdict ev h =
    (let severity = classify_status (last_status h) in
     if is_faulted h
     then (2, ''faulted: '' @ (if last_error h = [] then fault_code_to_string (h_fault_code h) else last_error h),
           ''faulted'')
     else if h_state h = CS_Backoff then (2, ''connection lost; reconnecting'', ''backoff'')
     else if h_state h = CS_Stopped then (2, ''client stopped'', ''stopped'')
     else if severity = SevError
     then (2, ''device error: '' @ decode_status (last_status h), ''device_error'')
     else if delta (device_error_count h) (seen_device_error ev) \<noteq> 0
     then (2, ''serious device status observed since last diagnostic'', ''device_error_event'')
     else if delta (timeout_count h) (seen_timeout ev) \<noteq> 0
     then (2, ''receive timeout observed since last diagnostic'', ''receive_timeout'')
     else if delta (malformed_count h) (seen_malformed ev) \<ge> malformed_storm_count
     then (2, ''malformed-packet storm observed since last diagnostic'', ''malformed_storm'')
     else if delta (ft_stall_count h) (seen_ft_stall ev) \<noteq> 0
     then (2, ''FT sequence stalled since last diagnostic'', ''ft_stall'')
     else if delta (ft_backward_count h) (seen_ft_backward ev) \<noteq> 0
     then (2, ''FT sequence moved backward since last diagnostic'', ''ft_backward'')
     else if h_state h = CS_Connecting then (1, ''waiting for first RDT record'', ''connecting'')
     else if severity = SevWarn then (1, ''monitor condition latched'', ''condition_latch'')
     else if delta (ft_restart_count h) (seen_ft_restart ev) \<noteq> 0
     then (1, ''FT device counter restarted since last diagnostic'', ''ft_restart'')
     else if delta (lost_count h) (seen_lost ev) \<noteq> 0
     then (1, ''RDT records lost since last diagnostic'', ''packet_loss'')
     else if rate_outside ev h
     then (1, ''receive rate outside configured tolerance'', ''receive_rate'')
     else if delta (callback_error_count h) (seen_callback_error ev) \<noteq> 0
     then (1, ''sample callback failed since last diagnostic'', ''callback_error'')
     else (0, ''streaming normally'', ''healthy''))"

definition evaluate :: "health_snapshot \<Rightarrow> evaluator \<Rightarrow> evaluator \<times> report" where
  "evaluate h ev =
    (let values = snapshot_values ev h; (lvl, msg, key) = verdict ev h
     in (if is_faulted h then ev else consume_counts h ev,
         \<lparr>level = lvl, message = msg, report_values = values, log_key = key\<rparr>))"

section \<open>The log throttle\<close>

record throttle =
  repeat_interval :: fp
  throttle_active :: bool
  throttle_level :: int
  throttle_key :: string
  last_log :: fp

definition throttle_init :: "fp \<Rightarrow> throttle result" where
  "throttle_init interval =
     (if \<not> isfinite interval \<or> fle interval fzero
      then Inl (InvalidArgument ''repeat_interval must be finite and greater than zero'')
      else Inr \<lparr>repeat_interval = interval, throttle_active = False, throttle_level = 0,
        throttle_key = [], last_log = fzero\<rparr>)"

definition should_log :: "report \<Rightarrow> fp \<Rightarrow> throttle \<Rightarrow> throttle \<times> bool" where
  "should_log r now t =
    (if level r \<le> 0 then (t\<lparr>throttle_active := False\<rparr>, False)
     else if \<not> throttle_active t \<or> level r \<noteq> throttle_level t \<or> log_key r \<noteq> throttle_key t \<or>
             fle (repeat_interval t) (fsub binary64 now (last_log t))
     then (t\<lparr>throttle_active := True, throttle_level := level r, throttle_key := log_key r,
             last_log := now\<rparr>, True)
     else (t, False))"

section \<open>Which conditions hold\<close>

text \<open>
  The specification of the report: a table of conditions, each with its level and key, in
  the order of their priority. A condition is a property of the snapshot and of the events
  counted since the last snapshot.
\<close>

definition conditions :: "evaluator \<Rightarrow> health_snapshot \<Rightarrow> (bool \<times> int \<times> string) list" where
  "conditions ev h =
    [(is_faulted h, 2, ''faulted''),
     (h_state h = CS_Backoff, 2, ''backoff''),
     (h_state h = CS_Stopped, 2, ''stopped''),
     (classify_status (last_status h) = SevError, 2, ''device_error''),
     (seen_device_error ev < device_error_count h, 2, ''device_error_event''),
     (seen_timeout ev < timeout_count h, 2, ''receive_timeout''),
     (unat (seen_malformed ev) + 10 \<le> unat (malformed_count h), 2, ''malformed_storm''),
     (seen_ft_stall ev < ft_stall_count h, 2, ''ft_stall''),
     (seen_ft_backward ev < ft_backward_count h, 2, ''ft_backward''),
     (h_state h = CS_Connecting, 1, ''connecting''),
     (classify_status (last_status h) = SevWarn, 1, ''condition_latch''),
     (seen_ft_restart ev < ft_restart_count h, 1, ''ft_restart''),
     (seen_lost ev < lost_count h, 1, ''packet_loss''),
     (rate_outside ev h, 1, ''receive_rate''),
     (seen_callback_error ev < callback_error_count h, 1, ''callback_error'')]"

definition raised :: "evaluator \<Rightarrow> health_snapshot \<Rightarrow> (int \<times> string) list" where
  "raised ev h = map snd (filter fst (conditions ev h))"

lemma delta_nonzero: "delta c p \<noteq> 0 \<longleftrightarrow> p < c"
  by (auto simp: delta_def)

lemma unat_delta: "unat (delta c p) = unat c - unat p"
  by (simp add: delta_def unat_sub word_le_nat_alt)

lemma delta_storm: "malformed_storm_count \<le> delta c p \<longleftrightarrow> unat p + 10 \<le> unat c"
  by (simp add: malformed_storm_count_def word_le_nat_alt unat_delta)
     linarith

lemma verdict_first_raised:
  "(level (snd (evaluate h ev)), log_key (snd (evaluate h ev))) =
     (case raised ev h of [] \<Rightarrow> (0, ''healthy'') | r # rs \<Rightarrow> r)"
  by (simp add: evaluate_def verdict_def raised_def conditions_def delta_nonzero delta_storm Let_def)

lemma conditions_descend: "sorted_wrt (\<ge>) (map (fst \<circ> snd) (conditions ev h))"
  by (simp add: conditions_def)

lemma raised_descend: "sorted_wrt (\<ge>) (map fst (raised ev h))"
proof -
  have "sorted_wrt (\<lambda>a b. fst (snd a) \<ge> fst (snd b)) (filter fst (conditions ev h))"
    using conditions_descend [of ev h] by (intro sorted_wrt_filter) (simp add: sorted_wrt_map)
  then show ?thesis by (simp add: raised_def sorted_wrt_map)
qed

lemma raised_levels: "r \<in> set (raised ev h) \<Longrightarrow> fst r \<in> {1, 2}"
proof -
  have "list_all (\<lambda>c. fst (snd c) \<in> {1, 2}) (conditions ev h)" by (simp add: conditions_def)
  then show "r \<in> set (raised ev h) \<Longrightarrow> fst r \<in> {1, 2}" by (auto simp: raised_def list_all_iff)
qed

lemma worst_of_descending:
  assumes "sorted_wrt (\<ge>) (map fst rs)" and "\<And>r. r \<in> set rs \<Longrightarrow> 0 \<le> fst r"
  shows "(case rs of [] \<Rightarrow> 0 | r # _ \<Rightarrow> fst r) = Max (insert (0 :: int) (fst ` set rs))"
proof (cases rs)
  case (Cons r rest)
  have "Max (insert 0 (fst ` set rs)) = fst r"
    using assms(1) assms(2) [of r] by (intro Max_eqI) (auto simp: Cons)
  then show ?thesis by (simp add: Cons)
qed simp

text \<open>
  C35: the evaluator refines the table of conditions. Its report is the first condition of
  the table that holds, \<open>healthy\<close> at level 0 when none does, and since the table descends in
  level, the reported level is the worst of all conditions that hold: a warning never hides
  an error.
\<close>

theorem report_is_worst_condition:
  "(level (snd (evaluate h ev)), log_key (snd (evaluate h ev))) =
     (case raised ev h of [] \<Rightarrow> (0, ''healthy'') | r # rs \<Rightarrow> r)
   \<and> level (snd (evaluate h ev)) = Max (insert 0 (fst ` set (raised ev h)))"
proof -
  have "level (snd (evaluate h ev)) = (case raised ev h of [] \<Rightarrow> 0 | r # _ \<Rightarrow> fst r)"
    using verdict_first_raised [of h ev] by (auto split: list.splits)
  also have "\<dots> = Max (insert 0 (fst ` set (raised ev h)))"
    using raised_levels by (intro worst_of_descending raised_descend) fastforce
  finally show ?thesis using verdict_first_raised [of h ev] by simp
qed

section \<open>Events\<close>

text \<open>The keys of the conditions that report an event since the last snapshot.\<close>

definition event_keys :: "string list" where
  "event_keys = [''device_error_event'', ''receive_timeout'', ''malformed_storm'', ''ft_stall'',
     ''ft_backward'', ''ft_restart'', ''packet_loss'', ''callback_error'']"

text \<open>The events between two snapshots, each with the counter that tells of it.\<close>

definition events_between :: "health_snapshot \<Rightarrow> health_snapshot \<Rightarrow> string list" where
  "events_between h h' = map snd (filter fst
    [(device_error_count h < device_error_count h', ''device_error_event''),
     (timeout_count h < timeout_count h', ''receive_timeout''),
     (unat (malformed_count h) + 10 \<le> unat (malformed_count h'), ''malformed_storm''),
     (ft_stall_count h < ft_stall_count h', ''ft_stall''),
     (ft_backward_count h < ft_backward_count h', ''ft_backward''),
     (ft_restart_count h < ft_restart_count h', ''ft_restart''),
     (lost_count h < lost_count h', ''packet_loss''),
     (callback_error_count h < callback_error_count h', ''callback_error'')])"

lemma evaluate_state:
  "fst (evaluate h ev) = (if is_faulted h then ev else consume_counts h ev)"
  by (simp add: evaluate_def Let_def split: prod.splits)

lemma raised_keys:
  "filter P (map snd (map snd (filter fst cs))) =
    map snd (filter fst (map (\<lambda>(b, l, k). (b, k)) (filter (\<lambda>(b, l, k). P k) cs)))"
  by (induction cs) auto

lemma events_after_consume:
  "filter (\<lambda>k. k \<in> set event_keys) (map snd (raised (consume_counts h ev) h')) = events_between h h'"
proof -
  have "map (\<lambda>(b, l, k). (b, k)) (filter (\<lambda>(b, l, k). k \<in> set event_keys) (conditions (consume_counts h ev) h')) =
    [(device_error_count h < device_error_count h', ''device_error_event''),
     (timeout_count h < timeout_count h', ''receive_timeout''),
     (unat (malformed_count h) + 10 \<le> unat (malformed_count h'), ''malformed_storm''),
     (ft_stall_count h < ft_stall_count h', ''ft_stall''),
     (ft_backward_count h < ft_backward_count h', ''ft_backward''),
     (ft_restart_count h < ft_restart_count h', ''ft_restart''),
     (lost_count h < lost_count h', ''packet_loss''),
     (callback_error_count h < callback_error_count h', ''callback_error'')]"
    by (simp add: conditions_def event_keys_def consume_counts_def)
  then show ?thesis unfolding raised_def raised_keys events_between_def by (simp only:)
qed

lemma fold_faulted:
  "\<forall>h \<in> set hs. is_faulted h \<Longrightarrow> fold (\<lambda>h ev. fst (evaluate h ev)) hs ev = ev"
  by (induction hs) (simp_all add: evaluate_state)

text \<open>
  C36: events are attributed to the interval between the last two snapshots that were not
  faulted: whatever faulted snapshots come in between, the events raised at a snapshot are
  exactly those whose counters grew since the last one consumed, so none is reported twice
  and none is swallowed by a fault.
\<close>

theorem events_since_last_consumed:
  assumes "\<not> is_faulted h" and "list_all is_faulted faults"
  shows "filter (\<lambda>k. k \<in> set event_keys)
      (map snd (raised (fold (\<lambda>h ev. fst (evaluate h ev)) (h # faults) ev) h')) = events_between h h'
    \<and> events_between h h = []"
proof -
  have "fold (\<lambda>h ev. fst (evaluate h ev)) (h # faults) ev = consume_counts h ev"
    using assms fold_faulted [of faults] by (simp add: evaluate_state list_all_iff)
  moreover have "events_between h h = []" by (simp add: events_between_def)
  ultimately show ?thesis by (simp only: events_after_consume simp_thms)
qed

definition example_snapshot :: health_snapshot where
  "example_snapshot = default_health\<lparr>h_state := CS_Streaming, lost_count := 3\<rparr>"

definition example_evaluator :: evaluator where
  "example_evaluator = \<lparr>expected_rate = Fin False 2000, tolerance = Fin False (1/4), seen_lost = 0,
     seen_device_error = 0, seen_timeout = 0, seen_malformed = 0, seen_ft_stall = 0,
     seen_ft_backward = 0, seen_ft_restart = 0, seen_callback_error = 0\<rparr>"

theorem events_since_last_consumed_witness:
  "filter (\<lambda>k. k \<in> set event_keys)
     (map snd (raised (fold (\<lambda>h ev. fst (evaluate h ev))
        [example_snapshot, example_snapshot\<lparr>h_state := CS_Faulted, lost_count := 5\<rparr>] example_evaluator)
        (example_snapshot\<lparr>lost_count := 5, timeout_count := 1\<rparr>)))
   = [''receive_timeout'', ''packet_loss'']"
  using events_since_last_consumed [of example_snapshot "[example_snapshot\<lparr>h_state := CS_Faulted, lost_count := 5\<rparr>]"
      example_evaluator "example_snapshot\<lparr>lost_count := 5, timeout_count := 1\<rparr>"]
  by (simp add: is_faulted_def example_snapshot_def default_health_def events_between_def)

section \<open>The shape of a report\<close>

lemma snapshot_value_keys:
  "map fst (snapshot_values ev h) =
     take (if sensor_configuration h = None then 29 else 36) diagnostic_value_keys"
  by (simp add: snapshot_values_def diagnostic_value_keys_def split: option.splits)

definition evaluator_ok :: "evaluator \<Rightarrow> bool" where
  "evaluator_ok ev \<longleftrightarrow> isfinite (expected_rate ev) \<and> flt fzero (expected_rate ev) \<and>
     isfinite (tolerance ev) \<and> fle fzero (tolerance ev) \<and> fle (tolerance ev) fone"

definition report_ok :: "report \<Rightarrow> bool" where
  "report_ok r \<longleftrightarrow> level r \<in> {0, 1, 2} \<and> (level r = 0 \<longleftrightarrow> log_key r = ''healthy'') \<and>
     message r \<noteq> [] \<and> map fst (report_values r) \<in> {take 29 diagnostic_value_keys, diagnostic_value_keys}"

lemma evaluator_init_ok: "evaluator_init rate tol = Inr ev \<Longrightarrow> evaluator_ok ev"
  by (cases rate; cases tol) (auto simp: evaluator_init_def evaluator_ok_def fzero_def fone_def split: if_splits)

lemma evaluate_keeps_ok: "evaluator_ok ev \<Longrightarrow> evaluator_ok (fst (evaluate h ev))"
  by (simp add: evaluate_state evaluator_ok_def consume_counts_def)

lemma verdict_ok:
  "verdict ev h = (lvl, msg, key) \<Longrightarrow> lvl \<in> {0, 1, 2} \<and> (lvl = 0 \<longleftrightarrow> key = ''healthy'') \<and> msg \<noteq> []"
  by (simp add: verdict_def Let_def split: if_split_asm; elim conjE; hypsubst; simp)

lemma evaluate_report_ok: "report_ok (snd (evaluate h ev))"
proof -
  obtain lvl msg key where v: "verdict ev h = (lvl, msg, key)" by (metis prod_cases3)
  have "length diagnostic_value_keys = 36" by (simp add: diagnostic_value_keys_def)
  then have "map fst (snapshot_values ev h) \<in> {take 29 diagnostic_value_keys, diagnostic_value_keys}"
    by (simp add: snapshot_value_keys)
  with verdict_ok [OF v] show ?thesis by (auto simp: report_ok_def evaluate_def v)
qed

text \<open>
  C37: well-formedness is preserved: an evaluator that the constructor accepts stays well
  formed over any run of snapshots, and each report has a level 0 to 2, a nonempty message,
  the key \<open>healthy\<close> exactly at level 0, and the documented value keys in their order.
\<close>

theorem evaluation_well_formed:
  assumes "evaluator_init rate tol = Inr ev"
  shows "evaluator_ok (fold (\<lambda>h ev. fst (evaluate h ev)) hs ev)
    \<and> report_ok (snd (evaluate h (fold (\<lambda>h ev. fst (evaluate h ev)) hs ev)))"
proof -
  have "evaluator_ok ev \<Longrightarrow> evaluator_ok (fold (\<lambda>h ev. fst (evaluate h ev)) hs ev)" for ev
    by (induction hs arbitrary: ev) (simp_all add: evaluate_keeps_ok)
  with evaluator_init_ok [OF assms] evaluate_report_ok show ?thesis by blast
qed

theorem evaluation_well_formed_witness:
  "evaluator_ok (fold (\<lambda>h ev. fst (evaluate h ev)) [example_snapshot, default_health] example_evaluator)"
proof -
  have "evaluator_init (Fin False 2000) (Fin False (1/4)) = Inr example_evaluator"
    by (simp add: evaluator_init_def example_evaluator_def fzero_def)
  from evaluation_well_formed [OF this, of "[example_snapshot, default_health]"] show ?thesis by blast
qed

section \<open>The throttle over time\<close>

fun throttle_run :: "(report \<times> fp) list \<Rightarrow> throttle \<Rightarrow> throttle \<times> bool list" where
  "throttle_run [] t = (t, [])"
| "throttle_run ((r, now) # rest) t =
     (let (t', b) = should_log r now t; (t'', bs) = throttle_run rest t' in (t'', b # bs))"

definition same_fault :: "report \<Rightarrow> report \<Rightarrow> bool" where
  "same_fault r r' \<longleftrightarrow> level r' = level r \<and> log_key r' = log_key r"

lemma throttle_quiet:
  assumes "throttle_active t" "0 < level r" "throttle_level t = level r" "throttle_key t = log_key r"
    and "list_all (\<lambda>(r', now). same_fault r r' \<and> \<not> fle (repeat_interval t) (fsub binary64 now (last_log t))) rs"
  shows "throttle_run (rs @ rest) t =
    (fst (throttle_run rest t), replicate (length rs) False @ snd (throttle_run rest t))"
  using assms(5)
proof (induction rs)
  case (Cons x rs)
  obtain r' now where x: "x = (r', now)" by (cases x)
  have "should_log r' now t = (t, False)"
    using Cons.prems assms(1-4) by (simp add: x should_log_def same_fault_def)
  with Cons show ?case by (simp add: x case_prod_unfold Let_def)
qed (simp add: prod_eq_iff)

text \<open>
  After a fault is logged, further reports of the same fault are suppressed until the
  repeat interval has passed since that log, and the first one after it, or the first of a
  different fault, is logged again.
\<close>

theorem throttle_spaces_logs:
  assumes "should_log r now t = (t', True)"
    and "list_all (\<lambda>(r', n). same_fault r r' \<and> \<not> fle (repeat_interval t) (fsub binary64 n now)) rs"
    and "0 < level r2" and "same_fault r r2 \<Longrightarrow> fle (repeat_interval t) (fsub binary64 n2 now)"
  shows "snd (throttle_run (rs @ [(r2, n2)]) t') = replicate (length rs) False @ [True]"
proof -
  have t': "throttle_active t'" "0 < level r" "throttle_level t' = level r" "throttle_key t' = log_key r"
    "last_log t' = now" "repeat_interval t' = repeat_interval t"
    using assms(1) by (auto simp: should_log_def split: if_splits)
  have "snd (should_log r2 n2 t')"
    using assms(3,4) t' by (auto simp: should_log_def same_fault_def)
  then show ?thesis
    using throttle_quiet [OF t'(1-4), of rs "[(r2, n2)]"] assms(2) t'(5,6) by (simp add: case_prod_unfold Let_def)
qed

theorem throttle_spaces_logs_witness:
  "let r = \<lparr>level = 2, message = ''client stopped'', report_values = [], log_key = ''stopped''\<rparr>;
       t = \<lparr>repeat_interval = Fin False 10, throttle_active = False, throttle_level = 0,
            throttle_key = [], last_log = fzero\<rparr>
   in snd (throttle_run [(r, Fin False 8), (r, Fin False 16)] (fst (should_log r (Fin False 4) t)))
        = [False, True]"
proof -
  define r where "r = \<lparr>level = 2, message = ''client stopped'', report_values = [], log_key = ''stopped''\<rparr>"
  define t where "t = \<lparr>repeat_interval = Fin False 10, throttle_active = False, throttle_level = 0,
    throttle_key = [], last_log = fzero\<rparr>"
  have d: "fsub binary64 (Fin False 8) (Fin False 4) = Fin False 4"
    "fsub binary64 (Fin False 16) (Fin False 4) = Fin False 12"
    by (simp_all add: fsub_def fround_val_def fround_eval)
  have log: "should_log r (Fin False 4) t = (fst (should_log r (Fin False 4) t), True)"
    by (simp add: should_log_def r_def t_def)
  have "snd (throttle_run ([(r, Fin False 8)] @ [(r, Fin False 16)]) (fst (should_log r (Fin False 4) t)))
      = replicate (length [(r, Fin False 8)]) False @ [True]"
    by (rule throttle_spaces_logs [OF log]) (simp_all add: d same_fault_def t_def r_def)
  then show ?thesis by (simp add: r_def t_def Let_def)
qed

end
