(* ===== verification/Adapter_Config.thy ===== *)
theory Adapter_Config
  imports Diagnostics
begin

text \<open>
  The parameters of the two standalone nodes and their mapping to a client configuration,
  \<open>src/ros/adapter_config.hpp\<close>. The clock readings of the client's own validation are an
  argument, as in \<open>validate_config\<close>.
\<close>

record adapter_parameters =
  ap_sensor_ip :: string
  ap_sensor_port :: int
  ap_http_port :: int
  ap_frame_id :: string
  ap_wrench_topic :: string
  ap_bias_service :: string
  ap_allow_bias :: bool
  ap_use_sensor_calibration :: bool
  ap_counts_per_force :: fp
  ap_counts_per_torque :: fp
  ap_publish_rate :: fp
  ap_receive_timeout :: fp
  ap_configuration_connect_timeout :: fp
  ap_configuration_timeout :: fp
  ap_reconnect_initial_delay :: fp
  ap_reconnect_max_delay :: fp
  ap_diagnostics_rate :: fp
  ap_expected_rdt_rate :: fp
  ap_rate_tolerance :: fp
  ap_publish_on_error :: bool

text \<open>The member initialisers; 0.2 is a rounded literal like 0.1.\<close>

definition dbl_0_2 :: fp where
  "dbl_0_2 = fround binary64 False (1 / 5)"

definition default_parameters :: adapter_parameters where
  "default_parameters =
     \<lparr>ap_sensor_ip = ''192.168.1.1'', ap_sensor_port = 49152, ap_http_port = 80,
      ap_frame_id = ''netft_link'', ap_wrench_topic = ''/netft/wrench'',
      ap_bias_service = ''/netft/bias'', ap_allow_bias = True, ap_use_sensor_calibration = True,
      ap_counts_per_force = Fin False 1000000, ap_counts_per_torque = Fin False 1000000,
      ap_publish_rate = fzero, ap_receive_timeout = dbl_0_1,
      ap_configuration_connect_timeout = Fin False (1/2), ap_configuration_timeout = fone,
      ap_reconnect_initial_delay = Fin False (1/4), ap_reconnect_max_delay = Fin False 5,
      ap_diagnostics_rate = fone, ap_expected_rdt_rate = Fin False 2000,
      ap_rate_tolerance = dbl_0_2, ap_publish_on_error = False\<rparr>"

record adapter_config =
  ac_client :: config
  ac_frame_id :: string
  ac_wrench_topic :: string
  ac_bias_service :: string
  ac_allow_bias :: bool
  ac_diagnostics_rate :: fp
  ac_expected_rdt_rate :: fp
  ac_rate_tolerance :: fp

definition non_empty :: "string \<Rightarrow> string \<Rightarrow> unit result" where
  "non_empty name value = throw_if (all_blank value) (InvalidArgument (name @ '' must be non-empty''))"

text \<open>The timer period in nanoseconds, computed as a \<open>long double\<close>.\<close>

definition period_ns :: "fp \<Rightarrow> fp" where
  "period_ns rate = fdiv extended80 (Fin False 1000000000) rate"

definition bad_period :: "fp \<Rightarrow> bool" where
  "bad_period rate \<longleftrightarrow>
     fle rate fzero \<or> flt (period_ns rate) fone \<or> fle (Fin False (of_int ticks_max)) (period_ns rate)"

definition validate_adapter_config :: "string \<Rightarrow> string \<Rightarrow> string \<Rightarrow> fp \<Rightarrow> unit result" where
  "validate_adapter_config frame wrench bias_name rate =
     and_then (non_empty ''frame_id'' frame) (\<lambda>_.
     and_then (non_empty ''wrench_topic'' wrench) (\<lambda>_.
     and_then (non_empty ''bias_service'' bias_name) (\<lambda>_.
     throw_if (\<not> isfinite rate \<or> bad_period rate)
       (InvalidArgument ''diagnostics_rate must be finite and greater than zero''))))"

definition mapped_client :: "adapter_parameters \<Rightarrow> config" where
  "mapped_client p = default_config
     \<lparr>sensor_host := ap_sensor_ip p, rdt_port := ap_sensor_port p, http_port := ap_http_port p,
      receive_timeout := ap_receive_timeout p,
      configuration_connect_timeout := ap_configuration_connect_timeout p,
      configuration_timeout := ap_configuration_timeout p,
      reconnect_initial_delay := ap_reconnect_initial_delay p,
      reconnect_max_delay := ap_reconnect_max_delay p,
      sample_rate_limit_hz := ap_publish_rate p,
      deliver_samples_with_error_status := ap_publish_on_error p,
      calibration_override :=
        (if \<not> ap_use_sensor_calibration p
         then Some \<lparr>counts_per_force_unit = ap_counts_per_force p,
                counts_per_torque_unit = ap_counts_per_torque p,
                force_unit = Newton, torque_unit = NewtonMeter\<rparr>
         else None)\<rparr>"

definition mapped_adapter :: "adapter_parameters \<Rightarrow> adapter_config" where
  "mapped_adapter p =
     \<lparr>ac_client = mapped_client p, ac_frame_id = ap_frame_id p, ac_wrench_topic = ap_wrench_topic p,
      ac_bias_service = ap_bias_service p, ac_allow_bias = ap_allow_bias p,
      ac_diagnostics_rate = ap_diagnostics_rate p, ac_expected_rdt_rate = ap_expected_rdt_rate p,
      ac_rate_tolerance = ap_rate_tolerance p\<rparr>"

definition map_adapter_parameters :: "(nat \<Rightarrow> ticks) \<Rightarrow> adapter_parameters \<Rightarrow> adapter_config result" where
  "map_adapter_parameters now p =
     (let m = mapped_adapter p in
      and_then (validate_config now (ac_client m)) (\<lambda>_.
      and_then (validate_adapter_config (ac_frame_id m) (ac_wrench_topic m) (ac_bias_service m)
                  (ac_diagnostics_rate m)) (\<lambda>_.
      if \<not> isfinite (ac_expected_rdt_rate m) \<or> fle (ac_expected_rdt_rate m) fzero
      then Inl (InvalidArgument ''expected_rdt_rate must be finite and greater than zero'')
      else if \<not> isfinite (ac_rate_tolerance m) \<or> flt (ac_rate_tolerance m) fzero \<or>
              flt fone (ac_rate_tolerance m)
      then Inl (InvalidArgument ''rate_tolerance must be between 0 and 1'')
      else Inr m)))"

section \<open>What a mapped configuration guarantees\<close>

text \<open>A rate whose timer period is at least a nanosecond and fits the clock.\<close>

definition usable_rate :: "fp \<Rightarrow> bool" where
  "usable_rate rate \<longleftrightarrow> isfinite rate \<and> flt fzero rate \<and>
     (\<exists>q. period_ns rate = Fin False q \<and> 1 \<le> q \<and> q < of_int ticks_max)"

lemma period_shape:
  assumes "q \<noteq> 0"
  shows "period_ns (Fin False q) = Inf False \<or> (\<exists>r \<ge> 0. period_ns (Fin False q) = Fin False r)"
proof -
  have e: "period_ns (Fin False q) = fround extended80 False \<bar>1000000000 / q\<bar>"
    using assms by (simp add: period_ns_def)
  show ?thesis unfolding e by (simp add: fround_def Let_def x87.round_mag_nonneg)
qed

lemma in_clock_range:
  assumes "x = Inf False \<or> (\<exists>r \<ge> 0. x = Fin False r)"
  shows "\<not> flt x fone \<and> \<not> fle (Fin False (of_int ticks_max)) x
    \<longleftrightarrow> (\<exists>q. x = Fin False q \<and> 1 \<le> q \<and> q < of_int ticks_max)"
proof -
  have "(0 :: rat) \<le> of_int ticks_max" by (simp add: ticks_max_def)
  with assms show ?thesis by (auto simp: fone_def)
qed

lemma usable_rate_iff:
  assumes "isfinite rate"
  shows "\<not> bad_period rate \<longleftrightarrow> usable_rate rate"
proof (cases "flt fzero rate")
  case True
  with assms obtain q where q: "rate = Fin False q" "q \<noteq> 0"
    by (cases rate) (auto simp: fzero_def split: if_splits)
  show ?thesis
    using True assms in_clock_range [OF period_shape [OF q(2)]]
    by (simp add: bad_period_def usable_rate_def fle_fzero_iff q(1))
next
  case False
  then show ?thesis using assms by (simp add: bad_period_def usable_rate_def fle_fzero_iff)
qed

lemma evaluator_init_iff:
  "(\<exists>ev. evaluator_init rate tol = Inr ev) \<longleftrightarrow>
     isfinite rate \<and> \<not> fle rate fzero \<and> isfinite tol \<and> \<not> flt tol fzero \<and> \<not> flt fone tol"
  by (simp add: evaluator_init_def fone_def)

text \<open>The contract of an accepted set of parameters.\<close>

definition adapter_ok :: "(nat \<Rightarrow> ticks) \<Rightarrow> adapter_parameters \<Rightarrow> bool" where
  "adapter_ok now p \<longleftrightarrow>
     config_ok now (mapped_client p) \<and> \<not> all_blank (ap_frame_id p) \<and> \<not> all_blank (ap_wrench_topic p) \<and>
     \<not> all_blank (ap_bias_service p) \<and> usable_rate (ap_diagnostics_rate p) \<and>
     (\<exists>ev. evaluator_init (ap_expected_rdt_rate p) (ap_rate_tolerance p) = Inr ev)"

lemma validate_adapter_config_iff:
  "validate_adapter_config frame wrench bias_name rate = Inr () \<longleftrightarrow>
     \<not> all_blank frame \<and> \<not> all_blank wrench \<and> \<not> all_blank bias_name \<and> usable_rate rate"
proof -
  have "isfinite rate \<and> \<not> bad_period rate \<longleftrightarrow> usable_rate rate"
    using usable_rate_iff [of rate] by (auto simp: usable_rate_def)
  then show ?thesis by (simp add: validate_adapter_config_def non_empty_def)
qed

lemma map_adapter_parameters_iff:
  "map_adapter_parameters now p = Inr m \<longleftrightarrow> adapter_ok now p \<and> m = mapped_adapter p"
  unfolding map_adapter_parameters_def adapter_ok_def evaluator_init_iff Let_def
  by (auto simp: mapped_adapter_def validate_config_iff validate_adapter_config_iff)

text \<open>
  The nodes accept a set of parameters exactly when the client accepts the mapped
  configuration, every name is non-blank, the timer period of the diagnostics is a whole
  nanosecond or more and fits the clock, and the diagnostic evaluator can be built from the
  two rates; what they get is then the parameters unchanged, with the recovery policy of a
  node, \<open>Reconnect\<close>.
\<close>

theorem adapter_parameters_contract:
  "(map_adapter_parameters now p = Inr m) = (adapter_ok now p \<and> m = mapped_adapter p)
   \<and> recovery_policy (ac_client (mapped_adapter p)) = Reconnect"
  using map_adapter_parameters_iff [of now p m]
  by (simp add: mapped_adapter_def mapped_client_def default_config_def)

end
