(* ===== verification/Text_Numbers.thy ===== *)
theory Text_Numbers
  imports Xml_Config
begin

text \<open>
  The standard library's readers of numbers that the command line and the plugin's
  parameters go through: \<open>std::stod\<close>, which is \<open>strtod\<close> with its error number turned into
  exceptions, and \<open>std::stol\<close> in base 10. Every caller turns any exception of theirs into
  its own error, so a failure is \<open>None\<close> here; on success the second component is what was
  not consumed. The C locale and a 64-bit \<open>long\<close> are assumed, and the error number is set on
  underflow the way glibc does it.
\<close>

section \<open>Characters\<close>

definition code_of :: "char \<Rightarrow> nat" where
  "code_of c = of_char c"

lemma code_of_less: "code_of c < 256"
  by (simp add: code_of_def)

lemma code_of_inject: "code_of c = code_of d \<longleftrightarrow> c = d"
  by (simp add: code_of_def)

definition ascii_lower :: "char \<Rightarrow> char" where
  "ascii_lower c = (if 65 \<le> code_of c \<and> code_of c \<le> 90 then char_of (code_of c + 32) else c)"

definition digit_of :: "char \<Rightarrow> nat" where
  "digit_of c =
     (if is_digit c then code_of c - 48 else code_of (ascii_lower c) - 87)"

definition is_hex_digit :: "char \<Rightarrow> bool" where
  "is_hex_digit c \<longleftrightarrow> is_digit c \<or> 97 \<le> code_of (ascii_lower c) \<and> code_of (ascii_lower c) \<le> 102"

definition radix_value :: "nat \<Rightarrow> string \<Rightarrow> nat" where
  "radix_value radix ds = foldl (\<lambda>n c. radix * n + digit_of c) 0 ds"

text \<open>Does \<open>s\<close> begin with the lower-case word \<open>w\<close>, in any case?\<close>

definition begins_with :: "string \<Rightarrow> string \<Rightarrow> bool" where
  "begins_with w s \<longleftrightarrow> map ascii_lower (take (length w) s) = w"

section \<open>strtod\<close>

text \<open>An exponent counts only when at least one digit follows its letter and sign.\<close>

definition scan_exponent :: "char \<Rightarrow> string \<Rightarrow> int \<times> string" where
  "scan_exponent letter s =
     (if s \<noteq> [] \<and> ascii_lower (hd s) = letter
      then let (neg, r) = split_sign (tl s); ds = takeWhile is_digit r
           in if ds = [] then (0, s)
              else ((if neg then - int (radix_value 10 ds) else int (radix_value 10 ds)), dropWhile is_digit r)
      else (0, s))"

definition scan_mantissa ::
  "(char \<Rightarrow> bool) \<Rightarrow> nat \<Rightarrow> nat \<Rightarrow> char \<Rightarrow> string \<Rightarrow> (rat \<times> string) option" where
  "scan_mantissa digit radix base letter s =
     (let whole = takeWhile digit s; r = dropWhile digit s;
          point = (r \<noteq> [] \<and> hd r = CHR ''.'');
          decimals = (if point then takeWhile digit (tl r) else []);
          r' = (if point then dropWhile digit (tl r) else r);
          (e, rest) = scan_exponent letter r'
      in if whole @ decimals = [] then None
         else Some (of_nat (radix_value radix (whole @ decimals)) / of_nat radix ^ length decimals
                    * of_nat base powi e, rest))"

datatype scanned = Number rat | Infinite | Not_A_Number

definition is_nan_char :: "char \<Rightarrow> bool" where
  "is_nan_char c \<longleftrightarrow> is_digit c \<or> c = CHR ''_'' \<or>
     97 \<le> code_of (ascii_lower c) \<and> code_of (ascii_lower c) \<le> 122"

definition skip_nan_payload :: "string \<Rightarrow> string" where
  "skip_nan_payload s =
     (if s \<noteq> [] \<and> hd s = CHR ''(''
      then let r = dropWhile is_nan_char (tl s)
           in if r \<noteq> [] \<and> hd r = CHR '')'' then tl r else s
      else s)"

definition scan_unsigned :: "string \<Rightarrow> (scanned \<times> string) option" where
  "scan_unsigned s =
     (if begins_with ''infinity'' s then Some (Infinite, drop 8 s)
      else if begins_with ''inf'' s then Some (Infinite, drop 3 s)
      else if begins_with ''nan'' s then Some (Not_A_Number, skip_nan_payload (drop 3 s))
      else case (if begins_with ''0x'' s
                 then scan_mantissa is_hex_digit 16 2 (CHR ''p'') (drop 2 s) else None) of
             Some (q, rest) \<Rightarrow> Some (Number q, rest)
           | None \<Rightarrow> map_option (apfst Number) (scan_mantissa is_digit 10 10 (CHR ''e'') s))"

definition strtod :: "string \<Rightarrow> (bool \<times> scanned \<times> string) option" where
  "strtod s = (let (neg, r) = split_sign (dropWhile is_space s) in map_option (Pair neg) (scan_unsigned r))"

text \<open>
  The result underflows when it is inexact and, rounded with no bound on the exponent, lies
  below the least normal number.
\<close>

definition underflows :: "rat \<Rightarrow> bool" where
  "underflows q \<longleftrightarrow> q \<noteq> 0 \<and> round_mag binary64 q \<noteq> q \<and>
     of_int (round_half_even (q / 2 powi (ilog2 q - 52))) * 2 powi (ilog2 q - 52) < (2 powi -1022 :: rat)"

definition stod :: "string \<Rightarrow> (fp \<times> string) option" where
  "stod s =
     (case strtod s of
        None \<Rightarrow> None
      | Some (neg, Infinite, rest) \<Rightarrow> Some (Inf neg, rest)
      | Some (neg, Not_A_Number, rest) \<Rightarrow> Some (NaN, rest)
      | Some (neg, Number q, rest) \<Rightarrow>
          (let x = fround binary64 neg q
           in if \<not> isfinite x \<or> underflows q then None else Some (x, rest)))"

text \<open>What the callers do with it: the whole text must be consumed.\<close>

definition whole_double :: "string \<Rightarrow> fp option" where
  "whole_double s = (case stod s of Some (x, []) \<Rightarrow> Some x | _ \<Rightarrow> None)"

section \<open>stol\<close>

definition stol :: "string \<Rightarrow> (int \<times> string) option" where
  "stol s =
     (let (neg, r) = split_sign (dropWhile is_space s); ds = takeWhile is_digit r;
          v = (if neg then - int (radix_value 10 ds) else int (radix_value 10 ds))
      in if ds = [] \<or> v < -9223372036854775808 \<or> 9223372036854775807 < v then None
         else Some (v, dropWhile is_digit r))"

definition whole_long :: "string \<Rightarrow> int option" where
  "whole_long s = (case stol s of Some (v, []) \<Rightarrow> Some v | _ \<Rightarrow> None)"

section \<open>Reading back a printed number\<close>

lemma is_digit_digit_char [simp]: "d < 10 \<Longrightarrow> is_digit (digit_char d)"
  by (simp add: is_digit_def digit_char_def)

lemma digit_of_digit_char [simp]: "d < 10 \<Longrightarrow> digit_of (digit_char d) = d"
  by (simp add: digit_of_def code_of_def) (simp add: digit_char_def)

lemma radix_value_append: "radix_value r (ds @ [c]) = r * radix_value r ds + digit_of c"
  by (simp add: radix_value_def)

lemma dec_of_nat_nonempty [simp]: "dec_of_nat n \<noteq> []"
  by (subst dec_of_nat.simps) simp

lemma dec_of_nat_digits: "list_all is_digit (dec_of_nat n)"
  by (induction n rule: dec_of_nat.induct) (subst dec_of_nat.simps, simp)

lemma radix_value_dec_of_nat: "radix_value 10 (dec_of_nat n) = n"
proof (induction n rule: dec_of_nat.induct)
  case (1 n)
  then show ?case
    by (subst dec_of_nat.simps) (simp add: radix_value_append, simp add: radix_value_def)
qed

lemma takeWhile_all: "list_all p xs \<Longrightarrow> takeWhile p xs = xs" and dropWhile_all: "list_all p xs \<Longrightarrow> dropWhile p xs = []"
  by (induction xs) simp_all

lemma is_digit_no_sign: "is_digit c \<Longrightarrow> c \<noteq> CHR ''-'' \<and> c \<noteq> CHR ''+'' \<and> \<not> is_space c"
  by (auto simp: is_digit_def is_space_def)

lemma digits_no_sign:
  assumes "list_all is_digit ds" "ds \<noteq> []"
  shows "dropWhile is_space ds = ds" and "split_sign ds = (False, ds)"
  using assms is_digit_no_sign by (cases ds; auto)+

lemma whole_long_dec_of_int:
  assumes "-9223372036854775808 \<le> i" and "i \<le> 9223372036854775807"
  shows "whole_long (dec_of_int i) = Some i"
proof -
  have m: "\<not> is_space (CHR ''-'')" by (simp add: is_space_def)
  have d: "takeWhile is_digit (dec_of_nat n) = dec_of_nat n" "dropWhile is_digit (dec_of_nat n) = []" for n
    using dec_of_nat_digits by (simp_all add: takeWhile_all dropWhile_all)
  have b: "\<not> 9223372036854775808 < nat (- i)" "\<not> 9223372036854775807 < nat i" using assms by linarith+
  show ?thesis using assms b digits_no_sign [OF dec_of_nat_digits dec_of_nat_nonempty]
    by (simp add: whole_long_def stol_def dec_of_int_def m d radix_value_dec_of_nat Let_def)
qed

text \<open>Concrete readings.\<close>

lemma stod_examples:
  "map_option snd (strtod '' -0x1p4z'') = Some (Number 16, ''z'')"
  "map_option snd (strtod ''2.5e3'') = Some (Number 2500, [])"
  "map_option snd (strtod ''7e+'') = Some (Number 7, ''e+'')"
  "map_option snd (strtod ''nan(x)y'') = Some (Not_A_Number, ''y'')"
  "strtod ''.'' = None"
  by code_simp+

end
