(* ===== verification/Concrete_Configs.thy ===== *)
theory Concrete_Configs
  imports Text_Numbers Formatting
begin

text \<open>
  Concrete inputs that the instances of the theorems share: short numbers as the readers see
  them, and the default configuration with a timeout of one second, which validates.
\<close>

lemma read_one: "whole_double ''1'' = Some fone"
proof -
  have "strtod ''1'' = Some (False, Number 1, [])" by code_simp
  moreover have "fround binary64 False 1 = Fin False 1" by (simp add: fround_eval)
  moreover have "\<not> underflows 1" by (simp add: underflows_def fround_eval)
  ultimately show ?thesis by (simp add: whole_double_def stod_def fone_def)
qed

lemma read_zero: "whole_double ''0'' = Some fzero"
proof -
  have "strtod ''0'' = Some (False, Number 0, [])" by code_simp
  moreover have "fround binary64 False 0 = Fin False 0" by (simp add: fround_eval)
  ultimately show ?thesis by (simp add: whole_double_def stod_def fzero_def underflows_def)
qed

lemma read_port: "whole_long ''49152'' = Some 49152"
proof -
  have "dec_of_int 49152 = ''49152''" by (simp add: dec_of_int_def dec_of_nat.simps digit_chars)
  then show ?thesis using whole_long_dec_of_int [of 49152] by simp
qed

lemma checked_fraction:
  assumes "d = Fin False q" "\<bar>q\<bar> * 1000000000 = of_int k" "0 \<le> k" "k < 1000000000000"
  shows "checked_duration d = Inr k"
  using assms fround_x87_int [of k False]
  by (simp add: checked_duration_def abs_mult fzero_def fone_def ticks_max_def Let_def)

lemma http_fraction:
  assumes "d = Fin False q" "\<bar>q\<bar> * 1000 = of_int k" "0 \<le> k" "k < 1000000000000"
  shows "http_timeout_ok d"
  using assms fround_x87_int [of k False]
  by (simp add: http_timeout_ok_def abs_mult ticks_max_def)

lemma default_client_valid:
  "validate_config (\<lambda>k. 1000) (default_config\<lparr>receive_timeout := fone, recovery_policy := policy\<rparr>) = Inr ()"
proof -
  have t: "timeout_ok 1000 d" if "d = Fin False q" "q * 1000000000 = of_int k" "0 < q" "0 < k" "k < 1000000000000" for d q k
    using that checked_fraction [of d q k] by (simp add: timeout_ok_def fzero_def ticks_max_def)
  have "timeout_ok 1000 fone" by (rule t [of _ 1 1000000000]) (simp_all add: fone_def)
  moreover have "timeout_ok 1000 (Fin False (1/2))" by (rule t [of _ "1/2" 500000000]) simp_all
  moreover have "timeout_ok 1000 (Fin False (1/4))" by (rule t [of _ "1/4" 250000000]) simp_all
  moreover have "timeout_ok 1000 (Fin False 5)" by (rule t [of _ 5 5000000000]) simp_all
  moreover have "http_timeout_ok fone" by (rule http_fraction [of _ 1 1000]) (simp_all add: fone_def)
  moreover have "http_timeout_ok (Fin False (1/2))" by (rule http_fraction [of _ "1/2" 500]) simp_all
  ultimately show ?thesis
    by (simp add: validate_config_iff config_ok_def)
      (simp add: default_config_def is_blank_def is_space_def fzero_def)
qed

end
