(* ===== verification/Plugin_Config.thy ===== *)
theory Plugin_Config
  imports Adapter_Config Concrete_Configs
begin

text \<open>
  The initialisation of the ros2\_control plugin, \<open>src/netft_hardware_interface.cpp\<close>: the
  readers of its string parameters, the name token shared by its node and service, the check
  of the hardware description, and the configuration that \<open>on_init\<close> leaves behind. The name
  check of rclcpp (\<open>expand_topic_or_service_name\<close>) is a parameter. The two build variants of
  the hardware interface are the values of \<open>api\<close>.
\<close>

datatype api = Legacy | Modern

definition interface_names :: "string list" where
  "interface_names = [''force.x'', ''force.y'', ''force.z'', ''torque.x'', ''torque.y'', ''torque.z'']"

section \<open>Parameters\<close>

type_synonym parameters = "string \<rightharpoonup> string"

definition parse_double :: "parameters \<Rightarrow> string \<Rightarrow> fp \<Rightarrow> fp result" where
  "parse_double ps field fallback =
     (case ps field of
        None \<Rightarrow> Inr fallback
      | Some text \<Rightarrow>
          (case whole_double text of
             Some v \<Rightarrow> if isfinite v then Inr v else Inl (InvalidArgument (field @ '' must be a finite number''))
           | None \<Rightarrow> Inl (InvalidArgument (field @ '' must be a finite number''))))"

definition parse_port :: "parameters \<Rightarrow> string \<Rightarrow> int \<Rightarrow> int result" where
  "parse_port ps field fallback =
     (case ps field of
        None \<Rightarrow> Inr fallback
      | Some text \<Rightarrow>
          (case whole_long text of
             Some v \<Rightarrow> if v < 1 \<or> v > 65535
               then Inl (InvalidArgument (field @ '' must be an integer between 1 and 65535'')) else Inr v
           | None \<Rightarrow> Inl (InvalidArgument (field @ '' must be an integer between 1 and 65535''))))"

definition parse_bool :: "parameters \<Rightarrow> string \<Rightarrow> bool \<Rightarrow> bool result" where
  "parse_bool ps field fallback =
     (case ps field of
        None \<Rightarrow> Inr fallback
      | Some text \<Rightarrow>
          if text = ''true'' \<or> text = ''True'' then Inr True
          else if text = ''false'' \<or> text = ''False'' then Inr False
          else Inl (InvalidArgument (field @ '' must be true or false'')))"

section \<open>Names\<close>

definition encoded_name_prefix :: string where
  "encoded_name_prefix = ''netft_encoded_''"

definition is_ascii_letter :: "char \<Rightarrow> bool" where
  "is_ascii_letter c \<longleftrightarrow>
     97 \<le> code_of c \<and> code_of c \<le> 122 \<or> 65 \<le> code_of c \<and> code_of c \<le> 90"

definition is_ros_name_token :: "string \<Rightarrow> bool" where
  "is_ros_name_token s \<longleftrightarrow>
     s \<noteq> [] \<and> (is_ascii_letter (hd s) \<or> hd s = CHR ''_'') \<and>
     list_all (\<lambda>c. is_ascii_letter c \<or> is_digit c \<or> c = CHR ''_'') s"

definition encode_byte :: "char \<Rightarrow> string" where
  "encode_byte c = [hex_char (code_of c div 16), hex_char (code_of c mod 16)]"

definition collision_safe_name_token :: "string \<Rightarrow> string" where
  "collision_safe_name_token s =
     (if is_ros_name_token s \<and> take (length encoded_name_prefix) s \<noteq> encoded_name_prefix then s
      else encoded_name_prefix @ concat (map encode_byte s))"

definition auxiliary_node_name :: "string \<Rightarrow> string" where
  "auxiliary_node_name token = ''netft_'' @ token @ ''_hardware''"

section \<open>The hardware description\<close>

record interface_info =
  if_name :: string
  if_data_type :: string
  if_size :: int
  if_initial_value :: string

record sensor_info =
  si_name :: string
  si_state_interfaces :: "interface_info list"

text \<open>Of the joints, GPIOs and transmissions the code asks only whether there are any.\<close>

record hardware_info =
  hi_joints :: nat
  hi_gpios :: nat
  hi_transmissions :: nat
  hi_sensors :: "sensor_info list"
  hi_parameters :: parameters

definition check_interface :: "api \<Rightarrow> interface_info \<Rightarrow> string \<Rightarrow> unit result" where
  "check_interface api i name =
     and_then (throw_if (if_name i \<noteq> name) (InvalidArgument
       ''state interfaces must be force.x, force.y, force.z, torque.x, torque.y, torque.z'')) (\<lambda>_.
     and_then (throw_if (if api = Legacy then if_data_type i \<noteq> [] \<and> if_data_type i \<noteq> ''double''
                         else if_data_type i \<noteq> ''double'')
       (InvalidArgument ''all state interfaces must use data_type double'')) (\<lambda>_.
     and_then (throw_if (api = Modern \<and> if_size i \<noteq> 1)
       (InvalidArgument ''all state interfaces must be scalar (size 1)'')) (\<lambda>_.
     throw_if (if_initial_value i \<noteq> [] \<and>
               \<not> (case whole_double (if_initial_value i) of Some v \<Rightarrow> isfinite v | None \<Rightarrow> False))
       (InvalidArgument ''state interface initial_value must be a finite double''))))"

fun check_interfaces :: "api \<Rightarrow> interface_info list \<Rightarrow> string list \<Rightarrow> unit result" where
  "check_interfaces api (i # is) (name # names) =
     and_then (check_interface api i name) (\<lambda>_. check_interfaces api is names)"
| "check_interfaces api _ _ = Inr ()"

text \<open>The result is the name of the one sensor, which the plugin keeps.\<close>

definition validate_hardware_info :: "api \<Rightarrow> hardware_info \<Rightarrow> string result" where
  "validate_hardware_info api info =
     and_then (throw_if (hi_joints info \<noteq> 0 \<or> hi_gpios info \<noteq> 0 \<or> hi_transmissions info \<noteq> 0)
       (InvalidArgument ''sensor hardware must not declare joints, GPIOs, or transmissions'')) (\<lambda>_.
     (case hi_sensors info of
        [sensor] \<Rightarrow>
          and_then (throw_if (si_name sensor = []) (InvalidArgument ''sensor name must be non-empty'')) (\<lambda>_.
          and_then (throw_if (length (si_state_interfaces sensor) \<noteq> length interface_names)
            (InvalidArgument ''sensor must declare exactly six state interfaces'')) (\<lambda>_.
          and_then (check_interfaces api (si_state_interfaces sensor) interface_names) (\<lambda>_.
          Inr (si_name sensor))))
      | _ \<Rightarrow> Inl (InvalidArgument ''exactly one sensor is required'')))"

section \<open>The configuration\<close>

record plugin_config =
  pc_client :: config
  pc_activation_timeout :: fp
  pc_diagnostics_rate :: fp
  pc_expected_rdt_rate :: fp
  pc_rate_tolerance :: fp
  pc_sensor_name :: string
  pc_ros_name_token :: string
  pc_allow_bias :: bool
  pc_bias_service :: string

definition parse_client :: "(nat \<Rightarrow> ticks) \<Rightarrow> parameters \<Rightarrow> config result" where
  "parse_client now ps =
     (let host = (case ps ''sensor_ip'' of Some h \<Rightarrow> h | None \<Rightarrow> sensor_host default_config) in
      and_then (throw_if (all_blank host) (InvalidArgument ''sensor_ip must be non-empty'')) (\<lambda>_.
      and_then (parse_port ps ''sensor_port'' (rdt_port default_config)) (\<lambda>port.
      and_then (parse_port ps ''http_port'' (http_port default_config)) (\<lambda>http.
      and_then (parse_double ps ''receive_timeout'' (receive_timeout default_config)) (\<lambda>receive.
      and_then (parse_double ps ''configuration_connect_timeout''
                 (configuration_connect_timeout default_config)) (\<lambda>connect.
      and_then (parse_double ps ''configuration_timeout'' (configuration_timeout default_config)) (\<lambda>total.
      and_then (parse_bool ps ''use_sensor_calibration'' True) (\<lambda>sensor_calibration.
      and_then (if sensor_calibration then Inr None
                else and_then (parse_double ps ''counts_per_force'' (Fin False 1000000)) (\<lambda>cpf.
                     and_then (parse_double ps ''counts_per_torque'' (Fin False 1000000)) (\<lambda>cpt.
                     Inr (Some \<lparr>counts_per_force_unit = cpf, counts_per_torque_unit = cpt,
                       force_unit = Newton, torque_unit = NewtonMeter\<rparr>)))) (\<lambda>override.
      (let c = default_config\<lparr>sensor_host := host, rdt_port := port, http_port := http,
                 receive_timeout := receive, configuration_connect_timeout := connect,
                 configuration_timeout := total, calibration_override := override,
                 recovery_policy := FailStop\<rparr>
       in and_then (validate_config now c) (\<lambda>_. Inr c)))))))))))"

definition bad_activation_timeout :: "fp \<Rightarrow> bool" where
  "bad_activation_timeout v \<longleftrightarrow>
     fle v fzero \<or> fle (Fin False (of_int ticks_max)) (fmul extended80 (Fin False 1000000000) v)"

text \<open>A handler that throws another exception in place of the one it caught.\<close>

fun rethrow :: "(exn \<Rightarrow> exn) \<Rightarrow> 'a result \<Rightarrow> 'a result" where
  "rethrow f (Inl e) = Inl (f e)"
| "rethrow f (Inr x) = Inr x"

lemma rethrow_Inr [simp]: "rethrow f m = Inr x \<longleftrightarrow> m = Inr x"
  by (cases m) simp_all

text \<open>\<open>expand\<close> is the check of rclcpp: a service name and a node name, and the exception it throws.\<close>

definition parse_parameters ::
  "(string \<Rightarrow> string \<Rightarrow> unit result) \<Rightarrow> (nat \<Rightarrow> ticks) \<Rightarrow> string \<Rightarrow> parameters \<Rightarrow> plugin_config result" where
  "parse_parameters expand now name ps =
     and_then (parse_client now ps) (\<lambda>client.
     and_then (parse_double ps ''activation_timeout'' (Fin False 2)) (\<lambda>activation.
     and_then (parse_double ps ''diagnostics_rate'' fone) (\<lambda>diagnostics.
     and_then (parse_double ps ''expected_rdt_rate'' (Fin False 2000)) (\<lambda>expected.
     and_then (parse_double ps ''rate_tolerance'' dbl_0_2) (\<lambda>tol.
     and_then (parse_bool ps ''allow_bias'' True) (\<lambda>allow.
     (let token = collision_safe_name_token name;
          service = (case ps ''bias_service'' of Some s \<Rightarrow> s | None \<Rightarrow> ''/'' @ token @ ''/bias'') in
      and_then (throw_if (bad_activation_timeout activation)
        (InvalidArgument ''activation_timeout must be greater than zero'')) (\<lambda>_.
      and_then (throw_if (bad_period diagnostics)
        (InvalidArgument ''diagnostics_rate must be greater than zero'')) (\<lambda>_.
      and_then (throw_if (fle expected fzero)
        (InvalidArgument ''expected_rdt_rate must be greater than zero'')) (\<lambda>_.
      and_then (throw_if (flt tol fzero \<or> flt fone tol)
        (InvalidArgument ''rate_tolerance must be between zero and one'')) (\<lambda>_.
      and_then (rethrow (\<lambda>e. InvalidArgument (''bias_service must be a valid ROS service name: '' @ what e))
        (expand service (auxiliary_node_name token))) (\<lambda>_.
      Inr \<lparr>pc_client = client, pc_activation_timeout = activation,
           pc_diagnostics_rate = diagnostics, pc_expected_rdt_rate = expected,
           pc_rate_tolerance = tol, pc_sensor_name = name, pc_ros_name_token = token,
           pc_allow_bias = allow, pc_bias_service = service\<rparr>))))))))))))"

section \<open>Names do not collide\<close>

lemma encode_byte_inj: "encode_byte c = encode_byte d \<longleftrightarrow> c = d"
proof
  assume e: "encode_byte c = encode_byte d"
  have l: "code_of x div 16 < 16" "code_of x mod 16 < 16" for x
    using code_of_less [of x] by (simp_all add: less_mult_imp_div_less)
  from e have "hex_char (code_of c div 16) = hex_char (code_of d div 16)"
    "hex_char (code_of c mod 16) = hex_char (code_of d mod 16)" by (simp_all add: encode_byte_def)
  then have "code_of c div 16 = code_of d div 16" "code_of c mod 16 = code_of d mod 16"
    using l by (simp_all only: hex_char_inj)
  then have "code_of c = code_of d" by (metis div_mult_mod_eq)
  then show "c = d" by (simp only: code_of_inject)
qed simp

lemma concat_encode_inj: "concat (map encode_byte s) = concat (map encode_byte t) \<longleftrightarrow> s = t"
proof (induction s arbitrary: t)
  case Nil
  show ?case by (cases t) (simp_all add: encode_byte_def)
next
  case (Cons c s)
  show ?case
  proof (cases t)
    case (Cons d t')
    have "length (encode_byte c) = length (encode_byte d)" by (simp add: encode_byte_def)
    then show ?thesis by (simp add: Cons encode_byte_inj Cons.IH)
  qed (simp add: encode_byte_def)
qed

lemma token_inj:
  assumes "collision_safe_name_token s = collision_safe_name_token t"
  shows "s = t"
  using assms
  by (auto simp: collision_safe_name_token_def concat_encode_inj split: if_split_asm)

lemma hex_char_token:
  assumes "d < 16"
  shows "is_ascii_letter (hex_char d) \<or> is_digit (hex_char d)"
proof -
  have "list_all (\<lambda>d. is_ascii_letter (hex_char d) \<or> is_digit (hex_char d)) [0..<16]"
    by code_simp
  with assms show ?thesis by (simp add: list_all_iff)
qed

lemma encoded_chars:
  "list_all (\<lambda>c. is_ascii_letter c \<or> is_digit c \<or> c = CHR ''_'') (concat (map encode_byte s))"
proof (induction s)
  case (Cons c s)
  have "code_of c div 16 < 16" using code_of_less [of c] by (simp add: less_mult_imp_div_less)
  then show ?case
    using Cons hex_char_token [of "code_of c div 16"] hex_char_token [of "code_of c mod 16"]
    by (auto simp: encode_byte_def)
qed simp

lemma prefix_token: "is_ros_name_token encoded_name_prefix"
  by code_simp

lemma token_valid: "is_ros_name_token (collision_safe_name_token s)"
  using prefix_token encoded_chars [of s]
  by (auto simp: collision_safe_name_token_def is_ros_name_token_def)

text \<open>
  C32: two sensors never share a node or a default bias service: the name token is an
  injective function of the sensor name, and it is always a valid ROS name token.
\<close>

theorem name_tokens_injective_and_valid:
  "inj collision_safe_name_token \<and> is_ros_name_token (collision_safe_name_token s)"
  by (simp add: injI token_inj token_valid)

section \<open>Accepted parameters\<close>

lemma parse_double_finite: "parse_double ps f d = Inr v \<Longrightarrow> isfinite d \<Longrightarrow> isfinite v"
  by (auto simp: parse_double_def split: option.splits if_splits)

lemma parse_port_range:
  "parse_port ps f d = Inr v \<Longrightarrow> d \<in> {1..65535} \<Longrightarrow> v \<in> {1..65535}"
  by (auto simp: parse_port_def split: option.splits if_splits)

lemma parse_port_printed:
  assumes "v \<in> {1..65535}"
  shows "parse_port [f \<mapsto> dec_of_int v] f d = Inr v"
  using assms whole_long_dec_of_int [of v] by (auto simp: parse_port_def)

text \<open>What an accepted description looks like.\<close>

definition interface_ok :: "api \<Rightarrow> interface_info \<Rightarrow> bool" where
  "interface_ok api i \<longleftrightarrow>
     (if_data_type i = ''double'' \<or> api = Legacy \<and> if_data_type i = []) \<and>
     (api = Modern \<longrightarrow> if_size i = 1) \<and>
     (if_initial_value i = [] \<or> (\<exists>v. whole_double (if_initial_value i) = Some v \<and> isfinite v))"

lemma check_interface_iff:
  "check_interface api i name = Inr () \<longleftrightarrow> if_name i = name \<and> interface_ok api i"
  by (auto simp: check_interface_def interface_ok_def split: option.splits)

lemma check_interfaces_iff:
  "length is = length names \<Longrightarrow>
    check_interfaces api is names = Inr () \<longleftrightarrow> map if_name is = names \<and> list_all (interface_ok api) is"
  by (induction "is" names rule: list_induct2) (auto simp: check_interface_iff)

lemma validate_hardware_info_iff:
  "validate_hardware_info api info = Inr name \<longleftrightarrow>
     hi_joints info = 0 \<and> hi_gpios info = 0 \<and> hi_transmissions info = 0 \<and> name \<noteq> [] \<and>
     (\<exists>sensor. hi_sensors info = [sensor] \<and> si_name sensor = name \<and>
        map if_name (si_state_interfaces sensor) = interface_names \<and>
        list_all (interface_ok api) (si_state_interfaces sensor))"
  (is "_ = ?r")
proof (cases "\<exists>sensor. hi_sensors info = [sensor]")
  case True
  then obtain sensor where s: "hi_sensors info = [sensor]" by blast
  show ?thesis
  proof (cases "length (si_state_interfaces sensor) = length interface_names")
    case True
    then show ?thesis
      by (auto simp: validate_hardware_info_def s check_interfaces_iff)
  next
    case False
    then have "map if_name (si_state_interfaces sensor) \<noteq> interface_names" by (metis length_map)
    with False show ?thesis by (auto simp: validate_hardware_info_def s)
  qed
next
  case False
  then show ?thesis
    by (auto simp: validate_hardware_info_def split: list.splits)
qed

lemma parse_client_Inr:
  assumes "parse_client now ps = Inr c"
  shows "config_ok now c" and "recovery_policy c = FailStop" and "isfinite (receive_timeout c)"
proof -
  show "config_ok now c"
    using assms unfolding parse_client_def Let_def and_then_Inr throw_if_Inr
    by (clarsimp simp flip: validate_config_iff)
  then show "isfinite (receive_timeout c)" by (simp add: config_ok_def timeout_ok_def)
  show "recovery_policy c = FailStop"
    using assms unfolding parse_client_def Let_def and_then_Inr throw_if_Inr by clarsimp
qed

lemma default_rates_finite: "isfinite (Fin False 2)" "isfinite fone" "isfinite (Fin False 2000)" "isfinite dbl_0_2"
proof -
  have "fround binary64 False (1 / 5) = Fin False (round_mag binary64 (1 / 5))"
    by (rule fround_eq [OF refl]) (simp add: fround_eval)
  then show "isfinite dbl_0_2" by (simp add: dbl_0_2_def)
qed (simp_all add: fone_def)

text \<open>The contract of the configuration that \<open>on_init\<close> accepts.\<close>

definition plugin_config_ok :: "(nat \<Rightarrow> ticks) \<Rightarrow> plugin_config \<Rightarrow> bool" where
  "plugin_config_ok now c \<longleftrightarrow>
     config_ok now (pc_client c) \<and> recovery_policy (pc_client c) = FailStop \<and>
     isfinite (pc_activation_timeout c) \<and> \<not> bad_activation_timeout (pc_activation_timeout c) \<and>
     usable_rate (pc_diagnostics_rate c) \<and>
     (\<exists>ev. evaluator_init (pc_expected_rdt_rate c) (pc_rate_tolerance c) = Inr ev) \<and>
     pc_ros_name_token c = collision_safe_name_token (pc_sensor_name c)"

lemma parse_parameters_steps:
  assumes "parse_parameters expand now name ps = Inr c"
  shows "parse_client now ps = Inr (pc_client c)"
    and "parse_double ps ''activation_timeout'' (Fin False 2) = Inr (pc_activation_timeout c)"
    and "parse_double ps ''diagnostics_rate'' fone = Inr (pc_diagnostics_rate c)"
    and "parse_double ps ''expected_rdt_rate'' (Fin False 2000) = Inr (pc_expected_rdt_rate c)"
    and "parse_double ps ''rate_tolerance'' dbl_0_2 = Inr (pc_rate_tolerance c)"
    and "\<not> bad_activation_timeout (pc_activation_timeout c)" and "\<not> bad_period (pc_diagnostics_rate c)"
    and "\<not> fle (pc_expected_rdt_rate c) fzero" and "\<not> flt (pc_rate_tolerance c) fzero"
    and "\<not> flt fone (pc_rate_tolerance c)" and "pc_sensor_name c = name"
    and "pc_ros_name_token c = collision_safe_name_token name"
    and "expand (pc_bias_service c) (auxiliary_node_name (pc_ros_name_token c)) = Inr ()"
proof -
  from assms show "parse_client now ps = Inr (pc_client c)"
    "parse_double ps ''activation_timeout'' (Fin False 2) = Inr (pc_activation_timeout c)"
    "parse_double ps ''diagnostics_rate'' fone = Inr (pc_diagnostics_rate c)"
    "parse_double ps ''expected_rdt_rate'' (Fin False 2000) = Inr (pc_expected_rdt_rate c)"
    "parse_double ps ''rate_tolerance'' dbl_0_2 = Inr (pc_rate_tolerance c)"
    "\<not> bad_activation_timeout (pc_activation_timeout c)" "\<not> bad_period (pc_diagnostics_rate c)"
    "\<not> fle (pc_expected_rdt_rate c) fzero" "\<not> flt (pc_rate_tolerance c) fzero"
    "\<not> flt fone (pc_rate_tolerance c)" "pc_sensor_name c = name"
    "pc_ros_name_token c = collision_safe_name_token name"
    "expand (pc_bias_service c) (auxiliary_node_name (pc_ros_name_token c)) = Inr ()"
    unfolding parse_parameters_def Let_def and_then_Inr throw_if_Inr rethrow_Inr by clarsimp+
qed

lemma accepted_parameters:
  assumes "parse_parameters expand now name ps = Inr c"
  shows "plugin_config_ok now c \<and> pc_sensor_name c = name
    \<and> expand (pc_bias_service c) (auxiliary_node_name (pc_ros_name_token c)) = Inr ()"
proof -
  note st = parse_parameters_steps [OF assms]
  note fin = parse_double_finite [OF st(2) default_rates_finite(1)]
    parse_double_finite [OF st(3) default_rates_finite(2)]
    parse_double_finite [OF st(4) default_rates_finite(3)]
    parse_double_finite [OF st(5) default_rates_finite(4)]
  have "usable_rate (pc_diagnostics_rate c)" using usable_rate_iff [OF fin(2)] st(7) by simp
  moreover have "\<exists>ev. evaluator_init (pc_expected_rdt_rate c) (pc_rate_tolerance c) = Inr ev"
    unfolding evaluator_init_iff using fin st by simp
  ultimately show ?thesis
    using parse_client_Inr [OF st(1)] fin st(6,11-13) by (simp add: plugin_config_ok_def)
qed

text \<open>
  \<open>on_init\<close> accepts no configuration that a later stage would choke on: the client's own
  validation holds, the policy is \<open>FailStop\<close>, the activation timeout and the timer period are
  positive and fit the clock, the diagnostic evaluator that \<open>on_configure\<close> builds from the two
  rates does not throw, and the service name has passed the check of rclcpp.
\<close>

theorem plugin_parameters_contract:
  assumes "parse_parameters expand now name ps = Inr c"
  shows "plugin_config_ok now c \<and> pc_sensor_name c = name
    \<and> expand (pc_bias_service c) (auxiliary_node_name (pc_ros_name_token c)) = Inr ()"
  using assms by (rule accepted_parameters)

section \<open>A concrete plugin\<close>

definition example_parameters :: parameters where
  "example_parameters = [''receive_timeout'' \<mapsto> ''1'', ''rate_tolerance'' \<mapsto> ''0'', ''sensor_port'' \<mapsto> ''49152'']"

definition example_plugin :: plugin_config where
  "example_plugin = sum.projr (parse_parameters (\<lambda>s n. Inr ()) (\<lambda>k. 1000) ''wrist'' example_parameters)"

definition example_plugin_client :: config where
  "example_plugin_client = default_config\<lparr>receive_timeout := fone, recovery_policy := FailStop\<rparr>"

lemma example_plugin_client_valid: "validate_config (\<lambda>k. 1000) example_plugin_client = Inr ()"
  by (simp add: example_plugin_client_def default_client_valid)

lemma example_client_parses: "parse_client (\<lambda>k. 1000) example_parameters = Inr example_plugin_client"
proof -
  have "\<not> all_blank ''192.168.1.1''" by (simp add: all_blank_def is_space_def)
  then show ?thesis
    using example_plugin_client_valid
    by (simp add: parse_client_def example_parameters_def parse_port_def parse_double_def parse_bool_def
        read_one read_port example_plugin_client_def Let_def)
      (simp add: default_config_def fone_def)
qed

lemma example_plugin_parses:
  "parse_parameters (\<lambda>s n. Inr ()) (\<lambda>k. 1000) ''wrist'' example_parameters = Inr example_plugin"
proof -
  have a: "\<not> bad_activation_timeout (Fin False 2)"
    using fround_x87_int [of 2000000000 False] by (simp add: bad_activation_timeout_def fzero_def ticks_max_def)
  have d: "\<not> bad_period fone"
    using fround_x87_int [of 1000000000 False] by (simp add: bad_period_def period_ns_def fone_def fzero_def ticks_max_def)
  have b: "parse_double example_parameters ''activation_timeout'' (Fin False 2) = Inr (Fin False 2)"
    "parse_double example_parameters ''diagnostics_rate'' fone = Inr fone"
    "parse_double example_parameters ''expected_rdt_rate'' (Fin False 2000) = Inr (Fin False 2000)"
    "parse_double example_parameters ''rate_tolerance'' dbl_0_2 = Inr fzero"
    "parse_bool example_parameters ''allow_bias'' True = Inr True"
    by (simp_all add: parse_double_def parse_bool_def example_parameters_def read_zero) (simp add: fzero_def)
  have "\<not> fle (Fin False 2000) fzero" "\<not> flt fzero fzero" "\<not> flt fone fzero"
    by (simp_all add: fzero_def fone_def)
  then have "\<exists>c. parse_parameters (\<lambda>s n. Inr ()) (\<lambda>k. 1000) ''wrist'' example_parameters = Inr c"
    using a d by (simp add: parse_parameters_def example_client_parses b Let_def throw_if_def)
  then show ?thesis unfolding example_plugin_def by (metis sum.sel(2))
qed

theorem plugin_parameters_contract_witness:
  "plugin_config_ok (\<lambda>k. 1000) example_plugin \<and> pc_ros_name_token example_plugin = collision_safe_name_token ''wrist''"
  using plugin_parameters_contract [OF example_plugin_parses] by (simp add: plugin_config_ok_def)

lemma example_plugin_ok: "plugin_config_ok (\<lambda>k. 1000) example_plugin"
  using accepted_parameters [OF example_plugin_parses] by blast

lemma example_plugin_fields: "pc_client example_plugin = example_plugin_client"
  using parse_parameters_steps(1) [OF example_plugin_parses] by (simp add: example_client_parses)

end
