(* ===== verification/Hardware_Interface.thy ===== *)
theory Hardware_Interface
  imports Plugin_Config Unit_Conversion Client_Lifecycle
begin

text \<open>
  The ros2\_control plugin, class \<open>NetFTHardwareInterface\<close> of
  \<open>src/netft_hardware_interface.cpp\<close>: its state, the sample callback it gives to the client,
  the controller loop's \<open>read\<close>, the lifecycle callbacks and the auxiliary thread's service and
  timer. The client is the component of the other theories; its blocking calls \<open>stop\<close> and
  \<open>start\<close> are that system's, so here a callback takes the client they leave behind. The
  answers of the framework are arguments: which interface handles are found, which
  writes of an interface succeed (\<open>ok i\<close>), what the real-time buffer hands out. The code
  under \<open>NETFT_ROS2_CONTROL_TESTING\<close> is left out.
\<close>

section \<open>State\<close>

text \<open>
  The auxiliary resources are created and destroyed together, so the evaluator stands for
  all of them; the service may be absent besides. The buffer is what was written to the
  real-time buffer since it was initialised, the last one first. Its values are the members
  in the legacy build and belong to the framework in the modern one.
\<close>

record plugin =
  pl_config :: plugin_config
  pl_client :: "client option"
  pl_evaluator :: "evaluator option"
  pl_bias_service :: bool
  pl_stopping :: bool
  pl_buffer :: "si_sample list"
  pl_generation :: u64
  pl_write_fault :: bool
  pl_fault :: fault_code
  pl_handles :: "bool list"
  pl_axes :: "fp list"

text \<open>What a lifecycle callback returns, or the exception it lets through.\<close>

datatype callback_return = Success | Failed | Escapes exn

definition empty_si_sample :: si_sample where
  "empty_si_sample = \<lparr>si_rdt_sequence = 0, si_ft_sequence = 0, si_status = 0,
     si_force = [fzero, fzero, fzero], si_torque = [fzero, fzero, fzero],
     si_configuration_revision = 0, si_received_at = 0\<rparr>"

section \<open>Faults\<close>

definition latch_fatal_fault :: "fault_code \<Rightarrow> plugin \<Rightarrow> plugin" where
  "latch_fatal_fault code p = (if pl_fault p = FC_None then p\<lparr>pl_fault := code\<rparr> else p)"

definition fault_latched :: "plugin \<Rightarrow> plugin \<times> bool" where
  "fault_latched p =
     (case pl_client p of
        None \<Rightarrow> (p, True)
      | Some c \<Rightarrow>
          let p1 = (if faulted c \<and> latch c \<noteq> FC_None then latch_fatal_fault (latch c) p else p)
          in (p1, pl_fault p1 \<noteq> FC_None))"

section \<open>The state interfaces\<close>

definition invalidate_interfaces :: "api \<Rightarrow> (nat \<Rightarrow> bool) \<Rightarrow> plugin \<Rightarrow> plugin" where
  "invalidate_interfaces a ok p =
     p\<lparr>pl_axes :=
       (if a = Legacy then replicate 6 NaN
        else map (\<lambda>i. if pl_handles p ! i \<and> ok i then NaN else pl_axes p ! i) [0..<6])\<rparr>"

fun write_from :: "(nat \<Rightarrow> bool) \<Rightarrow> nat \<Rightarrow> fp list \<Rightarrow> fp list \<Rightarrow> fp list \<times> bool" where
  "write_from ok i [] axes = (axes, True)"
| "write_from ok i (v # vs) axes =
     (if ok i then write_from ok (Suc i) vs (axes[i := v]) else (axes, False))"

definition write_axes :: "api \<Rightarrow> (nat \<Rightarrow> bool) \<Rightarrow> si_sample \<Rightarrow> plugin \<Rightarrow> plugin \<times> bool" where
  "write_axes a ok s p =
     (let values = si_force s @ si_torque s;
          (axes, written) = (if a = Legacy then (values, True) else write_from ok 0 values (pl_axes p))
      in (p\<lparr>pl_axes := axes\<rparr>, written))"

definition timeout_ns :: "plugin \<Rightarrow> ticks" where
  "timeout_ns p = ftrunc (fmul binary64 (receive_timeout (pc_client (pl_config p))) (Fin False 1000000000))"

definition sample_is_stale :: "ticks \<Rightarrow> si_sample \<Rightarrow> plugin \<Rightarrow> bool" where
  "sample_is_stale now s p \<longleftrightarrow> si_received_at s \<le> 0 \<or> now - si_received_at s > timeout_ns p"

text \<open>
  \<open>read\<close>: the sample that the buffer hands out may be missing; the writes of the axes and
  those of the invalidation are answered by \<open>ok\<close> and \<open>ok'\<close>. True is \<open>OK\<close>.
\<close>

definition read :: "api \<Rightarrow> ticks \<Rightarrow> si_sample option \<Rightarrow> (nat \<Rightarrow> bool) \<Rightarrow> (nat \<Rightarrow> bool) \<Rightarrow> plugin \<Rightarrow> plugin \<times> bool" where
  "read a now current ok ok' p =
     (let (p1, f) = fault_latched p;
          failed = (\<lambda>p. (invalidate_interfaces a ok' p, False))
      in case current of
           None \<Rightarrow> failed p1
         | Some s \<Rightarrow>
             if f \<or> pl_write_fault p1 then failed p1
             else if \<not> si_sample_is_finite s then failed (latch_fatal_fault FC_SensorConfiguration p1)
             else if sample_is_stale now s p1 then failed (latch_fatal_fault FC_Timeout p1)
             else case write_axes a ok s p1 of
                    (p2, True) \<Rightarrow> (p2, True)
                  | (p2, False) \<Rightarrow> failed (p2\<lparr>pl_write_fault := True\<rparr>))"

section \<open>The sample callback\<close>

definition store_sample :: "sample \<Rightarrow> plugin \<Rightarrow> plugin \<times> callback_end" where
  "store_sample s p =
     (case to_si_sample s of
        Inr si \<Rightarrow> (p\<lparr>pl_buffer := si # pl_buffer p, pl_generation := pl_generation p + 1\<rparr>, Returned)
      | Inl (InvalidArgument m) \<Rightarrow> (latch_fatal_fault FC_SensorConfiguration p, Threw m)
      | Inl e \<Rightarrow> (p, Threw (what e)))"

section \<open>The auxiliary thread\<close>

definition stop_auxiliary :: "plugin \<Rightarrow> plugin" where
  "stop_auxiliary p = p\<lparr>pl_stopping := True, pl_evaluator := None, pl_bias_service := False\<rparr>"

text \<open>The evaluator comes first; \<open>created\<close> is how creating the ROS resources ends.\<close>

definition start_auxiliary :: "unit result \<Rightarrow> plugin \<Rightarrow> plugin result" where
  "start_auxiliary created p =
     and_then (evaluator_init (pc_expected_rdt_rate (pl_config p)) (pc_rate_tolerance (pl_config p))) (\<lambda>ev.
     and_then created (\<lambda>_.
     Inr (p\<lparr>pl_evaluator := Some ev, pl_bias_service := pc_allow_bias (pl_config p),
            pl_stopping := False\<rparr>)))"

text \<open>An exception out of the executor, from either handler.\<close>

definition auxiliary_failed :: "plugin \<Rightarrow> plugin" where
  "auxiliary_failed p = (if \<not> pl_stopping p then latch_fatal_fault FC_Callback p else p)"

definition handle_bias ::
  "(int \<Rightarrow> string) \<Rightarrow> os_count \<Rightarrow> os_count \<Rightarrow> plugin \<Rightarrow> plugin \<times> bool \<times> string" where
  "handle_bias strerror answer1 answer2 p =
     (case pl_client p of
        None \<Rightarrow> (p, False, ''client is not configured'')
      | Some c \<Rightarrow>
          (case bias strerror answer1 answer2 c of
             (c', Inr _) \<Rightarrow> (p\<lparr>pl_client := Some c'\<rparr>, True, ''software bias command sent and RDT streaming restarted'')
           | (c', Inl e) \<Rightarrow> (p\<lparr>pl_client := Some c'\<rparr>, False, what e)))"

text \<open>One message on \<open>/diagnostics\<close>: level, name, message, hardware id and values.\<close>

record diagnostic_status =
  ds_level :: int
  ds_name :: string
  ds_message :: string
  ds_hardware_id :: string
  ds_values :: "(string \<times> string) list"

definition overlay_fault :: "fault_code \<Rightarrow> health_snapshot \<Rightarrow> health_snapshot" where
  "overlay_fault f h =
     (if f \<noteq> FC_None \<and> h_fault_code h = FC_None
      then let h1 = h\<lparr>h_state := CS_Faulted, h_fault_code := f\<rparr>
           in if last_error h1 = [] \<and> f = FC_Timeout
              then h1\<lparr>last_error := ''no valid RDT record before timeout''\<rparr> else h1
      else h)"

definition publish_diagnostics :: "ticks \<Rightarrow> plugin \<Rightarrow> plugin \<times> diagnostic_status option" where
  "publish_diagnostics now p =
     (case (pl_client p, pl_evaluator p) of
        (Some c, Some ev) \<Rightarrow>
          (let (c', h) = take_health now c;
               snapshot = overlay_fault (pl_fault p) h;
               (ev', r) = evaluate snapshot ev
           in (p\<lparr>pl_client := Some c', pl_evaluator := Some ev'\<rparr>,
               Some \<lparr>ds_level = level r, ds_name = ''netft_driver: '' @ pc_sensor_name (pl_config p),
                 ds_message = message r,
                 ds_hardware_id = h_sensor_host snapshot @ '':'' @ dec_of_int (h_rdt_port snapshot),
                 ds_values = report_values r\<rparr>))
      | _ \<Rightarrow> (p, None))"

section \<open>The lifecycle\<close>

text \<open>
  \<open>on_init\<close> gives a plugin, or \<open>None\<close> for \<open>ERROR\<close>: an instance that failed to initialise is
  discarded by the framework. \<open>base_ok\<close> is the answer of the base class; the handles are
  still null and the values of the modern build belong to the framework.
\<close>

definition on_init ::
  "api \<Rightarrow> bool \<Rightarrow> (string \<Rightarrow> string \<Rightarrow> unit result) \<Rightarrow> (nat \<Rightarrow> ticks) \<Rightarrow> fp list \<Rightarrow> hardware_info \<Rightarrow> plugin option" where
  "on_init a base_ok expand now values info =
     (if \<not> base_ok then None
      else case and_then (validate_hardware_info a info) (\<lambda>name. parse_parameters expand now name (hi_parameters info)) of
             Inl e \<Rightarrow> None
           | Inr cfg \<Rightarrow> Some (invalidate_interfaces a (\<lambda>i. True)
               \<lparr>pl_config = cfg, pl_client = None, pl_evaluator = None, pl_bias_service = False,
                pl_stopping = False, pl_buffer = [empty_si_sample], pl_generation = 0,
                pl_write_fault = False, pl_fault = FC_None, pl_handles = replicate 6 False,
                pl_axes = values\<rparr>))"

definition configure_reset :: "api \<Rightarrow> (nat \<Rightarrow> bool) \<Rightarrow> plugin \<Rightarrow> plugin" where
  "configure_reset a ok p =
     invalidate_interfaces a ok ((stop_auxiliary p)
       \<lparr>pl_client := None, pl_generation := 0, pl_write_fault := False, pl_fault := FC_None,
        pl_buffer := [empty_si_sample]\<rparr>)"

definition on_configure ::
  "api \<Rightarrow> (nat \<Rightarrow> ticks) \<Rightarrow> unit result \<Rightarrow> (nat \<Rightarrow> bool) \<Rightarrow> plugin \<Rightarrow> plugin \<times> callback_return" where
  "on_configure a now created ok p =
     (let p1 = configure_reset a ok p in
      case and_then (client_init now (pc_client (pl_config p1))) (\<lambda>c.
             start_auxiliary created (p1\<lparr>pl_client := Some c\<rparr>)) of
        Inr p2 \<Rightarrow> (p2, Success)
      | Inl e \<Rightarrow> ((stop_auxiliary p1)\<lparr>pl_client := None\<rparr>, Failed))"

text \<open>
  \<open>on_activate\<close> up to the call of \<open>start\<close>, with the number of handles found before the
  framework throws: \<open>None\<close> goes on.
\<close>

definition activate_prepare ::
  "api \<Rightarrow> nat \<Rightarrow> (nat \<Rightarrow> bool) \<Rightarrow> plugin \<Rightarrow> plugin \<times> callback_return option" where
  "activate_prepare a found ok p =
     (if pl_client p = None then (p, Some Failed)
      else let p1 = (if a = Modern
                     then p\<lparr>pl_handles := map (\<lambda>i. i < found \<or> pl_handles p ! i) [0..<6]\<rparr> else p)
      in if a = Modern \<and> found < 6 then (invalidate_interfaces a ok p1, Some Failed)
         else (invalidate_interfaces a ok (p1\<lparr>pl_generation := 0\<rparr>), None))"

definition activate_refused :: "api \<Rightarrow> (nat \<Rightarrow> bool) \<Rightarrow> plugin \<Rightarrow> plugin \<times> callback_return" where
  "activate_refused a ok p = (invalidate_interfaces a ok p, Failed)"

text \<open>
  After \<open>wait_for_first_sample\<close>, which may throw and is in no \<open>try\<close> block: \<open>stopped\<close> is the
  client after \<open>stop\<close>, for the branch that stops it.
\<close>

definition activate_finish ::
  "api \<Rightarrow> bool result \<Rightarrow> client \<Rightarrow> (nat \<Rightarrow> bool) \<Rightarrow> plugin \<Rightarrow> plugin \<times> callback_return" where
  "activate_finish a waited stopped ok p =
     (case waited of
        Inl e \<Rightarrow> (p, Escapes e)
      | Inr first \<Rightarrow>
          if \<not> first \<or> (case pl_client p of Some c \<Rightarrow> faulted c | None \<Rightarrow> False) \<or> pl_generation p = 0
          then (invalidate_interfaces a ok (p\<lparr>pl_client := Some stopped\<rparr>), Failed)
          else (p, Success))"

definition stop_and_invalidate :: "api \<Rightarrow> client \<Rightarrow> (nat \<Rightarrow> bool) \<Rightarrow> plugin \<Rightarrow> plugin" where
  "stop_and_invalidate a stopped ok p =
     invalidate_interfaces a ok
       (p\<lparr>pl_client := map_option (\<lambda>_. stopped) (pl_client p), pl_generation := 0\<rparr>)"

definition on_deactivate :: "api \<Rightarrow> client \<Rightarrow> (nat \<Rightarrow> bool) \<Rightarrow> plugin \<Rightarrow> plugin \<times> callback_return" where
  "on_deactivate a stopped ok p = (stop_and_invalidate a stopped ok p, Success)"

definition on_error :: "api \<Rightarrow> client \<Rightarrow> (nat \<Rightarrow> bool) \<Rightarrow> plugin \<Rightarrow> plugin \<times> callback_return" where
  "on_error a stopped ok p = (stop_and_invalidate a stopped ok p, Success)"

definition on_cleanup :: "api \<Rightarrow> client \<Rightarrow> (nat \<Rightarrow> bool) \<Rightarrow> plugin \<Rightarrow> plugin \<times> callback_return" where
  "on_cleanup a stopped ok p =
     ((stop_auxiliary (stop_and_invalidate a stopped ok p))\<lparr>pl_client := None\<rparr>, Success)"

definition on_shutdown :: "api \<Rightarrow> client \<Rightarrow> (nat \<Rightarrow> bool) \<Rightarrow> plugin \<Rightarrow> plugin \<times> callback_return" where
  "on_shutdown a stopped ok p =
     ((stop_auxiliary (stop_and_invalidate a stopped ok p))\<lparr>pl_client := None\<rparr>, Success)"

text \<open>The legacy build exports one interface for each name, in order; the destructor.\<close>

definition exported_interfaces :: "plugin \<Rightarrow> (string \<times> string \<times> nat) list" where
  "exported_interfaces p =
     map (\<lambda>i. (pc_sensor_name (pl_config p), interface_names ! i, i)) [0..<6]"

definition destroyed :: "plugin \<Rightarrow> plugin" where
  "destroyed p = (stop_auxiliary p)\<lparr>pl_client := None\<rparr>"

section \<open>The contract of read\<close>

definition well_shaped :: "si_sample \<Rightarrow> bool" where
  "well_shaped s \<longleftrightarrow> length (si_force s) = 3 \<and> length (si_torque s) = 3"

lemma write_from_axes:
  "length axes = i + length vs \<Longrightarrow> write_from ok i vs axes = (axes', True) \<Longrightarrow> axes' = take i axes @ vs"
proof (induction ok i vs axes arbitrary: axes' rule: write_from.induct)
  case (2 ok i v vs axes)
  have "axes' = take (Suc i) (axes[i := v]) @ vs"
    using 2 by (simp split: if_splits)
  moreover have "take (Suc i) (axes[i := v]) = take i axes @ [v]"
    using "2.prems"(1) by (simp add: take_Suc_conv_app_nth)
  ultimately show ?case by simp
qed simp

lemma write_axes_all:
  assumes "write_axes a ok s p = (p', True)" and "length (pl_axes p) = 6" and "well_shaped s"
  shows "pl_axes p' = si_force s @ si_torque s \<and> pl_fault p' = pl_fault p \<and> pl_client p' = pl_client p
    \<and> pl_write_fault p' = pl_write_fault p"
proof (cases "a = Legacy")
  case False
  obtain axes w where w: "write_from ok 0 (si_force s @ si_torque s) (pl_axes p) = (axes, w)" by force
  with assms(1) False have [simp]: "w" "p' = p\<lparr>pl_axes := axes\<rparr>" by (auto simp: write_axes_def)
  show ?thesis
    using write_from_axes [of "pl_axes p" 0 "si_force s @ si_torque s" ok axes] w assms(2,3)
    by (simp add: well_shaped_def)
qed (use assms(1) in \<open>auto simp: write_axes_def\<close>)

lemma fault_latched_keeps:
  assumes "fault_latched p = (p1, f)"
  shows "p1 = p\<lparr>pl_fault := pl_fault p1\<rparr>" and "f \<longleftrightarrow> pl_client p = None \<or> pl_fault p1 \<noteq> FC_None"
    and "pl_fault p \<noteq> FC_None \<Longrightarrow> pl_fault p1 = pl_fault p"
  using assms by (auto simp: fault_latched_def latch_fatal_fault_def Let_def split: option.splits if_splits)

definition all_nan :: "api \<Rightarrow> (nat \<Rightarrow> bool) \<Rightarrow> plugin \<Rightarrow> bool" where
  "all_nan a ok p \<longleftrightarrow> (\<forall>i < 6. a = Legacy \<or> pl_handles p ! i \<and> ok i \<longrightarrow> pl_axes p ! i = NaN)"

lemma invalidate_all_nan: "all_nan a ok (invalidate_interfaces a ok p)"
  by (auto simp: all_nan_def invalidate_interfaces_def simp del: upt_Suc replicate_Suc split: if_splits)

lemma invalidate_keeps [simp]:
  "pl_client (invalidate_interfaces a ok p) = pl_client p" "pl_fault (invalidate_interfaces a ok p) = pl_fault p"
  "pl_write_fault (invalidate_interfaces a ok p) = pl_write_fault p"
  "pl_handles (invalidate_interfaces a ok p) = pl_handles p"
  "pl_buffer (invalidate_interfaces a ok p) = pl_buffer p"
  "pl_config (invalidate_interfaces a ok p) = pl_config p"
  "pl_evaluator (invalidate_interfaces a ok p) = pl_evaluator p"
  "pl_generation (invalidate_interfaces a ok p) = pl_generation p"
  "length (pl_axes (invalidate_interfaces a ok p)) = 6"
  by (simp_all add: invalidate_interfaces_def)

lemma latch_fatal_fault_keeps [simp]:
  "pl_client (latch_fatal_fault f p) = pl_client p" "pl_write_fault (latch_fatal_fault f p) = pl_write_fault p"
  "pl_axes (latch_fatal_fault f p) = pl_axes p" "pl_handles (latch_fatal_fault f p) = pl_handles p"
  "pl_buffer (latch_fatal_fault f p) = pl_buffer p" "pl_config (latch_fatal_fault f p) = pl_config p"
  "pl_evaluator (latch_fatal_fault f p) = pl_evaluator p"
  by (simp_all add: latch_fatal_fault_def)

lemma latch_fatal_fault_taken: "f \<noteq> FC_None \<Longrightarrow> pl_fault (latch_fatal_fault f p) \<noteq> FC_None"
  by (simp add: latch_fatal_fault_def)

text \<open>Why a \<open>read\<close> fails, as the state that it leaves shows it.\<close>

definition read_reason :: "si_sample option \<Rightarrow> plugin \<Rightarrow> bool" where
  "read_reason current p \<longleftrightarrow>
     pl_client p = None \<or> pl_fault p \<noteq> FC_None \<or> pl_write_fault p \<or> current = None"

text \<open>The outcome of \<open>read\<close>, branch by branch.\<close>

lemma read_cases:
  assumes "read a now current ok ok' p = (p', good)" and "fault_latched p = (p1, f)"
  obtains (failed) p2 where "p' = invalidate_interfaces a ok' p2" "\<not> good" "read_reason current p2"
    | (fine) s where "current = Some s" "good" "\<not> f" "\<not> pl_write_fault p1" "si_sample_is_finite s"
        "\<not> sample_is_stale now s p1" "write_axes a ok s p1 = (p', True)"
proof (cases current)
  case None
  then show ?thesis using assms failed [of p1] by (simp add: read_def read_reason_def)
next
  case (Some s)
  obtain p2 w where w: "write_axes a ok s p1 = (p2, w)" by force
  note fl = fault_latched_keeps [OF assms(2)]
  have reason: "read_reason current q" if "pl_fault q \<noteq> FC_None \<or> pl_write_fault q" for q
    using that by (auto simp: read_reason_def)
  show ?thesis
  proof (cases "f \<or> pl_write_fault p1")
    case True
    then have "read_reason current p1" using fl(1,2) by (auto simp: read_reason_def)
    then show ?thesis using True assms Some failed [of p1] by (simp add: read_def)
  next
    case F: False
    show ?thesis
    proof (cases "si_sample_is_finite s \<and> \<not> sample_is_stale now s p1 \<and> w")
      case True
      then show ?thesis using F assms Some w fine [of s] by (simp add: read_def)
    next
      case False
      then show ?thesis
        using F assms Some w reason failed [of "latch_fatal_fault FC_SensorConfiguration p1"]
          failed [of "latch_fatal_fault FC_Timeout p1"] failed [of "p2\<lparr>pl_write_fault := True\<rparr>"]
        by (auto simp: read_def latch_fatal_fault_taken split: if_splits)
    qed
  qed
qed

text \<open>What a single \<open>read\<close> gives, for a plugin and a sample of the right shape.\<close>

lemma read_outcome:
  assumes "read a now current ok ok' p = (p', good)" and "length (pl_axes p) = 6"
    and "list_all well_shaped (case current of Some s \<Rightarrow> [s] | None \<Rightarrow> [])"
  shows "if good
    then \<exists>s c. current = Some s \<and> pl_client p = Some c \<and> \<not> (faulted c \<and> latch c \<noteq> FC_None) \<and>
      si_sample_is_finite s \<and> 0 < si_received_at s \<and> now - si_received_at s \<le> timeout_ns p \<and>
      pl_fault p = FC_None \<and> \<not> pl_write_fault p \<and> pl_axes p' = si_force s @ si_torque s
    else all_nan a ok' p' \<and> read_reason current p'"
proof -
  obtain p1 f where fl: "fault_latched p = (p1, f)" by force
  note k = fault_latched_keeps [OF fl]
  from assms(1) fl show ?thesis
  proof (cases rule: read_cases)
    case (failed p2)
    then show ?thesis by (simp add: invalidate_all_nan read_reason_def)
  next
    case (fine s)
    have shape: "well_shaped s" using assms(3) fine(1) by simp
    have p1: "pl_axes p1 = pl_axes p" "pl_client p1 = pl_client p" "pl_config p1 = pl_config p"
      "pl_write_fault p1 = pl_write_fault p" by (subst k(1), simp)+
    from fine(3) k(2) obtain c where c: "pl_client p = Some c" and none: "pl_fault p1 = FC_None" by auto
    have "\<not> (faulted c \<and> latch c \<noteq> FC_None)" "pl_fault p = FC_None"
      using fl c none k(3) by (auto simp: fault_latched_def latch_fatal_fault_def Let_def split: if_splits)
    then show ?thesis
      using fine c p1 write_axes_all [OF fine(7) _ shape] assms(2)
      by (auto simp: sample_is_stale_def timeout_ns_def)
  qed
qed

section \<open>Faults stay latched\<close>

text \<open>What can happen to a plugin between two configurations, with the answers it meets.\<close>

datatype plugin_op =
    Client_Runs client  \<comment> \<open>the client's own threads, which keep it a client\<close>
  | Sample_Arrives sample
  | Read ticks "si_sample option" "nat \<Rightarrow> bool" "nat \<Rightarrow> bool"
  | Bias_Called "int \<Rightarrow> string" os_count os_count
  | Diagnostics_Due ticks
  | Executor_Failed
  | Activation nat "nat \<Rightarrow> bool"
  | Activation_Refused "nat \<Rightarrow> bool"
  | Activation_Ends "bool result" client "nat \<Rightarrow> bool"
  | Deactivation client "nat \<Rightarrow> bool"
  | Error_Handling client "nat \<Rightarrow> bool"
  | Cleanup client "nat \<Rightarrow> bool"
  | Shutdown client "nat \<Rightarrow> bool"

fun apply_op :: "api \<Rightarrow> plugin_op \<Rightarrow> plugin \<Rightarrow> plugin" where
  "apply_op a (Client_Runs c) p = p\<lparr>pl_client := map_option (\<lambda>_. c) (pl_client p)\<rparr>"
| "apply_op a (Sample_Arrives s) p = fst (store_sample s p)"
| "apply_op a (Read now current ok ok') p = fst (read a now current ok ok' p)"
| "apply_op a (Bias_Called strerror a1 a2) p = fst (handle_bias strerror a1 a2 p)"
| "apply_op a (Diagnostics_Due now) p = fst (publish_diagnostics now p)"
| "apply_op a Executor_Failed p = auxiliary_failed p"
| "apply_op a (Activation found ok) p = fst (activate_prepare a found ok p)"
| "apply_op a (Activation_Refused ok) p = fst (activate_refused a ok p)"
| "apply_op a (Activation_Ends waited c ok) p = fst (activate_finish a waited c ok p)"
| "apply_op a (Deactivation c ok) p = fst (on_deactivate a c ok p)"
| "apply_op a (Error_Handling c ok) p = fst (on_error a c ok p)"
| "apply_op a (Cleanup c ok) p = fst (on_cleanup a c ok p)"
| "apply_op a (Shutdown c ok) p = fst (on_shutdown a c ok p)"

interpretation plugin_latch: first_fault latch_fatal_fault pl_fault "\<lambda>code. code"
  by unfold_locales (simp_all add: latch_fatal_fault_def)

text \<open>A failure is latched when the plugin has taken a fault or could not write a value.\<close>

definition failure_latched :: "plugin \<Rightarrow> bool" where
  "failure_latched p \<longleftrightarrow> pl_fault p \<noteq> FC_None \<or> pl_write_fault p"

text \<open>The operations as they act on the two latches.\<close>

lemma store_sample_latches:
  "pl_fault (fst (store_sample s p)) =
     (case to_si_sample s of Inl (InvalidArgument m) \<Rightarrow> pl_fault (latch_fatal_fault FC_SensorConfiguration p)
      | _ \<Rightarrow> pl_fault p)"
  "pl_write_fault (fst (store_sample s p)) = pl_write_fault p"
  by (simp_all add: store_sample_def split: sum.splits exn.splits)

lemma write_axes_keeps:
  "pl_fault (fst (write_axes a ok s p)) = pl_fault p" "pl_write_fault (fst (write_axes a ok s p)) = pl_write_fault p"
  "pl_handles (fst (write_axes a ok s p)) = pl_handles p" "pl_buffer (fst (write_axes a ok s p)) = pl_buffer p"
  by (simp_all add: write_axes_def Let_def split: prod.splits)

lemma read_latched:
  assumes "pl_fault p \<noteq> FC_None"
  shows "read a now current ok ok' p = (invalidate_interfaces a ok' p, False)"
proof -
  have "fault_latched p = (p, True)"
    using assms by (simp add: fault_latched_def latch_fatal_fault_def split: option.splits)
  then show ?thesis by (simp add: read_def split: option.splits)
qed

lemma read_write_failed:
  assumes "pl_write_fault p"
  shows "read a now current ok ok' p = (invalidate_interfaces a ok' (fst (fault_latched p)), False)"
proof -
  obtain p1 f where fl: "fault_latched p = (p1, f)" by force
  have "pl_write_fault p1" using assms by (subst fault_latched_keeps(1) [OF fl]) simp
  then show ?thesis by (simp add: read_def fl split: option.splits)
qed

lemma other_ops_keep_latches:
  "pl_fault (fst (handle_bias strerror a1 a2 p)) = pl_fault p"
  "pl_write_fault (fst (handle_bias strerror a1 a2 p)) = pl_write_fault p"
  "pl_fault (fst (publish_diagnostics now p)) = pl_fault p"
  "pl_write_fault (fst (publish_diagnostics now p)) = pl_write_fault p"
  "pl_fault (fst (activate_prepare a found ok p)) = pl_fault p"
  "pl_write_fault (fst (activate_prepare a found ok p)) = pl_write_fault p"
  "pl_fault (fst (activate_finish a waited c ok p)) = pl_fault p"
  "pl_write_fault (fst (activate_finish a waited c ok p)) = pl_write_fault p"
  "pl_fault (stop_and_invalidate a c ok p) = pl_fault p"
  "pl_write_fault (stop_and_invalidate a c ok p) = pl_write_fault p"
  "pl_fault (stop_auxiliary p) = pl_fault p" "pl_write_fault (stop_auxiliary p) = pl_write_fault p"
  "pl_write_fault (auxiliary_failed p) = pl_write_fault p"
  by (simp_all add: handle_bias_def publish_diagnostics_def activate_prepare_def activate_finish_def
      stop_and_invalidate_def stop_auxiliary_def auxiliary_failed_def Let_def
      split: option.splits prod.splits sum.splits)

lemma op_keeps_fault:
  assumes "pl_fault p \<noteq> FC_None"
  shows "pl_fault (apply_op a x p) = pl_fault p"
  using assms
  by (cases x)
    (auto simp: store_sample_latches plugin_latch.keeps read_latched other_ops_keep_latches auxiliary_failed_def
      activate_refused_def on_deactivate_def on_error_def on_cleanup_def on_shutdown_def split: sum.splits exn.splits)

lemma op_keeps_write_fault:
  assumes "pl_write_fault p"
  shows "pl_write_fault (apply_op a x p)"
proof -
  obtain p1 f where fl: "fault_latched p = (p1, f)" by force
  have "pl_write_fault p1" using assms by (subst fault_latched_keeps(1) [OF fl]) simp
  then show ?thesis using assms fl
    by (cases x)
      (auto simp: store_sample_latches read_write_failed other_ops_keep_latches auxiliary_failed_def
        activate_refused_def on_deactivate_def on_error_def on_cleanup_def on_shutdown_def)
qed

lemma ops_keep_latches:
  "pl_fault p \<noteq> FC_None \<Longrightarrow> pl_fault (fold (apply_op a) xs p) = pl_fault p"
  "pl_write_fault p \<Longrightarrow> pl_write_fault (fold (apply_op a) xs p)"
  by (induction xs arbitrary: p) (simp_all add: op_keeps_fault op_keeps_write_fault)

lemma latched_read_fails:
  assumes "failure_latched p"
  shows "\<not> snd (read a now current ok ok' p) \<and> all_nan a ok' (fst (read a now current ok ok' p))"
  using assms
  by (auto simp: failure_latched_def read_latched read_write_failed invalidate_all_nan)

text \<open>
  C29: a failure is final until the next configuration: whatever the client, the executor, the
  service, the controllers and every other lifecycle callback then do, in any order, the
  first fault stays the latched one and each \<open>read\<close> is an \<open>ERROR\<close> that writes NaN.
\<close>

theorem failure_stays_until_configured:
  assumes "failure_latched p"
  shows "failure_latched (fold (apply_op a) xs p)
    \<and> (pl_fault p \<noteq> FC_None \<longrightarrow> pl_fault (fold (apply_op a) xs p) = pl_fault p)
    \<and> \<not> snd (read a now current ok ok' (fold (apply_op a) xs p))
    \<and> all_nan a ok' (fst (read a now current ok ok' (fold (apply_op a) xs p)))"
proof -
  have "failure_latched (fold (apply_op a) xs p)"
    using assms by (auto simp: failure_latched_def ops_keep_latches)
  then show ?thesis by (simp add: ops_keep_latches latched_read_fails)
qed

section \<open>Reachable plugins\<close>

definition three_axes :: "sample \<Rightarrow> bool" where
  "three_axes s \<longleftrightarrow> length (smp_force s) = 3 \<and> length (smp_torque s) = 3"

text \<open>
  The plugins that the lifecycle can bring about, with a flag that is raised once the client
  has been started with the sample callback: only then does a sample arrive. A configuration
  makes a new client, without a callback.
\<close>

text \<open>The real-time buffer hands out one of the samples written to it, or nothing.\<close>

definition admissible :: "plugin \<Rightarrow> plugin_op \<Rightarrow> bool" where
  "admissible p x \<longleftrightarrow>
     (case x of Sample_Arrives s \<Rightarrow> False | Activation n ok \<Rightarrow> False
      | Read now current ok ok' \<Rightarrow> (case current of Some s \<Rightarrow> s \<in> set (pl_buffer p) | None \<Rightarrow> True)
      | _ \<Rightarrow> True)"

inductive plugin_reachable :: "api \<Rightarrow> plugin \<Rightarrow> bool \<Rightarrow> bool" for a where
  reach_init: "on_init a True expand now values info = Some p \<Longrightarrow> length values = 6 \<Longrightarrow> plugin_reachable a p False"
| reach_configure: "plugin_reachable a p cb \<Longrightarrow> on_configure a now created ok p = (p', r) \<Longrightarrow> plugin_reachable a p' False"
| reach_activate: "plugin_reachable a p cb \<Longrightarrow> activate_prepare a found ok p = (p', r) \<Longrightarrow>
     plugin_reachable a p' (cb \<or> r = None)"
| reach_sample: "plugin_reachable a p True \<Longrightarrow> three_axes s \<Longrightarrow> plugin_reachable a (fst (store_sample s p)) True"
| reach_op: "plugin_reachable a p cb \<Longrightarrow> admissible p x \<Longrightarrow> plugin_reachable a (apply_op a x p) cb"

definition plugin_inv :: "api \<Rightarrow> plugin \<Rightarrow> bool \<Rightarrow> bool" where
  "plugin_inv a p cb \<longleftrightarrow>
     length (pl_axes p) = 6 \<and> length (pl_handles p) = 6 \<and> list_all well_shaped (pl_buffer p) \<and>
     (cb \<and> a = Modern \<longrightarrow> list_all id (pl_handles p)) \<and>
     (\<not> cb \<longrightarrow> pl_buffer p = [empty_si_sample])"

lemma to_si_sample_shaped: "to_si_sample s = Inr si \<Longrightarrow> three_axes s \<Longrightarrow> well_shaped si"
  by (simp add: well_shaped_def three_axes_def to_si_sample_lengths)

lemma write_from_length [simp]: "length (fst (write_from ok i vs axes)) = length axes"
  by (induction ok i vs axes rule: write_from.induct) simp_all

lemma read_frame:
  assumes "list_all well_shaped (case current of Some s \<Rightarrow> [s] | None \<Rightarrow> [])" and "length (pl_axes p) = 6"
  shows "pl_handles (fst (read a now current ok ok' p)) = pl_handles p"
    and "pl_buffer (fst (read a now current ok ok' p)) = pl_buffer p"
    and "length (pl_axes (fst (read a now current ok ok' p))) = 6"
proof -
  obtain p1 f where fl: "fault_latched p = (p1, f)" by force
  have p1: "pl_handles p1 = pl_handles p" "pl_buffer p1 = pl_buffer p" "pl_axes p1 = pl_axes p"
    by (subst fault_latched_keeps(1) [OF fl], simp)+
  show "pl_handles (fst (read a now current ok ok' p)) = pl_handles p"
    and "pl_buffer (fst (read a now current ok ok' p)) = pl_buffer p"
    using write_axes_keeps(3,4) [of a ok _ p1]
    by (auto simp: read_def fl p1 Let_def split: option.splits prod.splits bool.splits) (metis fst_conv p1)+
  have "length (pl_axes (fst (write_axes a ok s p1))) = 6" if "current = Some s" for s
    using assms p1(3) that by (auto simp: write_axes_def well_shaped_def Let_def split: prod.splits)
      (metis fst_conv write_from_length)
  then show "length (pl_axes (fst (read a now current ok ok' p))) = 6"
    by (auto simp: read_def fl Let_def split: option.splits prod.splits bool.splits)
qed

lemma inv_frame:
  assumes "plugin_inv a p cb" "pl_handles p' = pl_handles p" "pl_buffer p' = pl_buffer p" "length (pl_axes p') = 6"
  shows "plugin_inv a p' cb"
  using assms by (simp add: plugin_inv_def)

lemma empty_shaped: "well_shaped empty_si_sample"
  by (simp add: well_shaped_def empty_si_sample_def)

lemma inv_op:
  assumes "plugin_inv a p cb" and "admissible p x"
  shows "plugin_inv a (apply_op a x p) cb"
proof -
  have ax: "length (pl_axes p) = 6" using assms(1) by (simp add: plugin_inv_def)
  show ?thesis
  proof (cases x)
    case (Read now current ok ok')
    have "list_all well_shaped (case current of Some s \<Rightarrow> [s] | None \<Rightarrow> [])"
      using assms by (auto simp: Read admissible_def plugin_inv_def list_all_iff split: option.splits)
    then show ?thesis unfolding Read apply_op.simps
      by (intro inv_frame [OF assms(1)] read_frame ax)
  qed (use assms(2) ax in \<open>auto simp: admissible_def handle_bias_def publish_diagnostics_def auxiliary_failed_def
      activate_refused_def activate_finish_def on_deactivate_def on_error_def on_cleanup_def on_shutdown_def
      stop_and_invalidate_def stop_auxiliary_def Let_def intro!: inv_frame [OF assms(1)]
      split: option.splits prod.splits sum.splits\<close>)
qed

lemma inv_sample:
  assumes "plugin_inv a p True" and "three_axes s"
  shows "plugin_inv a (fst (store_sample s p)) True"
  using assms to_si_sample_shaped [of s]
  by (auto simp: plugin_inv_def store_sample_def split: sum.splits exn.splits)

lemma inv_activate:
  assumes "plugin_inv a p cb" and "activate_prepare a found ok p = (p', r)"
  shows "plugin_inv a p' (cb \<or> r = None)"
proof -
  have "list_all id (map (\<lambda>i. i < found \<or> pl_handles p ! i) [0..<6])" if "list_all id (pl_handles p)"
    using that assms(1) by (simp add: list_all_length plugin_inv_def del: upt_Suc)
  moreover have "list_all id (map (\<lambda>i. i < found \<or> pl_handles p ! i) [0..<6])" if "\<not> found < 6"
    using that by (simp add: list_all_length del: upt_Suc)
  ultimately show ?thesis
    using assms by (auto simp: activate_prepare_def plugin_inv_def Let_def simp del: upt_Suc split: if_splits)
qed

lemma inv_configure:
  assumes "plugin_inv a p cb" and "on_configure a now created ok p = (p', r)"
  shows "plugin_inv a p' False"
proof -
  have "plugin_inv a (configure_reset a ok p) False"
    using assms(1) by (simp add: plugin_inv_def configure_reset_def stop_auxiliary_def empty_shaped)
  then show ?thesis
    using assms(2)
    by (auto simp: on_configure_def start_auxiliary_def plugin_inv_def stop_auxiliary_def Let_def split: sum.splits)
qed

lemma plugin_reachable_inv: "plugin_reachable a p cb \<Longrightarrow> plugin_inv a p cb"
proof (induction rule: plugin_reachable.induct)
  case (reach_init expand now vals info p)
  then show ?case
    by (auto simp: on_init_def plugin_inv_def empty_shaped eval_nat_numeral split: if_splits sum.splits)
qed (auto intro: inv_op inv_sample inv_activate inv_configure)

lemma read_contract:
  assumes "plugin_reachable a p cb" and "s \<in> set (pl_buffer p)"
    and "read a now (Some s) ok ok' p = (p', good)"
  shows "if good
    then (\<exists>c. pl_client p = Some c \<and> \<not> (faulted c \<and> latch c \<noteq> FC_None)) \<and>
      si_sample_is_finite s \<and> 0 < si_received_at s \<and> now - si_received_at s \<le> timeout_ns p \<and>
      \<not> failure_latched p \<and> (a = Modern \<longrightarrow> list_all id (pl_handles p)) \<and>
      pl_axes p' = si_force s @ si_torque s \<and> length (pl_axes p') = 6
    else all_nan a ok' p' \<and> (pl_client p' = None \<or> failure_latched p')"
proof -
  have inv: "plugin_inv a p cb" by (rule plugin_reachable_inv [OF assms(1)])
  then have shape: "well_shaped s" and ax: "length (pl_axes p) = 6"
    using assms(2) by (auto simp: plugin_inv_def list_all_iff)
  have out: "if good
    then \<exists>s' c. Some s = Some s' \<and> pl_client p = Some c \<and> \<not> (faulted c \<and> latch c \<noteq> FC_None) \<and>
      si_sample_is_finite s' \<and> 0 < si_received_at s' \<and> now - si_received_at s' \<le> timeout_ns p \<and>
      pl_fault p = FC_None \<and> \<not> pl_write_fault p \<and> pl_axes p' = si_force s' @ si_torque s'
    else all_nan a ok' p' \<and> read_reason (Some s) p'"
    using shape by (intro read_outcome [OF assms(3) ax]) simp
  have bound: "a = Modern \<longrightarrow> list_all id (pl_handles p)" if "0 < si_received_at s"
  proof -
    have "s \<noteq> empty_si_sample" using that by (auto simp: empty_si_sample_def)
    then have cb using inv assms(2) by (auto simp: plugin_inv_def)
    then show ?thesis using inv by (simp add: plugin_inv_def)
  qed
  show ?thesis using out bound shape
    by (auto simp: failure_latched_def read_reason_def well_shaped_def split: if_splits)
qed

text \<open>
  C28: what the controllers read, in every plugin the lifecycle can bring about and whichever
  of the written samples the buffer hands out. \<open>OK\<close> means that the six interfaces, all of them
  bound, hold one complete sample, finite, received within the timeout, with no fault of
  client or plugin latched; otherwise every interface that the framework let the plugin
  write holds NaN, and the state shows the reason: a fault, a failed write, or no client.
\<close>

theorem reachable_read_contract:
  assumes "plugin_reachable a p cb" and "s \<in> set (pl_buffer p)"
    and "read a now (Some s) ok ok' p = (p', good)"
  shows "if good
    then (\<exists>c. pl_client p = Some c \<and> \<not> (faulted c \<and> latch c \<noteq> FC_None)) \<and>
      si_sample_is_finite s \<and> 0 < si_received_at s \<and> now - si_received_at s \<le> timeout_ns p \<and>
      \<not> failure_latched p \<and> (a = Modern \<longrightarrow> list_all id (pl_handles p)) \<and>
      pl_axes p' = si_force s @ si_torque s \<and> length (pl_axes p') = 6
    else all_nan a ok' p' \<and> (pl_client p' = None \<or> failure_latched p')"
  using assms by (rule read_contract)

section \<open>Configuration\<close>

text \<open>
  \<open>on_configure\<close> starts from a clean slate. With a configuration that \<open>on_init\<close> accepted
  it fails only when the ROS resources cannot be created, and then leaves no client and no
  auxiliary resources; either way no failure is latched, the buffer is empty and the
  interfaces hold NaN.
\<close>

theorem configure_contract:
  assumes "plugin_config_ok now (pl_config p)"
  shows "(snd (on_configure a now created ok p) = Success) = succeeds created
    \<and> (let p' = fst (on_configure a now created ok p) in
        \<not> failure_latched p' \<and> pl_buffer p' = [empty_si_sample] \<and> pl_generation p' = 0 \<and> all_nan a ok p' \<and>
        (if succeeds created
         then succeeds (client_init now (pc_client (pl_config p))) \<and> pl_evaluator p' \<noteq> None \<and>
           pl_client p' = Some (sum.projr (client_init now (pc_client (pl_config p))))
         else pl_client p' = None \<and> pl_evaluator p' = None))"
proof -
  define p1 where "p1 = configure_reset a ok p"
  have cfg: "pl_config p1 = pl_config p" by (simp add: p1_def configure_reset_def stop_auxiliary_def)
  have clean: "\<not> failure_latched p1" "pl_buffer p1 = [empty_si_sample]" "pl_generation p1 = 0" "all_nan a ok p1"
    by (simp_all add: p1_def configure_reset_def failure_latched_def invalidate_all_nan)
  have frame: "all_nan a ok (p1\<lparr>pl_client := c, pl_evaluator := e, pl_bias_service := b, pl_stopping := q\<rparr>)" for c e b q
    using clean(4) by (simp add: all_nan_def)
  from assms obtain ev where ev: "evaluator_init (pc_expected_rdt_rate (pl_config p)) (pc_rate_tolerance (pl_config p)) = Inr ev"
    by (auto simp: plugin_config_ok_def)
  have "validate_config now (pc_client (pl_config p)) = Inr ()"
    using assms by (simp add: validate_config_iff plugin_config_ok_def)
  then obtain c where c: "client_init now (pc_client (pl_config p)) = Inr c" by (simp add: client_init_def)
  show ?thesis
  proof (cases created)
    case (Inl e)
    then show ?thesis
      using clean frame [where c = None and e = None and b = False and q = True]
      by (simp add: on_configure_def p1_def [symmetric] cfg c ev start_auxiliary_def stop_auxiliary_def Let_def
          failure_latched_def all_nan_def)
  next
    case (Inr u)
    then show ?thesis
      using clean frame [where c = "Some c" and e = "Some ev" and b = "pc_allow_bias (pl_config p)" and q = False]
      by (simp add: on_configure_def p1_def [symmetric] cfg c ev start_auxiliary_def Let_def
          failure_latched_def all_nan_def)
  qed
qed

section \<open>Diagnostics of a fault\<close>

lemma faulted_report:
  assumes "is_faulted h" and "evaluate h ev = (ev', r)"
  shows "level r = 2" and "log_key r = ''faulted''"
    and "message r = ''faulted: '' @ (if last_error h = [] then fault_code_to_string (h_fault_code h) else last_error h)"
  using assms by (auto simp: evaluate_def verdict_def Let_def)

text \<open>
  A fault of the plugin stays visible: as long as it is latched each diagnostic message
  is an error that names a fault, the client's own if it has one, else the last error text or
  the plugin's fault code.
\<close>

theorem plugin_fault_published:
  assumes "pl_fault p = f" and "f \<noteq> FC_None" and "pl_client p = Some c" and "pl_evaluator p = Some ev"
  shows "case snd (publish_diagnostics now p) of
      None \<Rightarrow> False
    | Some d \<Rightarrow> ds_level d = 2 \<and> ds_name d = ''netft_driver: '' @ pc_sensor_name (pl_config p) \<and>
        ds_message d = ''faulted: '' @
          (if last_error (health c) \<noteq> [] then last_error (health c)
           else if latch c \<noteq> FC_None then fault_code_to_string (latch c)
           else if f = FC_Timeout then ''no valid RDT record before timeout''
           else fault_code_to_string f)"
proof -
  obtain c' h where th: "take_health now c = (c', h)" by force
  have h: "h_fault_code h = latch c" "last_error h = last_error (health c)"
    using th by (auto simp: take_health_def Let_def)
  let ?s = "overlay_fault f h"
  obtain ev' r where r: "evaluate ?s ev = (ev', r)" by force
  have "is_faulted ?s" using assms(2) by (simp add: is_faulted_def overlay_fault_def Let_def)
  note rep = faulted_report [OF this r]
  have "(if last_error ?s = [] then fault_code_to_string (h_fault_code ?s) else last_error ?s) =
      (if last_error (health c) \<noteq> [] then last_error (health c)
       else if latch c \<noteq> FC_None then fault_code_to_string (latch c)
       else if f = FC_Timeout then ''no valid RDT record before timeout'' else fault_code_to_string f)"
    using assms(2) by (simp add: overlay_fault_def h Let_def)
  with rep(3) have m: "message r = ''faulted: '' @
      (if last_error (health c) \<noteq> [] then last_error (health c)
       else if latch c \<noteq> FC_None then fault_code_to_string (latch c)
       else if f = FC_Timeout then ''no valid RDT record before timeout'' else fault_code_to_string f)"
    by (simp only:)
  have "snd (publish_diagnostics now p) =
      Some \<lparr>ds_level = level r, ds_name = ''netft_driver: '' @ pc_sensor_name (pl_config p),
        ds_message = message r, ds_hardware_id = h_sensor_host ?s @ '':'' @ dec_of_int (h_rdt_port ?s),
        ds_values = report_values r\<rparr>"
    using assms(1,3,4) th r by (simp add: publish_diagnostics_def Let_def)
  then show ?thesis
    by (simp only: option.case diagnostic_status.select_convs m rep(1) simp_thms)
qed

section \<open>An activation timeout that escapes\<close>

text \<open>
  The check of \<open>activation_timeout\<close> bounds the duration, not the deadline: from a second
  after the clock's origin on, the wait for the first sample throws for a timeout that was
  accepted, and \<open>on_activate\<close> lets the exception through with the client running.
\<close>

lemma accepted_timeout_escapes:
  "\<not> bad_activation_timeout (Fin False 9223372036)"
  "wait_begin 1000000000 (Fin False 9223372036) c =
     Inl (InvalidArgument ''deadline is outside the supported steady-clock range'')"
  "activate_finish a (Inl e) stopped ok p = (p, Escapes e)"
proof -
  have m: "fround extended80 False 9223372036000000000 = Fin False 9223372036000000000"
    using fround_x87_int [of 9223372036000000000 False] by simp
  show "\<not> bad_activation_timeout (Fin False 9223372036)"
    by (simp add: bad_activation_timeout_def m fzero_def ticks_max_def)
  have "checked_duration (Fin False 9223372036) = Inr 9223372036000000000"
    by (simp add: checked_duration_def m fone_def fzero_def ticks_max_def Let_def)
  then show "wait_begin 1000000000 (Fin False 9223372036) c =
     Inl (InvalidArgument ''deadline is outside the supported steady-clock range'')"
    by (simp add: wait_begin_def checked_deadline_def ticks_max_def)
qed (simp add: activate_finish_def)

section \<open>A concrete run\<close>

text \<open>A plugin through initialisation, configuration and activation to its first sample.\<close>

definition example_interface :: "string \<Rightarrow> interface_info" where
  "example_interface n = \<lparr>if_name = n, if_data_type = ''double'', if_size = 1, if_initial_value = []\<rparr>"

definition example_info :: hardware_info where
  "example_info = \<lparr>hi_joints = 0, hi_gpios = 0, hi_transmissions = 0,
     hi_sensors = [\<lparr>si_name = ''wrist'', si_state_interfaces = map example_interface interface_names\<rparr>],
     hi_parameters = example_parameters\<rparr>"

definition example_initialised :: plugin where
  "example_initialised =
     the (on_init Modern True (\<lambda>s n. Inr ()) (\<lambda>k. 1000) (replicate 6 fzero) example_info)"

definition example_configured :: plugin where
  "example_configured = fst (on_configure Modern (\<lambda>k. 1000) (Inr ()) (\<lambda>i. True) example_initialised)"

definition example_active :: plugin where
  "example_active = fst (activate_prepare Modern 6 (\<lambda>i. True) example_configured)"

definition example_measurement :: sample where
  "example_measurement = \<lparr>smp_rdt_sequence = 1, smp_ft_sequence = 1, smp_status = 0, raw_wrench = [0, 0, 0, 0, 0, 0],
     smp_force = [fzero, fzero, fzero], smp_torque = [fzero, fzero, fzero], smp_force_unit = Newton,
     smp_torque_unit = NewtonMeter, configuration_revision = 1, smp_received_at = 2000\<rparr>"

definition example_si :: si_sample where
  "example_si = empty_si_sample\<lparr>si_rdt_sequence := 1, si_ft_sequence := 1,
     si_configuration_revision := 1, si_received_at := 2000\<rparr>"

definition example_running :: plugin where
  "example_running = fst (store_sample example_measurement example_active)"

lemma example_initialises:
  "on_init Modern True (\<lambda>s n. Inr ()) (\<lambda>k. 1000) (replicate 6 fzero) example_info = Some example_initialised"
  "pl_config example_initialised = example_plugin"
proof -
  have "validate_hardware_info Modern example_info = Inr ''wrist''"
    by (simp add: validate_hardware_info_iff example_info_def example_interface_def interface_ok_def list_all_iff)
      (simp add: interface_names_def example_interface_def)
  moreover have "hi_parameters example_info = example_parameters" by (simp add: example_info_def)
  ultimately show "on_init Modern True (\<lambda>s n. Inr ()) (\<lambda>k. 1000) (replicate 6 fzero) example_info = Some example_initialised"
    and "pl_config example_initialised = example_plugin"
    by (simp_all add: example_initialised_def on_init_def example_plugin_parses)
qed

lemma example_configures:
  "on_configure Modern (\<lambda>k. 1000) (Inr ()) (\<lambda>i. True) example_initialised = (example_configured, Success)"
  "pl_config example_configured = example_plugin" "pl_fault example_configured = FC_None"
  "\<not> pl_write_fault example_configured" "pl_buffer example_configured = [empty_si_sample]"
  "\<exists>c. pl_client example_configured = Some c \<and> latch c = FC_None"
proof -
  obtain ev where ev: "evaluator_init (pc_expected_rdt_rate example_plugin) (pc_rate_tolerance example_plugin) = Inr ev"
    using example_plugin_ok by (auto simp: plugin_config_ok_def)
  obtain c where c: "client_init (\<lambda>k. 1000) example_plugin_client = Inr c" "latch c = FC_None"
    by (simp add: client_init_def example_plugin_client_valid)
  have cfg: "pl_config (configure_reset Modern (\<lambda>i. True) example_initialised) = example_plugin"
    by (simp add: configure_reset_def stop_auxiliary_def example_initialises)
  have "on_configure Modern (\<lambda>k. 1000) (Inr ()) (\<lambda>i. True) example_initialised =
      ((configure_reset Modern (\<lambda>i. True) example_initialised)\<lparr>pl_client := Some c, pl_evaluator := Some ev,
         pl_bias_service := pc_allow_bias example_plugin, pl_stopping := False\<rparr>, Success)"
    by (simp add: on_configure_def cfg c example_plugin_fields start_auxiliary_def ev Let_def)
  then show "on_configure Modern (\<lambda>k. 1000) (Inr ()) (\<lambda>i. True) example_initialised = (example_configured, Success)"
    "pl_config example_configured = example_plugin" "pl_fault example_configured = FC_None"
    "\<not> pl_write_fault example_configured" "pl_buffer example_configured = [empty_si_sample]"
    "\<exists>c. pl_client example_configured = Some c \<and> latch c = FC_None"
    by (simp_all add: example_configured_def cfg c(2)) (simp_all add: configure_reset_def)
qed

lemma example_si: "to_si_sample example_measurement = Inr example_si"
proof -
  have z: "fmul binary64 fzero fone = fzero" by (simp add: fzero_def fone_def fround_eval)
  then show ?thesis
    by (simp add: to_si_sample_def example_measurement_def checked_scale_def z)
      (simp add: fzero_def fone_def example_si_def empty_si_sample_def)
qed

lemma example_runs:
  "plugin_reachable Modern example_running True" "pl_config example_running = example_plugin"
  "pl_fault example_running = FC_None" "\<not> pl_write_fault example_running"
  "pl_buffer example_running = [example_si, empty_si_sample]"
  "\<exists>c. pl_client example_running = Some c \<and> latch c = FC_None"
proof -
  note cf = example_configures
  have act: "activate_prepare Modern 6 (\<lambda>i. True) example_configured = (example_active, None)"
    using cf(6) by (auto simp: example_active_def activate_prepare_def Let_def)
  have st: "fst (store_sample example_measurement example_active) = example_running"
    by (simp add: example_running_def)
  have "plugin_reachable Modern example_configured False"
    by (rule reach_configure [OF reach_init [OF example_initialises(1)] cf(1)]) simp
  from reach_activate [OF this act] have "plugin_reachable Modern example_active True" by simp
  moreover have "three_axes example_measurement" by (simp add: three_axes_def example_measurement_def)
  ultimately show "plugin_reachable Modern example_running True" unfolding st [symmetric] by (rule reach_sample)
  show "pl_config example_running = example_plugin"
    "pl_fault example_running = FC_None" "\<not> pl_write_fault example_running"
    "pl_buffer example_running = [example_si, empty_si_sample]"
    "\<exists>c. pl_client example_running = Some c \<and> latch c = FC_None"
    using cf(2-6) by (auto simp: example_running_def store_sample_def example_si example_active_def
        activate_prepare_def Let_def)
qed

lemma example_timeout: "timeout_ns example_running = 1000000000"
proof -
  have "fround binary64 False 1000000000 = Fin False 1000000000"
    using fof_int_exact [of 1000000000] by (simp add: fof_int_def)
  then show ?thesis
    by (simp add: timeout_ns_def example_runs example_plugin_fields example_plugin_client_def fone_def)
qed

lemma example_read: "snd (read Modern 5000 (Some example_si) (\<lambda>i. True) (\<lambda>i. True) example_running)"
proof -
  obtain c where c: "pl_client example_running = Some c" "latch c = FC_None" using example_runs(6) by blast
  have "fault_latched example_running = (example_running, False)"
    by (simp add: fault_latched_def c example_runs)
  moreover have "si_sample_is_finite example_si" "\<not> sample_is_stale 5000 example_si example_running"
    by (simp_all add: si_sample_is_finite_def sample_is_stale_def example_timeout example_si_def
        empty_si_sample_def fzero_def)
  ultimately show ?thesis
    by (simp add: read_def example_runs write_axes_def Let_def example_si_def empty_si_sample_def)
qed

theorem reachable_read_contract_witness:
  "pl_axes (fst (read Modern 5000 (Some example_si) (\<lambda>i. True) (\<lambda>i. True) example_running)) = replicate 6 fzero
   \<and> \<not> failure_latched example_running \<and> list_all id (pl_handles example_running)"
proof -
  obtain p' good where r: "read Modern 5000 (Some example_si) (\<lambda>i. True) (\<lambda>i. True) example_running = (p', good)"
    by force
  have good using example_read r by simp
  then show ?thesis
    using reachable_read_contract [OF example_runs(1) _ r] example_runs(5) r
    by (simp add: example_si_def empty_si_sample_def eval_nat_numeral)
qed

theorem failure_stays_until_configured_witness:
  "let p = latch_fatal_fault FC_Timeout example_running;
       p' = fold (apply_op Modern) [Sample_Arrives example_measurement, Executor_Failed,
         Deactivation (the (pl_client example_running)) (\<lambda>i. True), Activation 6 (\<lambda>i. True)] p
   in pl_fault p' = FC_Timeout \<and> \<not> snd (read Modern 5000 (Some example_si) (\<lambda>i. True) (\<lambda>i. True) p')"
proof -
  let ?p = "latch_fatal_fault FC_Timeout example_running"
  have f: "pl_fault ?p = FC_Timeout" by (simp add: latch_fatal_fault_def example_runs)
  then have "failure_latched ?p" and nf: "pl_fault ?p \<noteq> FC_None" by (simp_all add: failure_latched_def)
  note stays = failure_stays_until_configured [OF this(1), where a = Modern and now = 5000 and
    current = "Some example_si" and ok = "\<lambda>i. True" and ok' = "\<lambda>i. True"]
  show ?thesis unfolding Let_def
    using stays [THEN conjunct2, THEN conjunct1, THEN mp, OF nf] stays [THEN conjunct2, THEN conjunct2, THEN conjunct1] f
    by (simp only: not_False_eq_True simp_thms)
qed

theorem configure_contract_witness:
  "snd (on_configure Modern (\<lambda>k. 1000) (Inr ()) (\<lambda>i. True) example_initialised) = Success"
  using configure_contract [of "\<lambda>k. 1000" example_initialised Modern "Inr ()" "\<lambda>i. True"] example_plugin_ok
  by (simp add: example_initialises)

theorem plugin_fault_published_witness:
  "let p = latch_fatal_fault FC_Callback example_running;
       p' = p\<lparr>pl_client := Some (sum.projr (client_init (\<lambda>k. 1000) example_plugin_client)), pl_evaluator := Some example_evaluator\<rparr>
   in map_option ds_message (snd (publish_diagnostics 5000 p')) = Some (''faulted: '' @ fault_code_to_string FC_Callback)"
proof -
  define c where "c = sum.projr (client_init (\<lambda>k. 1000) example_plugin_client)"
  define p where "p = (latch_fatal_fault FC_Callback example_running)\<lparr>pl_client := Some c, pl_evaluator := Some example_evaluator\<rparr>"
  have c: "latch c = FC_None" "last_error (health c) = []"
    by (simp_all add: c_def client_init_def example_plugin_client_valid default_health_def)
  have "pl_fault p = FC_Callback" by (simp add: p_def latch_fatal_fault_def example_runs)
  from plugin_fault_published [OF this, of c example_evaluator 5000]
  have "map_option ds_message (snd (publish_diagnostics 5000 p)) = Some (''faulted: '' @ fault_code_to_string FC_Callback)"
    by (auto simp: p_def c split: option.splits)
  then show ?thesis by (simp add: p_def c_def Let_def)
qed

end
