(* ===== verification/Plugin_System.thy ===== *)
theory Plugin_System
  imports Acquisition_Trace Hardware_Interface
begin

text \<open>
  The ros2\_control plugin with the client inside: the worker thread of the client, whose
  callback is the plugin's, the threads that call the client's operations, the controller
  loop, the auxiliary thread and the lifecycle callbacks, interleaved. It composes
  \<open>Hardware_Interface\<close>, \<open>Client_Lifecycle\<close>, \<open>Discovery\<close> and \<open>Unit_Conversion\<close>; no further code
  is modelled. The two component systems are projections of the composed one.
\<close>

section \<open>The composed system\<close>

text \<open>
  Besides the plugin and the thread state of its client: whether \<open>on_activate\<close> is about to
  call \<open>start\<close>, whether it has done so since the last configuration, and the trace.
\<close>

record psys =
  ps_plugin :: plugin
  ps_worker :: worker
  ps_lock :: lifecycle_lock
  ps_joins :: bool
  ps_starting :: bool
  ps_armed :: bool
  ps_trace :: "event list"

definition client_sys :: "psys \<Rightarrow> client \<Rightarrow> sys" where
  "client_sys s c = \<lparr>s_client = c, s_worker = ps_worker s, s_lock = ps_lock s, s_stop_joins = ps_joins s\<rparr>"

definition put_client :: "client \<Rightarrow> plugin \<Rightarrow> plugin" where
  "put_client c p = p\<lparr>pl_client := Some c\<rparr>"

text \<open>The answer of the callback is that of the plugin, which stores the sample.\<close>

definition called_back :: "answer \<Rightarrow> pc \<Rightarrow> plugin \<Rightarrow> plugin \<times> answer" where
  "called_back ans place p =
     (case place of
        InCallback smp out d \<Rightarrow> (let (p', e) = store_sample smp p in (p', ans\<lparr>a_callback := e\<rparr>))
      | _ \<Rightarrow> (p, ans))"

text \<open>
  The remaining callbacks. A lifecycle callback that stops the client continues once the
  worker is gone; the client it then has is the one that \<open>stop\<close> left.
\<close>

definition op_allowed :: "plugin \<Rightarrow> plugin_op \<Rightarrow> bool" where
  "op_allowed p x \<longleftrightarrow> admissible p x \<and>
     (let stopped = (\<lambda>c. \<forall>c'. pl_client p = Some c' \<longrightarrow> c' = c \<and> \<not> worker_alive c)
      in case x of
        Client_Runs c \<Rightarrow> False
      | Activation_Ends waited c ok \<Rightarrow> pl_client p = Some c
      | Deactivation c ok \<Rightarrow> stopped c | Error_Handling c ok \<Rightarrow> stopped c
      | Cleanup c ok \<Rightarrow> stopped c | Shutdown c ok \<Rightarrow> stopped c
      | _ \<Rightarrow> True)"

fun ends_activation :: "plugin_op \<Rightarrow> bool" where
  "ends_activation (Read now current ok ok') = False"
| "ends_activation (Bias_Called strerror a1 a2) = False"
| "ends_activation (Diagnostics_Due now) = False"
| "ends_activation Executor_Failed = False"
| "ends_activation x = True"

inductive psys_step :: "api \<Rightarrow> (int \<Rightarrow> string) \<Rightarrow> psys \<Rightarrow> psys \<Rightarrow> bool" for a strerror where
  ps_worker_runs: "pl_client (ps_plugin s) = Some c \<Longrightarrow> worker_alive c \<Longrightarrow>
     a_discovered ans = discover_sensor cu (session_options (cl_config c)) \<Longrightarrow>
     called_back ans (pc_at (ps_worker s)) (ps_plugin s) = (p, ans') \<Longrightarrow>
     worker_step strerror ans' (c, ps_worker s) = (c', w') \<Longrightarrow>
     psys_step a strerror s (s\<lparr>ps_plugin := put_client c' p, ps_worker := w',
       ps_trace := worker_events strerror ans' (c, ps_worker s) @ ps_trace s\<rparr>)"
| ps_client_called: "pl_client (ps_plugin s) = Some c \<Longrightarrow> api_step strerror (client_sys s c) y \<Longrightarrow>
     s_worker y = ps_worker s \<Longrightarrow>
     psys_step a strerror s (s\<lparr>ps_plugin := put_client (s_client y) (ps_plugin s),
       ps_lock := s_lock y, ps_joins := s_stop_joins y\<rparr>)"
| ps_prepared: "activate_prepare a found ok (ps_plugin s) = (p, r) \<Longrightarrow>
     psys_step a strerror s (s\<lparr>ps_plugin := p, ps_starting := (r = None), ps_armed := (ps_armed s \<or> r = None)\<rparr>)"
| ps_started: "pl_client (ps_plugin s) = Some c \<Longrightarrow> ps_starting s \<Longrightarrow> ps_armed s \<Longrightarrow> ps_lock s = Unlocked \<Longrightarrow>
     start_check False c = (c', Start_Proceeds) \<Longrightarrow>
     psys_step a strerror s (s\<lparr>ps_plugin := put_client (start_committed (start_reset True c')) (ps_plugin s),
       ps_worker := worker_start c', ps_starting := False\<rparr>)"
| ps_operation: "op_allowed (ps_plugin s) x \<Longrightarrow>
     (case x of Bias_Called strerror' a1 a2 \<Rightarrow> strerror' = strerror | _ \<Rightarrow> True) \<Longrightarrow>
     psys_step a strerror s (s\<lparr>ps_plugin := apply_op a x (ps_plugin s),
       ps_starting := (ps_starting s \<and> \<not> ends_activation x)\<rparr>)"
| ps_configured: "(\<forall>c. pl_client (ps_plugin s) = Some c \<longrightarrow> \<not> worker_alive c) \<Longrightarrow>
     on_configure a now created ok (ps_plugin s) = (p, r) \<Longrightarrow> pc_at w = Exited \<Longrightarrow>
     psys_step a strerror s (s\<lparr>ps_plugin := p, ps_worker := w, ps_lock := Unlocked, ps_joins := False,
       ps_starting := False, ps_armed := False\<rparr>)"

inductive psys_reachable :: "api \<Rightarrow> (int \<Rightarrow> string) \<Rightarrow> psys \<Rightarrow> bool" for a strerror where
  ps_begins: "on_init a True expand now vs info = Some (ps_plugin s) \<Longrightarrow> length vs = 6 \<Longrightarrow>
     \<not> ps_starting s \<Longrightarrow> \<not> ps_armed s \<Longrightarrow> ps_trace s = [] \<Longrightarrow> psys_reachable a strerror s"
| ps_continues: "psys_reachable a strerror s \<Longrightarrow> psys_step a strerror s s' \<Longrightarrow> psys_reachable a strerror s'"

section \<open>The invariant\<close>

definition callback_inv :: "bool \<Rightarrow> client \<Rightarrow> worker \<Rightarrow> bool" where
  "callback_inv armed c w \<longleftrightarrow> (has_callback c \<longrightarrow> armed)
     \<and> (\<forall>smp out d. pc_at w = InCallback smp out d \<longrightarrow> has_callback c)"

definition client_inv :: "(int \<Rightarrow> string) \<Rightarrow> psys \<Rightarrow> client \<Rightarrow> bool" where
  "client_inv strerror s c \<longleftrightarrow> reachable strerror (client_sys s c)
     \<and> cl_config c = pc_client (pl_config (ps_plugin s))
     \<and> traced (ps_trace s) c (ps_worker s) \<and> callback_inv (ps_armed s) c (ps_worker s)"

definition stored :: "event list \<Rightarrow> si_sample \<Rightarrow> bool" where
  "stored es si \<longleftrightarrow> si = empty_si_sample \<or> (\<exists>smp. sampled es smp \<and> to_si_sample smp = Inr si)"

definition psys_inv :: "api \<Rightarrow> (int \<Rightarrow> string) \<Rightarrow> psys \<Rightarrow> bool" where
  "psys_inv a strerror s \<longleftrightarrow>
     plugin_reachable a (ps_plugin s) (ps_armed s)
     \<and> (\<exists>now. validate_config now (pc_client (pl_config (ps_plugin s))) = Inr ())
     \<and> known_trace (pc_client (pl_config (ps_plugin s))) (ps_trace s)
     \<and> (\<forall>si \<in> set (pl_buffer (ps_plugin s)). stored (ps_trace s) si)
     \<and> (\<forall>c. pl_client (ps_plugin s) = Some c \<longrightarrow> client_inv strerror s c)"

lemma stored_mono: "stored es si \<Longrightarrow> set es \<subseteq> set es' \<Longrightarrow> stored es' si"
  unfolding stored_def using sampled_mono by blast

lemma callback_keeps [simp]:
  "has_callback (apply_configuration cfg c) = has_callback c"
  "has_callback (record_callback_error m c) = has_callback c"
  "has_callback (close_session strerror a c) = has_callback c"
  "has_callback (set_fault f m c) = has_callback c"
  "has_callback (deliver_sample s c) = has_callback c"
  "has_callback (fst (send_command strerror a cmd c)) = has_callback c"
  "has_callback (fst (observe_record rec r c)) = has_callback c"
  by (simp_all add: apply_configuration_def record_callback_error_def close_session_def stop_streaming_def
      Let_def set_fault_def latch_publish_def deliver_sample_def send_command_def observe_record_def
      case_prod_unfold split: option.split)

lemma callback_mark_stopped [simp]: "has_callback (mark_stopped c) = has_callback c"
  by (simp add: mark_stopped_def)

lemma pc_worker_start [simp]: "pc_at (worker_start c) = RunHead"
  by (simp add: worker_start_def)

lemma callback_worker:
  assumes "callback_inv armed (fst s) (snd s)"
  shows "callback_inv armed (fst (worker_step strerror a s)) (snd (worker_step strerror a s))"
  using assms
  by (cases "pc_at (snd s)")
    (auto simp: callback_inv_def worker_step_def Let_def case_prod_unfold after_record_def end_session_def
      split: sum.split exn.split option.split)

section \<open>Its preservation\<close>

lemma client_sys_fields [simp]:
  "s_client (client_sys s c) = c" "s_worker (client_sys s c) = ps_worker s"
  "s_lock (client_sys s c) = ps_lock s" "s_stop_joins (client_sys s c) = ps_joins s"
  by (simp_all add: client_sys_def)

lemma put_client_fields [simp]:
  "pl_client (put_client c p) = Some c" "pl_config (put_client c p) = pl_config p"
  "pl_buffer (put_client c p) = pl_buffer p"
  by (simp_all add: put_client_def)

lemma put_client_runs: "pl_client p = Some c \<Longrightarrow> put_client c' p = apply_op a (Client_Runs c') p"
  by (simp add: put_client_def)

lemma reach_put:
  "plugin_reachable a p cb \<Longrightarrow> pl_client p = Some c \<Longrightarrow> plugin_reachable a (put_client c' p) cb"
  unfolding put_client_runs [of p c c' a] by (rule reach_op) (simp_all add: admissible_def)

lemma sampled_axes: "sampled es smp \<Longrightarrow> three_axes smp"
  by (auto simp: sampled_def three_axes_def make_sample_def Let_def)

lemma store_sample_fields [simp]:
  "pl_client (fst (store_sample smp p)) = pl_client p" "pl_config (fst (store_sample smp p)) = pl_config p"
  by (auto simp: store_sample_def split: sum.split exn.split)

lemma store_sample_buffer:
  "si \<in> set (pl_buffer (fst (store_sample smp p))) \<Longrightarrow> si \<in> set (pl_buffer p) \<or> to_si_sample smp = Inr si"
  by (auto simp: store_sample_def latch_fatal_fault_def split: sum.splits exn.splits if_splits)

text \<open>What the callback makes of the plugin.\<close>

lemma called_back_inv:
  assumes "psys_inv a strerror s" and "pl_client (ps_plugin s) = Some c"
    and "called_back ans (pc_at (ps_worker s)) (ps_plugin s) = (p, ans')"
  shows "plugin_reachable a p (ps_armed s)" "pl_client p = Some c" "pl_config p = pl_config (ps_plugin s)"
    "\<forall>si \<in> set (pl_buffer p). stored (ps_trace s) si" "a_discovered ans' = a_discovered ans"
proof -
  have r: "plugin_reachable a (ps_plugin s) (ps_armed s)" and ci: "client_inv strerror s c"
    and b: "\<forall>si \<in> set (pl_buffer (ps_plugin s)). stored (ps_trace s) si"
    using assms(1,2) by (simp_all add: psys_inv_def)
  have all: "plugin_reachable a p (ps_armed s) \<and> pl_client p = Some c \<and> pl_config p = pl_config (ps_plugin s)
      \<and> (\<forall>si \<in> set (pl_buffer p). stored (ps_trace s) si) \<and> a_discovered ans' = a_discovered ans"
  proof (cases "pc_at (ps_worker s)")
    case (InCallback smp out d)
    have p: "p = fst (store_sample smp (ps_plugin s))" and ans': "a_discovered ans' = a_discovered ans"
      using assms(3) InCallback by (auto simp: called_back_def case_prod_unfold Let_def)
    have smp: "sampled (ps_trace s) smp" and armed: "ps_armed s"
      using ci InCallback by (simp_all add: client_inv_def traced_def callback_inv_def)
    have "plugin_reachable a p True"
      unfolding p using r armed sampled_axes [OF smp] by (intro reach_sample) simp_all
    moreover have "\<forall>si \<in> set (pl_buffer p). stored (ps_trace s) si"
      using b smp unfolding p stored_def by (blast dest: store_sample_buffer)
    ultimately show ?thesis using armed ans' assms(2) by (simp add: p)
  qed (use assms(2,3) r b in \<open>simp_all add: called_back_def\<close>)
  then show "plugin_reachable a p (ps_armed s)" "pl_client p = Some c" "pl_config p = pl_config (ps_plugin s)"
    "\<forall>si \<in> set (pl_buffer p). stored (ps_trace s) si" "a_discovered ans' = a_discovered ans" by blast+
qed

lemma inv_worker_runs:
  assumes "psys_inv a strerror s" and "pl_client (ps_plugin s) = Some c" and "worker_alive c"
    and "a_discovered ans = discover_sensor cu (session_options (cl_config c))"
    and "called_back ans (pc_at (ps_worker s)) (ps_plugin s) = (p, ans')"
    and "worker_step strerror ans' (c, ps_worker s) = (c', w')"
  shows "psys_inv a strerror (s\<lparr>ps_plugin := put_client c' p, ps_worker := w',
       ps_trace := worker_events strerror ans' (c, ps_worker s) @ ps_trace s\<rparr>)"
    (is "psys_inv a strerror ?s'")
proof -
  note cb = called_back_inv [OF assms(1,2,5)]
  have ci: "client_inv strerror s c" using assms(1,2) by (simp add: psys_inv_def)
  let ?es = "worker_events strerror ans' (c, ps_worker s) @ ps_trace s"
  have sub: "set (ps_trace s) \<subseteq> set ?es" by simp
  have "sys_step strerror (client_sys s c) ((client_sys s c)\<lparr>s_client := c', s_worker := w'\<rparr>)"
    by (rule step_worker [where a = ans']) (simp_all add: assms(3,6))
  then have "reachable strerror ((client_sys s c)\<lparr>s_client := c', s_worker := w'\<rparr>)"
    using ci unfolding client_inv_def by (blast intro: reachable_step)
  moreover have "(client_sys s c)\<lparr>s_client := c', s_worker := w'\<rparr> = client_sys ?s' c'"
    by (simp add: client_sys_def)
  moreover have "cl_config c' = cl_config c"
    using worker_config [of strerror ans' "(c, ps_worker s)"] by (simp add: assms(6))
  moreover have "traced ?es c' w'"
    using traced_worker [of "ps_trace s" "(c, ps_worker s)" strerror ans'] ci
    by (simp add: assms(6) client_inv_def)
  moreover have "callback_inv (ps_armed s) c' w'"
    using callback_worker [of "ps_armed s" "(c, ps_worker s)" strerror ans'] ci
    by (simp add: assms(6) client_inv_def)
  ultimately have "client_inv strerror ?s' c'"
    using ci cb(3) by (simp add: client_inv_def)
  moreover have "known_trace (pc_client (pl_config (ps_plugin s))) ?es"
    using known_worker [of "pc_client (pl_config (ps_plugin s))" "ps_trace s" "(c, ps_worker s)" ans' cu strerror]
      assms(1,4) ci cb(5) by (simp add: psys_inv_def client_inv_def)
  moreover have "\<forall>si \<in> set (pl_buffer p). stored ?es si" using cb(4) stored_mono [OF _ sub] by blast
  ultimately show ?thesis
    using assms(1) cb(3) reach_put [OF cb(1,2)] by (simp add: psys_inv_def)
qed

text \<open>A call of the client from one of the other threads.\<close>

lemma api_callback:
  assumes "api_step strerror s s'" and "s_worker s' = s_worker s"
    and "\<not> worker_alive (s_client s) \<Longrightarrow> pc_at (s_worker s) = Exited"
  shows "has_callback (s_client s') = has_callback (s_client s)"
  using assms
proof (induction rule: api_step.induct)
  case (api_stop_decide s self c' r)
  then show ?case using stop_decide_cases [of self "s_client s" c' r] by auto
next
  case (api_start_check s self c' r)
  then show ?case using start_check_cases [of self "s_client s" c' r] by auto
next
  case (api_start s self c' callback)
  then have "pc_at (s_worker s) = Exited" using start_check_Proceeds [of self "s_client s" c'] by auto
  moreover have "pc_at (worker_start c') = pc_at (s_worker s)" using api_start.prems(1) by simp
  ultimately show ?case by simp
next
  case (api_start_failed s self c' callback)
  then show ?case
    using start_check_Proceeds [of self "s_client s" c']
    by (auto simp: start_rollback_def start_reset_def Let_def set_fault_def latch_publish_def)
next
  case (api_bias answer1 answer2 s c' r)
  then show ?case by (auto simp: bias_def case_prod_unfold split: if_splits sum.splits)
next
  case (api_health now s c' h)
  then show ?case by (auto simp: take_health_def Let_def)
qed (auto simp: stop_request_def stop_joined_def start_reaped_def mark_stopped_def stop_command_def
    stop_streaming_def Let_def)

lemma client_called:
  assumes "client_inv strerror s c" and "api_step strerror (client_sys s c) y" and "s_worker y = ps_worker s"
    and "client_sys s' (s_client y) = y" and "pl_config (ps_plugin s') = pl_config (ps_plugin s)"
    and "ps_trace s' = ps_trace s" and "ps_armed s' = ps_armed s"
  shows "client_inv strerror s' (s_client y)"
proof -
  have r: "reachable strerror (client_sys s c)" using assms(1) by (simp add: client_inv_def)
  have "reachable strerror y" by (rule reachable_step [OF r step_api [OF assms(2)]])
  moreover have "traced (ps_trace s) (s_client y) (s_worker y)"
    using traced_api [OF assms(2)] assms(1) reachable_parts(1) [OF r] by (simp add: client_inv_def)
  moreover have "has_callback (s_client y) = has_callback c"
    using api_callback [OF assms(2)] assms(3) reachable_parts(7) [OF r] by simp
  moreover have "ps_worker s' = s_worker y" using assms(4) by (metis client_sys_fields(2))
  ultimately show ?thesis
    using assms api_config [OF assms(2)] by (simp add: client_inv_def callback_inv_def)
qed

lemma inv_client_called:
  assumes "psys_inv a strerror s" and "pl_client (ps_plugin s) = Some c"
    and "api_step strerror (client_sys s c) y" and "s_worker y = ps_worker s"
  shows "psys_inv a strerror (s\<lparr>ps_plugin := put_client (s_client y) (ps_plugin s),
       ps_lock := s_lock y, ps_joins := s_stop_joins y\<rparr>)"
    (is "psys_inv a strerror ?s'")
proof -
  have "client_inv strerror ?s' (s_client y)"
    by (rule client_called [OF _ assms(3,4)]) (use assms in \<open>simp_all add: psys_inv_def client_sys_def\<close>)
  then show ?thesis using assms(1,2) reach_put [of a "ps_plugin s"] by (simp add: psys_inv_def)
qed

lemma inv_started:
  assumes "psys_inv a strerror s" and "pl_client (ps_plugin s) = Some c" and "ps_armed s" "ps_lock s = Unlocked"
    and "start_check False c = (c', Start_Proceeds)"
  shows "psys_inv a strerror (s\<lparr>ps_plugin := put_client (start_committed (start_reset True c')) (ps_plugin s),
       ps_worker := worker_start c', ps_starting := False\<rparr>)"
    (is "psys_inv a strerror ?s'")
proof -
  let ?c = "start_committed (start_reset True c')"
  let ?y = "(client_sys s c)\<lparr>s_client := ?c, s_worker := worker_start c'\<rparr>"
  have ci: "client_inv strerror s c" and r: "reachable strerror (client_sys s c)"
    using assms(1,2) by (simp_all add: psys_inv_def client_inv_def)
  have st: "api_step strerror (client_sys s c) ?y"
    by (rule api_start [of _ False]) (use assms(4,5) in simp_all)
  have "reachable strerror ?y" by (rule reachable_step [OF r step_api [OF st]])
  moreover have "?y = client_sys ?s' ?c" by (simp add: client_sys_def)
  moreover have "traced (ps_trace s) ?c (worker_start c')"
    using traced_api [OF st] ci reachable_parts(1) [OF r] by (simp add: client_inv_def)
  moreover have "cl_config ?c = cl_config c" using api_config [OF st] by simp
  ultimately have "client_inv strerror ?s' ?c"
    using ci assms(3) by (simp add: client_inv_def callback_inv_def)
  then show ?thesis using assms(1,2) reach_put [of a "ps_plugin s"] by (simp add: psys_inv_def)
qed

lemma activate_prepare_fields:
  assumes "activate_prepare a found ok p = (p', r)"
  shows "pl_client p' = pl_client p" "pl_config p' = pl_config p" "pl_buffer p' = pl_buffer p"
  using assms by (auto simp: activate_prepare_def Let_def split: if_splits)

lemma client_inv_frame:
  assumes "client_inv strerror s c" and "ps_worker s' = ps_worker s" "ps_lock s' = ps_lock s" "ps_joins s' = ps_joins s"
    "ps_trace s' = ps_trace s" "pl_config (ps_plugin s') = pl_config (ps_plugin s)" "ps_armed s \<Longrightarrow> ps_armed s'"
  shows "client_inv strerror s' c"
  using assms by (auto simp: client_inv_def callback_inv_def client_sys_def)

lemma inv_prepared:
  assumes "psys_inv a strerror s" and "activate_prepare a found ok (ps_plugin s) = (p, r)"
  shows "psys_inv a strerror (s\<lparr>ps_plugin := p, ps_starting := (r = None), ps_armed := (ps_armed s \<or> r = None)\<rparr>)"
    (is "psys_inv a strerror ?s'")
proof -
  note f = activate_prepare_fields [OF assms(2)]
  have "client_inv strerror ?s' c" if "client_inv strerror s c" for c
    by (rule client_inv_frame [OF that]) (simp_all add: f)
  moreover have "plugin_reachable a p (ps_armed s \<or> r = None)"
    using assms by (intro reach_activate) (simp_all add: psys_inv_def)
  ultimately show ?thesis using assms(1) by (simp add: psys_inv_def f)
qed

lemma configure_reset_fields [simp]:
  "pl_config (configure_reset a ok p) = pl_config p" "pl_client (configure_reset a ok p) = None"
  "pl_buffer (configure_reset a ok p) = [empty_si_sample]"
  by (simp_all add: configure_reset_def stop_auxiliary_def)

lemma on_configure_fields:
  assumes "on_configure a now created ok p = (p', r)"
  shows "pl_config p' = pl_config p" and "pl_buffer p' = [empty_si_sample]"
    and "pl_client p' = Some c \<Longrightarrow> client_init now (pc_client (pl_config p)) = Inr c"
proof -
  have *: "p' = (stop_auxiliary (configure_reset a ok p))\<lparr>pl_client := None\<rparr> \<or>
    (\<exists>c' ev b. client_init now (pc_client (pl_config p)) = Inr c' \<and>
       p' = (configure_reset a ok p)\<lparr>pl_client := Some c', pl_evaluator := Some ev, pl_bias_service := b, pl_stopping := False\<rparr>)"
    using assms
    by (auto simp: on_configure_def start_auxiliary_def and_then_Inr Let_def split: sum.splits)
  then show "pl_config p' = pl_config p" and "pl_buffer p' = [empty_si_sample]"
    and "pl_client p' = Some c \<Longrightarrow> client_init now (pc_client (pl_config p)) = Inr c"
    by (auto simp: stop_auxiliary_def)
qed

lemma inv_configured:
  assumes "psys_inv a strerror s" and "on_configure a now created ok (ps_plugin s) = (p, r)" and "pc_at w = Exited"
  shows "psys_inv a strerror (s\<lparr>ps_plugin := p, ps_worker := w, ps_lock := Unlocked, ps_joins := False,
       ps_starting := False, ps_armed := False\<rparr>)"
    (is "psys_inv a strerror ?s'")
proof -
  note cfg = on_configure_fields(1) [OF assms(2)] and buf = on_configure_fields(2) [OF assms(2)]
  have "client_inv strerror ?s' c" if "pl_client p = Some c" for c
  proof -
    have ini: "client_init now (pc_client (pl_config p)) = Inr c"
      using on_configure_fields(3) [OF assms(2) that] cfg by simp
    then have c: "cl_config c = pc_client (pl_config p)" "latest c = None" "\<not> has_callback c"
      "sensor_configuration (health c) = None"
      by (auto simp: client_init_def default_health_def)
    have "initial (client_sys ?s' c)" using ini assms(3) by (auto simp: initial_def)
    then have "reachable strerror (client_sys ?s' c)" by (rule reachable_initial)
    then show ?thesis using c assms(3) by (simp add: client_inv_def traced_def callback_inv_def)
  qed
  then show ?thesis
    using assms(1) cfg buf reach_configure [OF _ assms(2)] by (auto simp: psys_inv_def stored_def)
qed

section \<open>The other callbacks\<close>

definition same_core :: "plugin \<Rightarrow> plugin \<Rightarrow> bool" where
  "same_core p p' \<longleftrightarrow> pl_client p' = pl_client p \<and> pl_config p' = pl_config p \<and> pl_buffer p' = pl_buffer p"

lemma same_core_parts:
  "same_core p (latch_fatal_fault f p)" "same_core p (invalidate_interfaces a ok p)"
  "same_core p (fst (fault_latched p))" "same_core p (fst (write_axes a ok smp p))"
  "same_core p (p\<lparr>pl_write_fault := b\<rparr>)" "same_core p (auxiliary_failed p)"
  by (auto simp: same_core_def latch_fatal_fault_def invalidate_interfaces_def fault_latched_def write_axes_def
      auxiliary_failed_def Let_def split: option.splits prod.splits)

lemma same_core_trans: "same_core p q \<Longrightarrow> same_core q r \<Longrightarrow> same_core p r"
  by (simp add: same_core_def)

lemma same_core_invalid: "same_core p q \<Longrightarrow> same_core p (invalidate_interfaces a ok q)"
  by (rule same_core_trans [OF _ same_core_parts(2)])

lemma same_core_read: "same_core p (fst (read a now current ok ok' p))"
proof -
  obtain p1 f where fl: "fault_latched p = (p1, f)" by force
  have 1: "same_core p p1" using same_core_parts(3) [of p] fl by simp
  note latch = same_core_trans [OF 1 same_core_parts(1)]
  have w: "same_core p (fst (write_axes a ok smp p1))" for smp by (rule same_core_trans [OF 1 same_core_parts(4)])
  show ?thesis
  proof (cases current)
    case None
    then show ?thesis using same_core_invalid [OF 1] by (simp add: read_def fl)
  next
    case (Some smp)
    obtain p2 b where ax: "write_axes a ok smp p1 = (p2, b)" by force
    have 2: "same_core p p2" using w [of smp] ax by simp
    show ?thesis
      using same_core_invalid [OF 1] same_core_invalid [OF latch] 2
        same_core_invalid [OF same_core_trans [OF 2 same_core_parts(5)]]
      by (auto simp: read_def fl Some ax split: bool.split)
  qed
qed

lemma bias_op:
  assumes "apply_op a (Bias_Called strerror a1 a2) p = p'"
  shows "pl_config p' = pl_config p" "pl_buffer p' = pl_buffer p"
    and "pl_client p' = map_option (\<lambda>c. fst (bias strerror a1 a2 c)) (pl_client p)"
  using assms by (auto simp: handle_bias_def split: option.splits prod.splits sum.splits)

lemma diagnostics_op:
  assumes "apply_op a (Diagnostics_Due now) p = p'"
  shows "pl_config p' = pl_config p" "pl_buffer p' = pl_buffer p"
    and "pl_client p' = pl_client p \<or> pl_client p' = map_option (\<lambda>c. fst (take_health now c)) (pl_client p)"
  using assms by (auto simp: publish_diagnostics_def Let_def split: option.splits prod.splits)

text \<open>An operation leaves the client alone, lets go of it, or is one of its own calls.\<close>

lemma op_effect:
  assumes "op_allowed p x"
  shows "pl_config (apply_op a x p) = pl_config p" and "pl_buffer (apply_op a x p) = pl_buffer p"
    and "pl_client (apply_op a x p) \<in> {pl_client p, None}
      \<or> (\<exists>strerror a1 a2. x = Bias_Called strerror a1 a2
          \<and> pl_client (apply_op a x p) = map_option (\<lambda>c. fst (bias strerror a1 a2 c)) (pl_client p))
      \<or> (\<exists>now. x = Diagnostics_Due now
          \<and> pl_client (apply_op a x p) = map_option (\<lambda>c. fst (take_health now c)) (pl_client p))"
proof -
  have "pl_config (apply_op a x p) = pl_config p \<and> pl_buffer (apply_op a x p) = pl_buffer p
    \<and> (pl_client (apply_op a x p) \<in> {pl_client p, None}
      \<or> (\<exists>strerror a1 a2. x = Bias_Called strerror a1 a2
          \<and> pl_client (apply_op a x p) = map_option (\<lambda>c. fst (bias strerror a1 a2 c)) (pl_client p))
      \<or> (\<exists>now. x = Diagnostics_Due now
          \<and> pl_client (apply_op a x p) = map_option (\<lambda>c. fst (take_health now c)) (pl_client p)))"
  proof (cases x)
    case (Read now current ok ok')
    then show ?thesis using same_core_read [of p a now current ok ok'] by (simp add: same_core_def)
  next
    case (Bias_Called strerror a1 a2)
    then show ?thesis using bias_op [of a strerror a1 a2 p] by simp
  next
    case (Diagnostics_Due now)
    then show ?thesis using diagnostics_op [of a now p] by auto
  next
    case Executor_Failed
    then show ?thesis using same_core_parts(6) [of p] by (simp add: same_core_def)
  next
    case (Activation_Ends waited c ok)
    then show ?thesis using assms
      by (auto simp: op_allowed_def activate_finish_def split: sum.split)
  qed (use assms in \<open>auto simp: op_allowed_def admissible_def activate_refused_def on_deactivate_def on_error_def
      on_cleanup_def on_shutdown_def stop_and_invalidate_def stop_auxiliary_def\<close>)
  then show "pl_config (apply_op a x p) = pl_config p" and "pl_buffer (apply_op a x p) = pl_buffer p"
    and "pl_client (apply_op a x p) \<in> {pl_client p, None}
      \<or> (\<exists>strerror a1 a2. x = Bias_Called strerror a1 a2
          \<and> pl_client (apply_op a x p) = map_option (\<lambda>c. fst (bias strerror a1 a2 c)) (pl_client p))
      \<or> (\<exists>now. x = Diagnostics_Due now
          \<and> pl_client (apply_op a x p) = map_option (\<lambda>c. fst (take_health now c)) (pl_client p))"
    by blast+
qed

lemma operation_client:
  assumes "psys_inv a strerror s" and "op_allowed (ps_plugin s) x"
    and "case x of Bias_Called strerror' a1 a2 \<Rightarrow> strerror' = strerror | _ \<Rightarrow> True"
    and "pl_client (apply_op a x (ps_plugin s)) = Some c'"
  shows "client_inv strerror (s\<lparr>ps_plugin := apply_op a x (ps_plugin s),
       ps_starting := (ps_starting s \<and> \<not> ends_activation x)\<rparr>) c'"
    (is "client_inv strerror ?s' c'")
proof -
  note eff = op_effect [OF assms(2), of a]
  have inv: "client_inv strerror s c" if "pl_client (ps_plugin s) = Some c" for c
    using assms(1) that by (simp add: psys_inv_def)
  have called: "client_inv strerror ?s' (s_client y)"
    if "pl_client (ps_plugin s) = Some c" "y = (client_sys s c)\<lparr>s_client := s_client y\<rparr>"
      "api_step strerror (client_sys s c) y" for c y
  proof (rule client_called [OF inv [OF that(1)] that(3)])
    have "s_worker y = s_worker ((client_sys s c)\<lparr>s_client := s_client y\<rparr>)"
      by (rule arg_cong [where f = s_worker, OF that(2)])
    then show "s_worker y = ps_worker s" by simp
    have "client_sys ?s' (s_client y) = (client_sys s c)\<lparr>s_client := s_client y\<rparr>"
      by (simp add: client_sys_def)
    then show "client_sys ?s' (s_client y) = y" using that(2) by simp
  qed (simp_all add: eff(1))
  from eff(3) show ?thesis
  proof (elim disjE exE conjE)
    assume "pl_client (apply_op a x (ps_plugin s)) \<in> {pl_client (ps_plugin s), None}"
    then have "client_inv strerror s c'" using assms(4) inv by auto
    then show ?thesis by (rule client_inv_frame) (simp_all add: eff(1))
  next
    fix strerror' a1 a2
    assume x: "x = Bias_Called strerror' a1 a2"
      and e: "pl_client (apply_op a x (ps_plugin s)) = map_option (\<lambda>c. fst (bias strerror' a1 a2 c)) (pl_client (ps_plugin s))"
    have se: "strerror' = strerror" using assms(3) x by simp
    then have "map_option (\<lambda>c. fst (bias strerror a1 a2 c)) (pl_client (ps_plugin s)) = Some c'"
      using e assms(4) by simp
    then obtain c where c: "pl_client (ps_plugin s) = Some c" "c' = fst (bias strerror a1 a2 c)" by auto
    have "api_step strerror (client_sys s c) ((client_sys s c)\<lparr>s_client := c'\<rparr>)"
      by (rule api_bias [of _ a1 a2 _ _ "snd (bias strerror a1 a2 c)"]) (simp add: c(2))
    then show ?thesis using called [OF c(1), of "(client_sys s c)\<lparr>s_client := c'\<rparr>"] by simp
  next
    fix now
    assume "pl_client (apply_op a x (ps_plugin s)) = map_option (\<lambda>c. fst (take_health now c)) (pl_client (ps_plugin s))"
    then have "map_option (\<lambda>c. fst (take_health now c)) (pl_client (ps_plugin s)) = Some c'" using assms(4) by simp
    then obtain c where c: "pl_client (ps_plugin s) = Some c" "c' = fst (take_health now c)" by auto
    have "api_step strerror (client_sys s c) ((client_sys s c)\<lparr>s_client := c'\<rparr>)"
      by (rule api_health [of now _ _ "snd (take_health now c)"]) (simp add: c(2))
    then show ?thesis using called [OF c(1), of "(client_sys s c)\<lparr>s_client := c'\<rparr>"] by simp
  qed
qed

lemma inv_operation:
  assumes "psys_inv a strerror s" and "op_allowed (ps_plugin s) x"
    and "case x of Bias_Called strerror' a1 a2 \<Rightarrow> strerror' = strerror | _ \<Rightarrow> True"
  shows "psys_inv a strerror (s\<lparr>ps_plugin := apply_op a x (ps_plugin s),
       ps_starting := (ps_starting s \<and> \<not> ends_activation x)\<rparr>)"
proof -
  have "plugin_reachable a (apply_op a x (ps_plugin s)) (ps_armed s)"
    using assms(1,2) by (intro reach_op) (simp_all add: psys_inv_def op_allowed_def)
  then show ?thesis
    using assms(1) operation_client [OF assms] op_effect(1,2) [OF assms(2), of a] by (simp add: psys_inv_def)
qed

lemma psys_inv_step: "psys_step a strerror s s' \<Longrightarrow> psys_inv a strerror s \<Longrightarrow> psys_inv a strerror s'"
proof (induction rule: psys_step.induct)
  case (ps_worker_runs s c ans cu p ans' c' w')
  then show ?case by (intro inv_worker_runs)
next
  case (ps_client_called s c y)
  then show ?case by (intro inv_client_called)
next
  case (ps_prepared found ok s p r)
  then show ?case by (intro inv_prepared)
next
  case (ps_started s c c')
  then show ?case by (intro inv_started)
next
  case (ps_operation s x)
  then show ?case by (intro inv_operation)
next
  case (ps_configured s now created ok p r w)
  then show ?case by (intro inv_configured)
qed

lemma on_init_fields:
  assumes "on_init a base_ok expand now vs info = Some p"
  shows "pl_client p = None" and "pl_buffer p = [empty_si_sample]"
    and "\<exists>name. parse_parameters expand now name (hi_parameters info) = Inr (pl_config p)"
  using assms by (auto simp: on_init_def split: if_splits sum.splits)

lemma psys_inv_begins:
  assumes "on_init a True expand now vs info = Some (ps_plugin s)" and "length vs = 6"
    and "\<not> ps_armed s" and "ps_trace s = []"
  shows "psys_inv a strerror s"
proof -
  obtain name where "parse_parameters expand now name (hi_parameters info) = Inr (pl_config (ps_plugin s))"
    using on_init_fields(3) [OF assms(1)] by blast
  then have "validate_config now (pc_client (pl_config (ps_plugin s))) = Inr ()"
    using accepted_parameters [of expand now name] by (auto simp: plugin_config_ok_def validate_config_iff)
  then show ?thesis
    using reach_init [OF assms(1,2)] assms(3,4) on_init_fields(1,2) [OF assms(1)] by (auto simp: psys_inv_def known_trace_def stored_def)
qed

lemma psys_reachable_inv: "psys_reachable a strerror s \<Longrightarrow> psys_inv a strerror s"
  by (induction rule: psys_reachable.induct) (simp_all add: psys_inv_begins psys_inv_step)

section \<open>From the datagram to the axes\<close>

lemma read_pipeline:
  assumes "psys_reachable a strerror s" and "si \<in> set (pl_buffer (ps_plugin s))"
    and "read a now (Some si) ok ok' (ps_plugin s) = (p', True)"
  shows "\<exists>bytes rec received_at cfg.
    Got bytes \<in> set (ps_trace s) \<and> decode_record (Some bytes) 36 = Inr rec
    \<and> Accepted rec received_at \<in> set (ps_trace s)
    \<and> known_configuration (pc_client (pl_config (ps_plugin s))) cfg
    \<and> validate_calibration (calibration cfg) = Inr ()
    \<and> now - received_at \<le> timeout_ns (ps_plugin s)
    \<and> pl_axes p' = si_axes (calibration cfg) rec"
proof -
  have inv: "psys_inv a strerror s" by (rule psys_reachable_inv [OF assms(1)])
  then have pr: "plugin_reachable a (ps_plugin s) (ps_armed s)" and st: "stored (ps_trace s) si"
    and kt: "known_trace (pc_client (pl_config (ps_plugin s))) (ps_trace s)"
    using assms(2) by (simp_all add: psys_inv_def)
  obtain now' where v: "validate_config now' (pc_client (pl_config (ps_plugin s))) = Inr ()"
    using inv by (auto simp: psys_inv_def)
  have out: "0 < si_received_at si" "now - si_received_at si \<le> timeout_ns (ps_plugin s)"
    "pl_axes p' = si_force si @ si_torque si"
    using read_contract [OF pr assms(2,3)] by simp_all
  then have "si \<noteq> empty_si_sample" by (auto simp: empty_si_sample_def)
  then obtain smp where smp: "sampled (ps_trace s) smp" and si: "to_si_sample smp = Inr si"
    using st by (auto simp: stored_def)
  obtain bytes rec received_at cfg cal where b: "Got bytes \<in> set (ps_trace s)" "Accepted rec received_at \<in> set (ps_trace s)"
    "decode_record (Some bytes) 36 = Inr rec" and m: "smp = make_sample rec received_at cfg"
    and cal: "calibration cfg = cal" "validate_calibration cal = Inr ()"
    and k: "\<exists>cfg'. known_configuration (pc_client (pl_config (ps_plugin s))) cfg' \<and> calibration cfg' = cal"
    by (rule sampled_known [OF smp kt v])
  note conv = converted_axes [OF si [unfolded m]]
  show ?thesis using b k cal out conv by metis
qed

end
