(* ===== verification/Session_Run.thy ===== *)
theory Session_Run
  imports Acquisition_Trace
begin

text \<open>
  The run of the worker from its start into the first callback, for whoever owns the client:
  how far each place is from the callback, and the sample that a session in order hands to
  it. No code is modelled here.
\<close>

section \<open>The answers\<close>

text \<open>The answers come from a discovery with the options of the session.\<close>

definition discovers :: "config \<Rightarrow> answer \<Rightarrow> bool" where
  "discovers cl ans \<longleftrightarrow> (\<exists>cu. a_discovered ans = discover_sensor cu (session_options cl))"

section \<open>Until the callback\<close>

text \<open>No shorter way leads from a place of the worker into the callback.\<close>

fun callback_distance :: "pc \<Rightarrow> nat" where
  "callback_distance (InCallback s out d) = 0"
| "callback_distance (ObservingRecord rec r d) = 1"
| "callback_distance (ValidRecord rec) = 2"
| "callback_distance (Received d (b # bs)) = 3"
| "callback_distance (ReceiveEnd d r) = 4"
| "callback_distance (ReceiveWait d t) = 5"
| "callback_distance (ReceiveBegin d t) = 6"
| "callback_distance (LoopClock d) = 7"
| "callback_distance (LoopHead d) = 8"
| "callback_distance (Delivering s out d) = 9"
| "callback_distance (CallbackFailed m out d) = 9"
| "callback_distance (MalformedRecord d) = 9"
| "callback_distance ArmDeadline = 9"
| "callback_distance ResettingTrackers = 10"
| "callback_distance SendingStart = 11"
| "callback_distance Connecting = 12"
| "callback_distance ConfiguredCheck = 13"
| "callback_distance Discovering = 14"
| "callback_distance SessionStopCheck = 15"
| "callback_distance SessionEnter = 16"
| "callback_distance p = 17"

lemma callback_distance_le: "callback_distance p \<le> 17"
  by (cases p rule: callback_distance.cases) simp_all

lemma callback_distance_Received: "3 \<le> callback_distance (Received d bs)"
  by (cases bs) simp_all

lemma callback_distance_step:
  "callback_distance (pc_at (snd s)) \<le> Suc (callback_distance (pc_at (snd (worker_step strerror a s))))"
  using callback_distance_Received
  by (cases "pc_at (snd s)" rule: callback_distance.cases)
    (auto simp: worker_step_def Let_def case_prod_unfold after_record_def end_session_def callback_distance_le
      split: sum.split exn.split option.split)

section \<open>The sample of a fresh session\<close>

lemma make_sample_calibration:
  "calibration cfg' = calibration cfg \<Longrightarrow>
     make_sample rec t cfg' = (make_sample rec t cfg)\<lparr>configuration_revision := revision cfg'\<rparr>"
  by (simp add: make_sample_def Let_def)

lemma to_si_sample_revision:
  "to_si_sample smp = Inr si \<Longrightarrow>
     to_si_sample (smp\<lparr>configuration_revision := r\<rparr>) = Inr (si\<lparr>si_configuration_revision := r\<rparr>)"
  by (auto simp: to_si_sample_def)

lemma latch_fields [simp]:
  "latch (apply_configuration cfg c) = latch c" "latch (streaming_client n cfg c) = latch c"
  "latch (observed_client rec t c) = latch c" "latch (deliver_sample smp c) = latch c"
  "generation (observed_client rec t c) = generation c"
  "received_count (health (apply_configuration cfg c)) = received_count (health c)"
  "received_count (health (started c)) = received_count (health c)"
  "received_count (health (observed_client rec t c)) = received_count (health c) + 1"
  by (simp_all add: apply_configuration_def streaming_client_def observed_client_def deliver_sample_def Let_def
      started_def start_committed_def start_reset_def counted_health_def split: option.split)

lemma received_streaming [simp]: "received_count (health (streaming_client n cfg c)) = received_count (health c)"
  by (simp add: streaming_client_def Let_def)

lemma fresh_session_sample:
  assumes "good_answer ans c cfg rec deadline" and "calibration_override (cl_config c) = None"
    and "classify_status (raw_status rec) \<noteq> SevError"
    and "ft_advances (snd (ft_observe (raw_ft_sequence rec) (ft_begin_session (ft_sequence c))))"
  obtains c1 w1 cfg' where "run_worker strerror (replicate 17 ans) (started c, worker_start c) = (c1, w1)"
    and "pc_at w1 = InCallback (make_sample rec (a_now ans) cfg') None deadline"
    and "calibration cfg' = calibration cfg" and "latch c1 = FC_None" and "generation c1 = generation c + 1"
    and "received_count (health c1) = received_count (health c) + 1"
proof -
  obtain n cfg' w where begun: "run_worker strerror (replicate 9 ans) (started c, worker_start c) = (streaming_client n cfg (started c), w)"
    and cal: "calibration cfg' = calibration cfg" and w: "pc_at w = LoopHead deadline"
    and d: "\<And>d. d = streaming_client n cfg (started c) \<Longrightarrow>
      good_answer ans d cfg rec deadline \<and> listening d \<and> has_callback d
      \<and> sensor_configuration (health d) = Some cfg' \<and> validate_calibration (calibration cfg') = Inr ()
      \<and> deliverable rec (a_now ans) (d\<lparr>consecutive_malformed := 0\<rparr>)
      \<and> record_outcome rec (d\<lparr>consecutive_malformed := 0\<rparr>) = None"
    by (rule fresh_session_begun [OF assms, where strerror = strerror], rule that)
  let ?d = "streaming_client n cfg (started c)"
  let ?c1 = "observed_client rec (a_now ans) (?d\<lparr>consecutive_malformed := 0\<rparr>)"
  let ?w1 = "w\<lparr>pc_at := InCallback (make_sample rec (a_now ans) cfg') None deadline, valid_seen := True\<rparr>"
  have "run_worker strerror (replicate 8 ans) (?d, w) = (?c1, ?w1)"
    using callback_round [of ans ?d cfg rec deadline cfg' w strerror] d [OF refl] w by simp
  moreover have "replicate 17 ans = replicate 9 ans @ replicate 8 ans" by (simp flip: replicate_add)
  ultimately have "run_worker strerror (replicate 17 ans) (started c, worker_start c) = (?c1, ?w1)"
    by (simp add: run_worker_append begun)
  then show thesis by (rule that [where cfg' = cfg']) (simp_all add: cal)
qed

text \<open>A client that was just built is ready to start.\<close>

lemma fresh_client:
  assumes "client_init now cl = Inr c"
  shows "cl_config c = cl" and "ft_sequence c = ft_init" and "generation c = 0"
    and "start_check False c = (c, Start_Proceeds)" and "validate_config now cl = Inr ()"
  using assms by (auto simp: client_init_def start_check_def from_worker_thread_def Let_def)

section \<open>A concrete sensor\<close>

text \<open>A sensor that serves the example document and sends one record, over and over.\<close>

definition example_page :: string where
  "example_page = print_document ''netft'' example_elements"

definition example_curl :: curl where
  "example_curl = \<lparr>cu_initialised = True, cu_handle = True, cu_url = True, cu_set_part = (\<lambda>part v. True),
     cu_set_option = (\<lambda>option v. True), cu_chunks = [(example_page, 1, of_nat (length example_page), True)],
     cu_error = None, cu_status = Some 200\<rparr>"

definition steady_record :: raw_record where
  "steady_record = \<lparr>raw_rdt_sequence = 8, raw_ft_sequence = 120, raw_status = 0,
     fx = 1000000, fy = 0, fz = 0, tx = 0, ty = 0, tz = 0\<rparr>"

definition steady_answer :: "config \<Rightarrow> answer" where
  "steady_answer cl = \<lparr>a_now = 1000, a_discovered = discover_sensor example_curl (session_options cl),
     a_resolved = Inr [Connected 3], a_sent = Inr 8, a_polls = [Events False],
     a_received = Datagram (serialise_record steady_record), a_callback = Returned\<rparr>"

lemma example_page_length: "length example_page = 144"
  by (simp add: example_page_def print_document_def example_elements_def start_tag_def end_tag_def)

lemma set_parts_accepted: "(\<And>x y. cu_set_part cu x y) \<Longrightarrow> set_url_parts cu parts = Inr ()"
  by (induction cu parts rule: set_url_parts.induct) simp_all

lemma set_options_accepted: "(\<And>x y. cu_set_option cu x y) \<Longrightarrow> set_curl_options cu options = Inr ()"
  by (induction cu options rule: set_curl_options.induct) simp_all

lemma example_discovered:
  assumes "validate_config now cl = Inr ()"
  shows "discover_sensor example_curl (session_options cl) = Inr example_configuration"
proof -
  let ?o = "session_options cl"
  have v: "validate_options ?o = Inr ()" by (rule session_options_valid [OF assms])
  then obtain m m' where ms: "discovery_timeout_ms (do_connect_timeout ?o) ''connect_timeout'' = Inr m"
    "discovery_timeout_ms (do_total_timeout ?o) ''total_timeout'' = Inr m'"
    by (auto simp: validate_options_def discovery_error_def split: if_splits)
  have body: "transfer (cu_chunks example_curl) \<lparr>body = [], too_large = False, write_failed = False\<rparr>
      = \<lparr>body = example_page, too_large = False, write_failed = False\<rparr>"
    by (simp add: example_curl_def append_response_def example_page_length maximum_response_bytes_def Let_def)
  have accepts: "set_url_parts example_curl ps = Inr ()" "set_curl_options example_curl os = Inr ()" for ps os
    by (rule set_parts_accepted set_options_accepted, simp add: example_curl_def)+
  have answers: "cu_initialised example_curl" "cu_handle example_curl" "cu_url example_curl" "cu_error example_curl = None"
    "cu_status example_curl = Some 200"
    by (simp_all add: example_curl_def)
  have "parse_sensor_configuration example_page = Inr example_configuration"
    unfolding example_page_def by (rule example_parses)
  then show ?thesis by (simp add: discover_sensor_def v ms accepts answers body Let_def)
qed

lemma steady_discovers: "discovers cl (steady_answer cl)"
  unfolding discovers_def by (rule exI [of _ example_curl]) (simp add: steady_answer_def)

lemma steady_good:
  assumes "receive_timeout (cl_config c) = fone" and "validate_config now (cl_config c) = Inr ()"
  shows "good_answer (steady_answer (cl_config c)) c example_configuration steady_record 1000001000"
proof -
  have "seconds_of 1000000000 = fone"
    using fof_int_exact [of 1000000000] fof_int_exact [of 1] by (simp add: seconds_of_def fof_int_def fone_def)
  then show ?thesis
    using example_calibration_validates
    by (simp add: good_answer_def steady_answer_def example_discovered [OF assms(2)] checked_deadline_def assms(1)
      checked_one_second ticks_max_def example_configuration_def)
qed

lemma steady_axes: "si_axes example_calibration steady_record = [fone, fzero, fzero, fzero, fzero, fzero]"
proof -
  have i: "fof_int binary64 1000000 = Fin False 1000000" "fof_int binary64 0 = Fin False 0"
    using fof_int_exact [of 1000000] fof_int_exact [of 0] by simp_all
  have r: "fround binary64 False 1 = Fin False 1" "fround binary64 False 0 = Fin False 0"
    by (simp_all add: fround_eval)
  have l: "literal 1 = Fin False 1" using literal_int [of 1] by simp
  show ?thesis
    by (simp add: si_axes_def steady_record_def example_calibration_def scaled_def i l r)
      (simp add: fone_def fzero_def)
qed

lemma steady_converts:
  obtains si where "to_si_sample (make_sample steady_record 1000 example_configuration) = Inr si"
proof -
  have "\<exists>si. to_si_sample (make_sample steady_record 1000 example_configuration) = Inr si"
  proof -
    have i: "fof_int binary64 1000000 = Fin False 1000000" "fof_int binary64 0 = Fin False 0"
      using fof_int_exact [of 1000000] fof_int_exact [of 0] by simp_all
    have r: "fround binary64 False 1 = Fin False 1" "fround binary64 False 0 = Fin False 0"
      by (simp_all add: fround_eval)
    show ?thesis
      by (simp add: to_si_sample_def make_sample_def steady_record_def example_configuration_def
          example_calibration_def scaled_def i r checked_scale_def fone_def)
  qed
  then show thesis using that by blast
qed

end
