(* ===== verification/Plugin_Run.thy ===== *)
theory Plugin_Run
  imports Plugin_System Session_Run
begin

text \<open>
  Runs of the composed system: what the worker makes of the plugin in several steps, an
  activation that succeeds, and a concrete run from initialisation to the first \<open>read\<close>. No
  code is modelled here.
\<close>

section \<open>The worker under the plugin\<close>

definition plugin_worker :: "(int \<Rightarrow> string) \<Rightarrow> answer \<Rightarrow> plugin \<times> worker \<Rightarrow> plugin \<times> worker" where
  "plugin_worker strerror ans s =
     (case pl_client (fst s) of
        None \<Rightarrow> s
      | Some c \<Rightarrow>
          (let (p, ans') = called_back ans (pc_at (snd s)) (fst s);
               (c', w') = worker_step strerror ans' (c, snd s)
           in (put_client c' p, w')))"

fun run_plugin :: "(int \<Rightarrow> string) \<Rightarrow> answer list \<Rightarrow> plugin \<times> worker \<Rightarrow> plugin \<times> worker" where
  "run_plugin strerror [] s = s"
| "run_plugin strerror (a # as) s = run_plugin strerror as (plugin_worker strerror a s)"

lemma run_plugin_append: "run_plugin strerror (as @ bs) s = run_plugin strerror bs (run_plugin strerror as s)"
  by (induction as arbitrary: s) simp_all

lemma plugin_worker_step:
  assumes "pl_client (ps_plugin s) = Some c" and "worker_alive c" and "discovers (cl_config c) ans"
    and "plugin_worker strerror ans (ps_plugin s, ps_worker s) = (p, w)"
  obtains c' t where "psys_step a strerror s (s\<lparr>ps_plugin := p, ps_worker := w, ps_trace := t\<rparr>)"
    and "pl_client p = Some c'" and "worker_alive c'" and "cl_config c' = cl_config c"
proof -
  obtain p1 ans' where cb: "called_back ans (pc_at (ps_worker s)) (ps_plugin s) = (p1, ans')" by force
  obtain c' w' where st: "worker_step strerror ans' (c, ps_worker s) = (c', w')" by force
  obtain cu where cu: "a_discovered ans = discover_sensor cu (session_options (cl_config c))"
    using assms(3) by (auto simp: discovers_def)
  have pw: "p = put_client c' p1" "w = w'" using assms(1,4) cb st by (simp_all add: plugin_worker_def)
  show thesis
  proof (rule that)
    show "psys_step a strerror s (s\<lparr>ps_plugin := p, ps_worker := w,
        ps_trace := worker_events strerror ans' (c, ps_worker s) @ ps_trace s\<rparr>)"
      unfolding pw by (rule ps_worker_runs [OF assms(1,2) cu cb st])
    show "pl_client p = Some c'" by (simp add: pw)
    show "worker_alive c'" using alive_step [of strerror ans' "(c, ps_worker s)"] assms(2) st by simp
    show "cl_config c' = cl_config c" using worker_config [of strerror ans' "(c, ps_worker s)"] st by simp
  qed
qed

lemma run_plugin_steps:
  assumes "pl_client (ps_plugin s) = Some c" and "worker_alive c" and "list_all (discovers (cl_config c)) as"
    and "run_plugin strerror as (ps_plugin s, ps_worker s) = (p, w)"
  obtains t where "rtranclp (psys_step a strerror) s (s\<lparr>ps_plugin := p, ps_worker := w, ps_trace := t\<rparr>)"
  using assms
proof (induction as arbitrary: s c thesis)
  case Nil
  then have "s\<lparr>ps_plugin := p, ps_worker := w, ps_trace := ps_trace s\<rparr> = s" by (cases s) simp
  then show ?case using Nil.prems(1) [of "ps_trace s"] by simp
next
  case (Cons ans as)
  obtain p1 w1 where 1: "plugin_worker strerror ans (ps_plugin s, ps_worker s) = (p1, w1)" by force
  have d: "discovers (cl_config c) ans" using Cons.prems(4) by simp
  obtain c1 t1 where st: "psys_step a strerror s (s\<lparr>ps_plugin := p1, ps_worker := w1, ps_trace := t1\<rparr>)"
    and c1: "pl_client p1 = Some c1" "worker_alive c1" "cl_config c1 = cl_config c"
    by (rule plugin_worker_step [OF Cons.prems(2,3) d 1])
  let ?s1 = "s\<lparr>ps_plugin := p1, ps_worker := w1, ps_trace := t1\<rparr>"
  obtain t where "rtranclp (psys_step a strerror) ?s1 (?s1\<lparr>ps_plugin := p, ps_worker := w, ps_trace := t\<rparr>)"
  proof (rule Cons.IH [where s = ?s1 and c = c1])
    show "pl_client (ps_plugin ?s1) = Some c1" "worker_alive c1" using c1 by simp_all
    show "list_all (discovers (cl_config c1)) as" using Cons.prems(4) c1(3) by simp
    show "run_plugin strerror as (ps_plugin ?s1, ps_worker ?s1) = (p, w)" using Cons.prems(5) 1 by simp
  qed
  then have "rtranclp (psys_step a strerror) s (s\<lparr>ps_plugin := p, ps_worker := w, ps_trace := t\<rparr>)"
    using st by (simp add: converse_rtranclp_into_rtranclp)
  then show ?case by (rule Cons.prems(1))
qed

lemma psys_reachable_steps:
  "rtranclp (psys_step a strerror) s s' \<Longrightarrow> psys_reachable a strerror s \<Longrightarrow> psys_reachable a strerror s'"
  by (induction rule: rtranclp_induct) (auto intro: ps_continues)

section \<open>Until the callback\<close>

text \<open>Until the callback the plugin is not touched.\<close>

lemma run_plugin_quiet:
  assumes "pl_client p = Some c" and "length as \<le> callback_distance (pc_at w)"
    and "run_worker strerror as (c, w) = (c', w')"
  shows "run_plugin strerror as (p, w) = (put_client c' p, w')"
  using assms
proof (induction as arbitrary: p c w)
  case (Cons a as)
  obtain c1 w1 where 1: "worker_step strerror a (c, w) = (c1, w1)" by force
  have "callback_distance (pc_at w) \<noteq> 0" using Cons.prems(2) by simp
  then have "called_back a (pc_at w) p = (p, a)" by (auto simp: called_back_def split: pc.split)
  then have "plugin_worker strerror a (p, w) = (put_client c1 p, w1)"
    using Cons.prems(1) 1 by (simp add: plugin_worker_def)
  moreover have "length as \<le> callback_distance (pc_at w1)"
    using Cons.prems(2) callback_distance_step [of "(c, w)" strerror a] 1 by simp
  moreover have "put_client c' (put_client c1 p) = put_client c' p" by (simp add: put_client_def)
  ultimately show ?case using Cons.IH [of "put_client c1 p" c1 w1] Cons.prems(3) 1 by simp
qed (simp add: put_client_def)

section \<open>An activation that succeeds\<close>

text \<open>In nineteen steps the worker has stored the first sample and published it.\<close>

lemma worker_stores:
  assumes "pl_client p = Some (started c)"
    and "good_answer ans c cfg rec deadline" and "calibration_override (cl_config c) = None"
    and "classify_status (raw_status rec) \<noteq> SevError"
    and "ft_advances (snd (ft_observe (raw_ft_sequence rec) (ft_begin_session (ft_sequence c))))"
    and "to_si_sample (make_sample rec (a_now ans) cfg) = Inr si"
  obtains c' w' r where
    "run_plugin strerror (replicate 19 ans) (p, worker_start c) =
      (p\<lparr>pl_client := Some c', pl_buffer := si\<lparr>si_configuration_revision := r\<rparr> # pl_buffer p,
         pl_generation := pl_generation p + 1\<rparr>, w')"
    and "latch c' = FC_None" and "wait_answer (generation c + 1) c'"
proof -
  obtain c1 w1 cfg' where run: "run_worker strerror (replicate 17 ans) (started c, worker_start c) = (c1, w1)"
    and pc: "pc_at w1 = InCallback (make_sample rec (a_now ans) cfg') None deadline"
    and cal: "calibration cfg' = calibration cfg" and c1: "latch c1 = FC_None" "generation c1 = generation c + 1"
    by (rule fresh_session_sample [OF assms(2-5)])
  let ?smp = "make_sample rec (a_now ans) cfg'"
  let ?si = "si\<lparr>si_configuration_revision := revision cfg'\<rparr>"
  let ?p = "p\<lparr>pl_client := Some c1, pl_buffer := ?si # pl_buffer p, pl_generation := pl_generation p + 1\<rparr>"
  let ?w = "w1\<lparr>pc_at := Delivering ?smp None deadline\<rparr>"
  let ?c = "deliver_sample ?smp c1"
  have quiet: "run_plugin strerror (replicate 17 ans) (p, worker_start c) = (put_client c1 p, w1)"
    by (rule run_plugin_quiet [OF assms(1) _ run]) (simp add: worker_start_def)
  have si: "to_si_sample ?smp = Inr ?si"
    using to_si_sample_revision [OF assms(6)] make_sample_calibration [OF cal] by simp
  have 18: "plugin_worker strerror ans (put_client c1 p, w1) = (?p, ?w)"
    by (simp add: plugin_worker_def called_back_def pc store_sample_def si worker_step_def put_client_def Let_def)
  have 19: "plugin_worker strerror ans (?p, ?w) = (?p\<lparr>pl_client := Some ?c\<rparr>, ?w\<lparr>pc_at := LoopHead deadline\<rparr>)"
    by (simp add: plugin_worker_def called_back_def worker_step_def put_client_def after_record_def Let_def)
  have "replicate 19 ans = replicate 17 ans @ [ans, ans]" by (simp add: eval_nat_numeral)
  then have "run_plugin strerror (replicate 19 ans) (p, worker_start c) = (?p\<lparr>pl_client := Some ?c\<rparr>, ?w\<lparr>pc_at := LoopHead deadline\<rparr>)"
    by (simp add: run_plugin_append quiet 18 19)
  moreover have "wait_answer (generation c + 1) ?c"
    by (simp add: wait_answer_def deliver_sample_def Let_def c1)
  ultimately show thesis
    using that [where c' = ?c and r = "revision cfg'" and w' = "?w\<lparr>pc_at := LoopHead deadline\<rparr>"] c1 by simp
qed

lemma write_from_ok: "(\<And>i. ok i) \<Longrightarrow> snd (write_from ok i vs axes)"
  by (induction vs arbitrary: i axes) simp_all

lemma activated_read:
  assumes "pl_client p = Some c" and "latch c = FC_None" and "pl_fault p = FC_None" and "\<not> pl_write_fault p"
    and "si_sample_is_finite si" and "0 < si_received_at si" and "now - si_received_at si \<le> timeout_ns p"
    and "well_shaped si" and "length (pl_axes p) = 6" and "\<And>i. ok i"
  obtains p' where "read a now (Some si) ok ok' p = (p', True)" and "pl_axes p' = si_force si @ si_torque si"
proof -
  have fl: "fault_latched p = (p, False)" by (simp add: fault_latched_def assms(1-3))
  obtain p' w where wr: "write_axes a ok si p = (p', w)" by force
  have "snd (write_axes a ok si p)"
    by (cases "a = Legacy") (simp_all add: write_axes_def write_from_ok [OF assms(10)] case_prod_unfold Let_def)
  then have w: w by (simp add: wr)
  then have "read a now (Some si) ok ok' p = (p', True)"
    using wr assms(4-7) by (simp add: read_def fl sample_is_stale_def)
  moreover have "pl_axes p' = si_force si @ si_torque si"
    using write_axes_all [of a ok si p p'] wr w assms(8,9) by simp
  ultimately show thesis by (rule that)
qed

lemma activation_run:
  assumes "psys_reachable a strerror s" and "pl_client (ps_plugin s) = Some c"
    and "ps_lock s = Unlocked" and "start_check False c = (c, Start_Proceeds)"
    and "activate_prepare a found ok (ps_plugin s) = (p1, None)"
    and "pl_fault (ps_plugin s) = FC_None" and "\<not> pl_write_fault (ps_plugin s)"
    and "good_answer ans c cfg rec deadline" and "discovers (cl_config c) ans" and "0 < a_now ans"
    and "calibration_override (cl_config c) = None" and "classify_status (raw_status rec) \<noteq> SevError"
    and "ft_advances (snd (ft_observe (raw_ft_sequence rec) (ft_begin_session (ft_sequence c))))"
    and "to_si_sample (make_sample rec (a_now ans) cfg) = Inr si"
  shows "\<exists>s' c'. rtranclp (psys_step a strerror) s s'
    \<and> pl_client (ps_plugin s') = Some c' \<and> timeout_ns (ps_plugin s') = timeout_ns (ps_plugin s)
    \<and> activate_finish a (Inr (wait_answer (generation c + 1) c')) c' ok (ps_plugin s') = (ps_plugin s', Success)
    \<and> (\<exists>si' \<in> set (pl_buffer (ps_plugin s')). \<forall>now ok ok'. now - a_now ans \<le> timeout_ns (ps_plugin s') \<and> (\<forall>i. ok i) \<longrightarrow>
        (\<exists>p'. read a now (Some si') ok ok' (ps_plugin s') = (p', True)
          \<and> pl_axes p' = si_axes (calibration cfg) rec))"
proof -
  let ?s1 = "s\<lparr>ps_plugin := p1, ps_starting := True, ps_armed := True\<rparr>"
  let ?p2 = "put_client (started c) p1"
  let ?s2 = "?s1\<lparr>ps_plugin := ?p2, ps_worker := worker_start c, ps_starting := False\<rparr>"
  have p1: "pl_client p1 = Some c" "pl_fault p1 = FC_None" "\<not> pl_write_fault p1" "pl_generation p1 = 0"
    "pl_config p1 = pl_config (ps_plugin s)" "length (pl_axes p1) = 6"
    using assms(2,5-7) by (auto simp: activate_prepare_def invalidate_interfaces_def Let_def split: if_splits)
  have 1: "psys_step a strerror s ?s1" using ps_prepared [OF assms(5), of strerror] by simp
  have 2: "psys_step a strerror ?s1 ?s2"
    using ps_started [of ?s1 c c a strerror] p1(1) assms(3,4) by (simp add: started_def)
  obtain c' w' r where run: "run_plugin strerror (replicate 19 ans) (?p2, worker_start c) =
      (?p2\<lparr>pl_client := Some c', pl_buffer := si\<lparr>si_configuration_revision := r\<rparr> # pl_buffer ?p2,
         pl_generation := pl_generation ?p2 + 1\<rparr>, w')" (is "_ = (?p3, w')")
    and c': "latch c' = FC_None" "wait_answer (generation c + 1) c'"
    by (rule worker_stores [of ?p2 c ans cfg rec deadline si strerror]) (simp_all add: assms)
  obtain t where 3: "rtranclp (psys_step a strerror) ?s2 (?s2\<lparr>ps_plugin := ?p3, ps_worker := w', ps_trace := t\<rparr>)"
    by (rule run_plugin_steps [of ?s2 "started c" "replicate 19 ans" strerror ?p3 w' a])
      (use run assms(9) started_alive in \<open>simp_all add: list_all_iff\<close>)
  let ?s3 = "?s2\<lparr>ps_plugin := ?p3, ps_worker := w', ps_trace := t\<rparr>"
  let ?si = "si\<lparr>si_configuration_revision := r\<rparr>"
  have steps: "rtranclp (psys_step a strerror) s ?s3" using 1 2 3 by (meson converse_rtranclp_into_rtranclp)
  note conv = converted_axes [OF assms(14)]
  have si: "si_sample_is_finite si"
    using to_si_sample_result [of "make_sample rec (a_now ans) cfg"] by (simp add: assms(14))
  have shape: "well_shaped si"
    using to_si_sample_lengths [OF assms(14)] by (simp add: well_shaped_def make_sample_def Let_def)
  have "\<exists>p'. read a now (Some ?si) ok ok' ?p3 = (p', True) \<and> pl_axes p' = si_axes (calibration cfg) rec"
    if fresh: "now - a_now ans \<le> timeout_ns ?p3" "\<forall>i. ok i" for now ok ok'
  proof -
    obtain p' where "read a now (Some ?si) ok ok' ?p3 = (p', True)" "pl_axes p' = si_force ?si @ si_torque ?si"
      by (rule activated_read [of ?p3 c' ?si now ok a ok'])
        (use p1 c' si shape conv fresh assms(10) in \<open>simp_all add: put_client_def si_sample_is_finite_def well_shaped_def\<close>)
    then show ?thesis using conv by simp
  qed
  moreover have "?si \<in> set (pl_buffer ?p3)" by simp
  ultimately have "\<exists>si' \<in> set (pl_buffer ?p3). \<forall>now ok ok'. now - a_now ans \<le> timeout_ns ?p3 \<and> (\<forall>i. ok i) \<longrightarrow>
      (\<exists>p'. read a now (Some si') ok ok' ?p3 = (p', True) \<and> pl_axes p' = si_axes (calibration cfg) rec)"
    by blast
  moreover have "pl_client ?p3 = Some c'" "timeout_ns ?p3 = timeout_ns (ps_plugin s)"
    "activate_finish a (Inr (wait_answer (generation c + 1) c')) c' ok ?p3 = (?p3, Success)"
    using c' p1 by (simp_all add: activate_finish_def faulted_iff put_client_def timeout_ns_def)
  ultimately show ?thesis
    using steps by (intro exI [of _ ?s3] exI [of _ c']) simp
qed

section \<open>A concrete run\<close>

text \<open>The plugin is initialised and configured; then it is activated.\<close>

definition resting_worker :: worker where
  "resting_worker = \<lparr>pc_at = Exited, backoff = fone, valid_seen = False\<rparr>"

definition initial_psys :: psys where
  "initial_psys = \<lparr>ps_plugin = example_initialised, ps_worker = resting_worker, ps_lock = Unlocked, ps_joins = False,
     ps_starting = False, ps_armed = False, ps_trace = []\<rparr>"

definition configured_psys :: psys where
  "configured_psys = initial_psys\<lparr>ps_plugin := example_configured\<rparr>"

lemma configured_reachable: "psys_reachable Modern strerror configured_psys"
proof (rule ps_continues)
  show "psys_reachable Modern strerror initial_psys"
    by (rule ps_begins [of _ "\<lambda>s n. Inr ()" "\<lambda>k. 1000" "replicate 6 fzero" example_info])
      (simp_all add: initial_psys_def example_initialises(1))
  have "pl_client example_initialised = None" using on_init_fields(1) [OF example_initialises(1)] .
  then have "psys_step Modern strerror initial_psys (initial_psys\<lparr>ps_plugin := example_configured,
      ps_worker := resting_worker, ps_lock := Unlocked, ps_joins := False, ps_starting := False, ps_armed := False\<rparr>)"
    using example_configures(1) by (intro ps_configured) (simp_all add: initial_psys_def resting_worker_def)
  then show "psys_step Modern strerror initial_psys configured_psys"
    by (simp add: configured_psys_def initial_psys_def)
qed

lemma configured_client:
  obtains c where "pl_client example_configured = Some c" and "cl_config c = example_plugin_client"
    and "start_check False c = (c, Start_Proceeds)" and "ft_sequence c = ft_init" and "generation c = 0"
proof -
  obtain c where c: "pl_client example_configured = Some c" using example_configures(6) by blast
  have "client_init (\<lambda>k. 1000) example_plugin_client = Inr c"
    using on_configure_fields(3) [OF example_configures(1) c] by (simp add: example_initialises(2) example_plugin_fields)
  note f = fresh_client [OF this]
  show thesis by (rule that [OF c f(1,4,2,3)])
qed

text \<open>The hypotheses of an activation, with the plugin just configured.\<close>

lemma steady_setup:
  obtains c p1 si where "pl_client (ps_plugin configured_psys) = Some c" and "ps_lock configured_psys = Unlocked"
    and "start_check False c = (c, Start_Proceeds)"
    and "activate_prepare Modern 6 (\<lambda>i. True) (ps_plugin configured_psys) = (p1, None)"
    and "pl_fault (ps_plugin configured_psys) = FC_None" and "\<not> pl_write_fault (ps_plugin configured_psys)"
    and "good_answer (steady_answer example_plugin_client) c example_configuration steady_record 1000001000"
    and "discovers (cl_config c) (steady_answer example_plugin_client)" and "0 < a_now (steady_answer example_plugin_client)"
    and "calibration_override (cl_config c) = None" and "classify_status (raw_status steady_record) \<noteq> SevError"
    and "ft_advances (snd (ft_observe (raw_ft_sequence steady_record) (ft_begin_session (ft_sequence c))))"
    and "to_si_sample (make_sample steady_record (a_now (steady_answer example_plugin_client)) example_configuration) = Inr si"
    and "generation c = 0"
proof -
  obtain c where c: "pl_client example_configured = Some c" "cl_config c = example_plugin_client"
    "start_check False c = (c, Start_Proceeds)" "ft_sequence c = ft_init" "generation c = 0"
    by (rule configured_client)
  obtain p1 where p1: "activate_prepare Modern 6 (\<lambda>i. True) example_configured = (p1, None)"
    using c(1) by (auto simp: activate_prepare_def Let_def)
  obtain si where si: "to_si_sample (make_sample steady_record 1000 example_configuration) = Inr si"
    by (rule steady_converts)
  have n: "a_now (steady_answer example_plugin_client) = 1000" by (simp add: steady_answer_def)
  have cp: "ps_plugin configured_psys = example_configured" "ps_lock configured_psys = Unlocked"
    by (simp_all add: configured_psys_def initial_psys_def)
  have cfg: "receive_timeout (cl_config c) = fone" "calibration_override (cl_config c) = None"
    by (simp_all add: c(2) example_plugin_client_def default_config_def)
  have good: "good_answer (steady_answer example_plugin_client) c example_configuration steady_record 1000001000"
    using steady_good [OF cfg(1), of "\<lambda>k. 1000"] example_plugin_client_valid by (simp add: c(2))
  have rec: "classify_status (raw_status steady_record) \<noteq> SevError"
    "ft_advances (snd (ft_observe (raw_ft_sequence steady_record) (ft_begin_session (ft_sequence c))))"
    by (simp_all add: steady_record_def classify_status_def c(4) ft_observe_def ft_begin_session_def ft_init_def
        ft_advances_def Let_def case_prod_unfold)
  show thesis
    by (rule that [of c p1 si])
      (use c p1 si cfg rec steady_discovers good example_configures(3,4) in \<open>simp_all add: cp n\<close>)
qed

lemma steady_activation:
  obtains s si where "psys_reachable Modern strerror s" and "si \<in> set (pl_buffer (ps_plugin s))"
    and "\<exists>p'. read Modern 5000 (Some si) (\<lambda>i. True) (\<lambda>i. True) (ps_plugin s) = (p', True)
      \<and> pl_axes p' = [fone, fzero, fzero, fzero, fzero, fzero]"
proof -
  obtain c p1 si where ready: "pl_client (ps_plugin configured_psys) = Some c" "ps_lock configured_psys = Unlocked"
    "start_check False c = (c, Start_Proceeds)"
    "activate_prepare Modern 6 (\<lambda>i. True) (ps_plugin configured_psys) = (p1, None)"
    "pl_fault (ps_plugin configured_psys) = FC_None" "\<not> pl_write_fault (ps_plugin configured_psys)"
    "good_answer (steady_answer example_plugin_client) c example_configuration steady_record 1000001000"
    "discovers (cl_config c) (steady_answer example_plugin_client)" "0 < a_now (steady_answer example_plugin_client)"
    "calibration_override (cl_config c) = None" "classify_status (raw_status steady_record) \<noteq> SevError"
    "ft_advances (snd (ft_observe (raw_ft_sequence steady_record) (ft_begin_session (ft_sequence c))))"
    "to_si_sample (make_sample steady_record (a_now (steady_answer example_plugin_client)) example_configuration) = Inr si"
    by (rule steady_setup)
  have n: "a_now (steady_answer example_plugin_client) = 1000" and cal: "calibration example_configuration = example_calibration"
    by (simp_all add: steady_answer_def example_configuration_def)
  have to: "timeout_ns (ps_plugin configured_psys) = timeout_ns example_running"
    by (simp add: timeout_ns_def configured_psys_def example_configures(2) example_runs(2))
  obtain s where s: "rtranclp (psys_step Modern strerror) configured_psys s"
    "timeout_ns (ps_plugin s) = timeout_ns (ps_plugin configured_psys)"
    and r: "\<exists>si' \<in> set (pl_buffer (ps_plugin s)). \<forall>now ok ok'. now - 1000 \<le> timeout_ns (ps_plugin s) \<and> (\<forall>i. ok i) \<longrightarrow>
        (\<exists>p'. read Modern now (Some si') ok ok' (ps_plugin s) = (p', True)
          \<and> pl_axes p' = si_axes example_calibration steady_record)"
    using activation_run [OF configured_reachable ready, unfolded n cal] by metis
  from r obtain si' where "si' \<in> set (pl_buffer (ps_plugin s))"
    and "\<exists>p'. read Modern 5000 (Some si') (\<lambda>i. True) (\<lambda>i. True) (ps_plugin s) = (p', True)
      \<and> pl_axes p' = [fone, fzero, fzero, fzero, fzero, fzero]"
    unfolding s(2) to example_timeout steady_axes by force
  then show thesis using that [of s si'] psys_reachable_steps [OF s(1) configured_reachable] by simp
qed

end
