(* ===== verification/Ros_Nodes.thy ===== *)
theory Ros_Nodes
  imports Adapter_Config Unit_Conversion Client_Lifecycle
begin

text \<open>
  The two standalone nodes, \<open>src/ros1_node.cpp\<close> and \<open>src/ros2_node.cpp\<close>: reading the
  parameters, building the node, publishing a sample, the bias service, the diagnostics
  timer and the exit code. The parameter servers are parameters of the model: in ROS 2 a
  declaration answers with a value or throws, in ROS 1 a lookup answers with a value, the
  fallback included. Publishers and timers are the values they are given.
\<close>

section \<open>Parameters\<close>

text \<open>\<open>declare_parameter\<close> and \<open>NodeHandle::param\<close>, by the type of the parameter.\<close>

record ros2_parameters =
  declare_string :: "string \<Rightarrow> string \<Rightarrow> string result"
  declare_int :: "string \<Rightarrow> int \<Rightarrow> int result"
  declare_bool :: "string \<Rightarrow> bool \<Rightarrow> bool result"
  declare_double :: "string \<Rightarrow> fp \<Rightarrow> fp result"

record ros1_parameters =
  param_string :: "string \<Rightarrow> string \<Rightarrow> string"
  param_int :: "string \<Rightarrow> int \<Rightarrow> int"
  param_bool :: "string \<Rightarrow> bool \<Rightarrow> bool"
  param_double :: "string \<Rightarrow> fp \<Rightarrow> fp"

definition ros2_read_parameters :: "ros2_parameters \<Rightarrow> adapter_parameters result" where
  "ros2_read_parameters ps =
     and_then (declare_string ps ''sensor_ip'' (ap_sensor_ip default_parameters)) (\<lambda>ip.
     and_then (declare_int ps ''sensor_port'' (ap_sensor_port default_parameters)) (\<lambda>port.
     and_then (declare_int ps ''http_port'' (ap_http_port default_parameters)) (\<lambda>http.
     and_then (declare_string ps ''frame_id'' (ap_frame_id default_parameters)) (\<lambda>frame.
     and_then (declare_string ps ''wrench_topic'' (ap_wrench_topic default_parameters)) (\<lambda>wrench.
     and_then (declare_string ps ''bias_service'' (ap_bias_service default_parameters)) (\<lambda>service.
     and_then (declare_bool ps ''allow_bias'' (ap_allow_bias default_parameters)) (\<lambda>allow.
     and_then (declare_bool ps ''use_sensor_calibration'' (ap_use_sensor_calibration default_parameters)) (\<lambda>use.
     and_then (declare_double ps ''counts_per_force'' (ap_counts_per_force default_parameters)) (\<lambda>cpf.
     and_then (declare_double ps ''counts_per_torque'' (ap_counts_per_torque default_parameters)) (\<lambda>cpt.
     and_then (declare_double ps ''publish_rate'' (ap_publish_rate default_parameters)) (\<lambda>publish.
     and_then (declare_double ps ''receive_timeout'' (ap_receive_timeout default_parameters)) (\<lambda>receive.
     and_then (declare_double ps ''configuration_connect_timeout'' (ap_configuration_connect_timeout default_parameters)) (\<lambda>connect.
     and_then (declare_double ps ''configuration_timeout'' (ap_configuration_timeout default_parameters)) (\<lambda>total.
     and_then (declare_double ps ''reconnect_initial_delay'' (ap_reconnect_initial_delay default_parameters)) (\<lambda>initial_delay.
     and_then (declare_double ps ''reconnect_max_delay'' (ap_reconnect_max_delay default_parameters)) (\<lambda>max_delay.
     and_then (declare_double ps ''diagnostics_rate'' (ap_diagnostics_rate default_parameters)) (\<lambda>diagnostics.
     and_then (declare_double ps ''expected_rdt_rate'' (ap_expected_rdt_rate default_parameters)) (\<lambda>expected.
     and_then (declare_double ps ''rate_tolerance'' (ap_rate_tolerance default_parameters)) (\<lambda>tol.
     and_then (declare_bool ps ''publish_on_error'' (ap_publish_on_error default_parameters)) (\<lambda>on_error.
     Inr
      \<lparr>ap_sensor_ip = ip, ap_sensor_port = port, ap_http_port = http,
       ap_frame_id = frame, ap_wrench_topic = wrench, ap_bias_service = service,
       ap_allow_bias = allow, ap_use_sensor_calibration = use, ap_counts_per_force = cpf,
       ap_counts_per_torque = cpt, ap_publish_rate = publish, ap_receive_timeout = receive,
       ap_configuration_connect_timeout = connect, ap_configuration_timeout = total, ap_reconnect_initial_delay = initial_delay,
       ap_reconnect_max_delay = max_delay, ap_diagnostics_rate = diagnostics, ap_expected_rdt_rate = expected,
       ap_rate_tolerance = tol, ap_publish_on_error = on_error\<rparr>))))))))))))))))))))"

definition ros1_read_parameters :: "ros1_parameters \<Rightarrow> adapter_parameters" where
  "ros1_read_parameters ps =
     \<lparr>ap_sensor_ip = param_string ps ''sensor_ip'' (ap_sensor_ip default_parameters),
      ap_sensor_port = param_int ps ''sensor_port'' (ap_sensor_port default_parameters),
      ap_http_port = param_int ps ''http_port'' (ap_http_port default_parameters),
      ap_frame_id = param_string ps ''frame_id'' (ap_frame_id default_parameters),
      ap_wrench_topic = param_string ps ''wrench_topic'' (ap_wrench_topic default_parameters),
      ap_bias_service = param_string ps ''bias_service'' (ap_bias_service default_parameters),
      ap_allow_bias = param_bool ps ''allow_bias'' (ap_allow_bias default_parameters),
      ap_use_sensor_calibration = param_bool ps ''use_sensor_calibration'' (ap_use_sensor_calibration default_parameters),
      ap_counts_per_force = param_double ps ''counts_per_force'' (ap_counts_per_force default_parameters),
      ap_counts_per_torque = param_double ps ''counts_per_torque'' (ap_counts_per_torque default_parameters),
      ap_publish_rate = param_double ps ''publish_rate'' (ap_publish_rate default_parameters),
      ap_receive_timeout = param_double ps ''receive_timeout'' (ap_receive_timeout default_parameters),
      ap_configuration_connect_timeout = param_double ps ''configuration_connect_timeout'' (ap_configuration_connect_timeout default_parameters),
      ap_configuration_timeout = param_double ps ''configuration_timeout'' (ap_configuration_timeout default_parameters),
      ap_reconnect_initial_delay = param_double ps ''reconnect_initial_delay'' (ap_reconnect_initial_delay default_parameters),
      ap_reconnect_max_delay = param_double ps ''reconnect_max_delay'' (ap_reconnect_max_delay default_parameters),
      ap_diagnostics_rate = param_double ps ''diagnostics_rate'' (ap_diagnostics_rate default_parameters),
      ap_expected_rdt_rate = param_double ps ''expected_rdt_rate'' (ap_expected_rdt_rate default_parameters),
      ap_rate_tolerance = param_double ps ''rate_tolerance'' (ap_rate_tolerance default_parameters),
      ap_publish_on_error = param_bool ps ''publish_on_error'' (ap_publish_on_error default_parameters)\<rparr>"

section \<open>The node\<close>

record node =
  nd_config :: adapter_config
  nd_client :: client
  nd_evaluator :: evaluator
  nd_bias_service :: bool

text \<open>What \<open>read_config\<close> keeps in the members of the node: the mapped parameters.\<close>

definition ros2_read_config :: "(nat \<Rightarrow> ticks) \<Rightarrow> ros2_parameters \<Rightarrow> adapter_config result" where
  "ros2_read_config now ps = and_then (ros2_read_parameters ps) (map_adapter_parameters now)"

definition ros1_read_config :: "(nat \<Rightarrow> ticks) \<Rightarrow> ros1_parameters \<Rightarrow> adapter_config result" where
  "ros1_read_config now ps = map_adapter_parameters now (ros1_read_parameters ps)"

text \<open>
  The constructors: the configuration builds the client and the evaluator, then the ROS
  resources are created, which may throw (\<open>created\<close>). The clock readings are those of the
  mapping and of the client's constructor.
\<close>

definition ros2_node ::
  "(nat \<Rightarrow> ticks) \<Rightarrow> (nat \<Rightarrow> ticks) \<Rightarrow> unit result \<Rightarrow> ros2_parameters \<Rightarrow> node result" where
  "ros2_node now now' created ps =
     and_then (ros2_read_config now ps) (\<lambda>m.
     and_then (client_init now' (ac_client m)) (\<lambda>c.
     and_then (evaluator_init (ac_expected_rdt_rate m) (ac_rate_tolerance m)) (\<lambda>ev.
     and_then created (\<lambda>_.
     Inr \<lparr>nd_config = m, nd_client = c, nd_evaluator = ev, nd_bias_service = ac_allow_bias m\<rparr>))))"

definition ros1_node ::
  "(nat \<Rightarrow> ticks) \<Rightarrow> (nat \<Rightarrow> ticks) \<Rightarrow> unit result \<Rightarrow> ros1_parameters \<Rightarrow> node result" where
  "ros1_node now now' created ps =
     and_then (ros1_read_config now ps) (\<lambda>m.
     and_then (client_init now' (ac_client m)) (\<lambda>c.
     and_then (evaluator_init (ac_expected_rdt_rate m) (ac_rate_tolerance m)) (\<lambda>ev.
     and_then created (\<lambda>_.
     Inr \<lparr>nd_config = m, nd_client = c, nd_evaluator = ev, nd_bias_service = ac_allow_bias m\<rparr>))))"

record wrench_message =
  wm_stamp :: ticks
  wm_frame_id :: string
  wm_force :: "fp list"
  wm_torque :: "fp list"

definition publish_wrench :: "ticks \<Rightarrow> sample \<Rightarrow> node \<Rightarrow> wrench_message result" where
  "publish_wrench stamp s n =
     and_then (to_si_sample s) (\<lambda>si.
     Inr \<lparr>wm_stamp = stamp, wm_frame_id = ac_frame_id (nd_config n),
          wm_force = [si_force si ! 0, si_force si ! 1, si_force si ! 2],
          wm_torque = [si_torque si ! 0, si_torque si ! 1, si_torque si ! 2]\<rparr>)"

definition ros1_publish_wrench :: "ticks \<Rightarrow> sample \<Rightarrow> node \<Rightarrow> wrench_message result" where
  "ros1_publish_wrench stamp s n =
     (case to_si_sample s of
        Inl e \<Rightarrow> Inl e
      | Inr si \<Rightarrow>
          Inr \<lparr>wm_stamp = stamp, wm_frame_id = ac_frame_id (nd_config n),
               wm_force = [si_force si ! 0, si_force si ! 1, si_force si ! 2],
               wm_torque = [si_torque si ! 0, si_torque si ! 1, si_torque si ! 2]\<rparr>)"

text \<open>The answer of the bias service; in ROS 1 the handler also says that it answered.\<close>

definition node_bias ::
  "(int \<Rightarrow> string) \<Rightarrow> os_count \<Rightarrow> os_count \<Rightarrow> node \<Rightarrow> node \<times> bool \<times> string" where
  "node_bias strerror answer1 answer2 n =
     (case bias strerror answer1 answer2 (nd_client n) of
        (c, Inr _) \<Rightarrow> (n\<lparr>nd_client := c\<rparr>, True, ''software bias command sent and RDT streaming restarted'')
      | (c, Inl e) \<Rightarrow> (n\<lparr>nd_client := c\<rparr>, False, what e))"

definition ros1_handle_bias ::
  "(int \<Rightarrow> string) \<Rightarrow> os_count \<Rightarrow> os_count \<Rightarrow> node \<Rightarrow> node \<times> (bool \<times> string) \<times> bool" where
  "ros1_handle_bias strerror answer1 answer2 n =
     (let (c, r) = bias strerror answer1 answer2 (nd_client n);
          response = (case r of Inr u \<Rightarrow> (True, ''software bias command sent and RDT streaming restarted'')
                              | Inl e \<Rightarrow> (False, what e))
      in (n\<lparr>nd_client := c\<rparr>, response, True))"

record node_status =
  ns_level :: int
  ns_name :: string
  ns_message :: string
  ns_hardware_id :: string
  ns_values :: "(string \<times> string) list"

definition node_diagnostics :: "ticks \<Rightarrow> node \<Rightarrow> node \<times> node_status" where
  "node_diagnostics now n =
     (let (c, snapshot) = take_health now (nd_client n);
          (ev, r) = evaluate snapshot (nd_evaluator n)
      in (n\<lparr>nd_client := c, nd_evaluator := ev\<rparr>,
          \<lparr>ns_level = level r, ns_name = ''netft_driver: connection'', ns_message = message r,
           ns_hardware_id = h_sensor_host snapshot @ '':'' @ dec_of_int (h_rdt_port snapshot),
           ns_values = report_values r\<rparr>))"

definition ros1_publish_diagnostics :: "ticks \<Rightarrow> node \<Rightarrow> node \<times> node_status" where
  "ros1_publish_diagnostics now n =
     (let (c, snapshot) = take_health now (nd_client n);
          (ev, r) = evaluate snapshot (nd_evaluator n)
      in (n\<lparr>nd_client := c, nd_evaluator := ev\<rparr>,
          \<lparr>ns_level = level r, ns_name = ''netft_driver: connection'', ns_message = message r,
           ns_hardware_id = h_sensor_host snapshot @ '':'' @ dec_of_int (h_rdt_port snapshot),
           ns_values = report_values r\<rparr>))"

text \<open>
  \<open>main\<close>: building or starting the node may throw, which is reported with exit code 2;
  \<open>spun\<close> is how \<open>start\<close> and the spinning of the executor end.
\<close>

definition ros1_main :: "node result \<Rightarrow> (node \<Rightarrow> unit result) \<Rightarrow> int \<times> string option" where
  "ros1_main built spun =
     (case and_then built spun of
        Inr _ \<Rightarrow> (0, None)
      | Inl e \<Rightarrow> (2, Some (''invalid Net F/T configuration: '' @ what e)))"

text \<open>In ROS 2 a node that was built is stopped on every way out: the third component.\<close>

definition ros2_main :: "node result \<Rightarrow> (node \<Rightarrow> unit result) \<Rightarrow> int \<times> string option \<times> bool" where
  "ros2_main built spun =
     (case built of
        Inl e \<Rightarrow> (2, Some (''invalid Net F/T configuration: '' @ what e), False)
      | Inr n \<Rightarrow>
          (case spun n of
             Inl e \<Rightarrow> (2, Some (''invalid Net F/T configuration: '' @ what e), True)
           | Inr _ \<Rightarrow> (0, None, True)))"

section \<open>What the nodes guarantee\<close>

text \<open>With nothing set on the server both nodes run on the documented defaults.\<close>

lemma unset_parameters_are_defaults:
  "ros2_read_parameters \<lparr>declare_string = \<lambda>n v. Inr v, declare_int = \<lambda>n v. Inr v,
     declare_bool = \<lambda>n v. Inr v, declare_double = \<lambda>n v. Inr v\<rparr> = Inr default_parameters"
  "ros1_read_parameters \<lparr>param_string = \<lambda>n v. v, param_int = \<lambda>n v. v,
     param_bool = \<lambda>n v. v, param_double = \<lambda>n v. v\<rparr> = default_parameters"
  by (simp_all add: ros2_read_parameters_def ros1_read_parameters_def)

text \<open>Both nodes read the same parameters: a ROS 2 server that never throws answers as in ROS 1.\<close>

lemma nodes_read_alike:
  "ros2_read_parameters \<lparr>declare_string = \<lambda>n v. Inr (param_string ps n v), declare_int = \<lambda>n v. Inr (param_int ps n v),
     declare_bool = \<lambda>n v. Inr (param_bool ps n v), declare_double = \<lambda>n v. Inr (param_double ps n v)\<rparr>
   = Inr (ros1_read_parameters ps)"
  by (simp add: ros2_read_parameters_def ros1_read_parameters_def)

text \<open>The rest of the two files does the same thing on either framework.\<close>

lemma nodes_act_alike:
  "ros2_node now now' created \<lparr>declare_string = \<lambda>n v. Inr (param_string ps n v), declare_int = \<lambda>n v. Inr (param_int ps n v),
     declare_bool = \<lambda>n v. Inr (param_bool ps n v), declare_double = \<lambda>n v. Inr (param_double ps n v)\<rparr>
   = ros1_node now now' created ps"
  "ros1_publish_wrench stamp s n = publish_wrench stamp s n"
  "ros1_handle_bias strerror a1 a2 n = (let (n', ok, m) = node_bias strerror a1 a2 n in (n', (ok, m), True))"
  "ros1_publish_diagnostics t n = node_diagnostics t n"
  by (simp_all add: ros2_node_def ros1_node_def ros2_read_config_def ros1_read_config_def nodes_read_alike
      ros1_publish_wrench_def publish_wrench_def ros1_handle_bias_def node_bias_def
      ros1_publish_diagnostics_def node_diagnostics_def Let_def split: sum.split prod.split)

text \<open>
  Parameters that were accepted build a node, unless the clock has moved so far that a
  deadline of the client overflows or the ROS resources cannot be created.
\<close>

lemma ros2_node_Inr:
  assumes "ros2_read_parameters ps = Inr p" and "adapter_ok now p" and "config_ok now' (mapped_client p)"
  shows "\<exists>c ev. ros2_node now now' (Inr ()) ps =
    Inr \<lparr>nd_config = mapped_adapter p, nd_client = c, nd_evaluator = ev, nd_bias_service = ap_allow_bias p\<rparr>"
proof -
  have m: "ros2_read_config now ps = Inr (mapped_adapter p)"
    using assms(1,2) by (simp add: ros2_read_config_def map_adapter_parameters_iff)
  have "validate_config now' (mapped_client p) = Inr ()" using assms(3) by (simp add: validate_config_iff)
  then obtain c where c: "client_init now' (mapped_client p) = Inr c" by (simp add: client_init_def)
  obtain ev where "evaluator_init (ap_expected_rdt_rate p) (ap_rate_tolerance p) = Inr ev"
    using assms(2) by (auto simp: adapter_ok_def)
  then show ?thesis using c by (simp add: ros2_node_def m) (simp add: mapped_adapter_def)
qed

text \<open>A message is published only for a sample that converts, and then it is finite.\<close>

lemma published_wrench:
  assumes "publish_wrench stamp s n = Inr w" and "length (smp_force s) = 3" "length (smp_torque s) = 3"
  shows "wm_frame_id w = ac_frame_id (nd_config n) \<and>
    list_all isfinite (wm_force w) \<and> list_all isfinite (wm_torque w)"
proof -
  obtain si where si: "to_si_sample s = Inr si" and w: "w = \<lparr>wm_stamp = stamp, wm_frame_id = ac_frame_id (nd_config n),
      wm_force = [si_force si ! 0, si_force si ! 1, si_force si ! 2],
      wm_torque = [si_torque si ! 0, si_torque si ! 1, si_torque si ! 2]\<rparr>"
    using assms(1) by (auto simp: publish_wrench_def)
  have l: "length (si_force si) = 3" "length (si_torque si) = 3"
    using to_si_sample_lengths [OF si] assms(2,3) by simp_all
  have "si_sample_is_finite si" using to_si_sample_result [of s] by (simp add: si)
  then have "isfinite (si_force si ! k) \<and> isfinite (si_torque si ! k)" if "k < 3" for k
    using l that by (auto simp: si_sample_is_finite_def list_all_length)
  then show ?thesis by (simp add: w)
qed

end
