(* ===== verification/Node_System.thy ===== *)
theory Node_System
  imports Session_Run Ros_Nodes Concrete_Configs
begin

text \<open>
  A standalone node with its client inside: the worker thread, whose callback publishes, and
  the executor's thread with \<open>start\<close>, \<open>stop\<close>, the bias service and the diagnostics timer,
  interleaved. Both nodes act alike, so the relation speaks of either. It composes
  \<open>Ros_Nodes\<close>, \<open>Client_Lifecycle\<close>, \<open>Discovery\<close> and \<open>Unit_Conversion\<close>; no further code is
  modelled.
\<close>

section \<open>The composed system\<close>

record nsys =
  nn_node :: node
  nn_worker :: worker
  nn_lock :: lifecycle_lock
  nn_joins :: bool
  nn_published :: "wrench_message list"
  nn_trace :: "event list"

definition node_sys :: "nsys \<Rightarrow> sys" where
  "node_sys s = \<lparr>s_client = nd_client (nn_node s), s_worker = nn_worker s, s_lock = nn_lock s, s_stop_joins = nn_joins s\<rparr>"

text \<open>The callback publishes the sample, or throws what the conversion throws.\<close>

definition node_called_back :: "ticks \<Rightarrow> answer \<Rightarrow> pc \<Rightarrow> node \<Rightarrow> wrench_message list \<times> answer" where
  "node_called_back stamp ans place n =
     (case place of
        InCallback smp out d \<Rightarrow>
          (case publish_wrench stamp smp n of
             Inr w \<Rightarrow> ([w], ans\<lparr>a_callback := Returned\<rparr>)
           | Inl e \<Rightarrow> ([], ans\<lparr>a_callback := Threw (what e)\<rparr>))
      | _ \<Rightarrow> ([], ans))"

definition node_worker :: "(int \<Rightarrow> string) \<Rightarrow> ticks \<Rightarrow> answer \<Rightarrow> nsys \<Rightarrow> nsys" where
  "node_worker strerror stamp ans s =
     (let n = nn_node s;
          (ws, ans') = node_called_back stamp ans (pc_at (nn_worker s)) n;
          (c', w') = worker_step strerror ans' (nd_client n, nn_worker s)
      in s\<lparr>nn_node := n\<lparr>nd_client := c'\<rparr>, nn_worker := w', nn_published := ws @ nn_published s,
           nn_trace := worker_events strerror ans' (nd_client n, nn_worker s) @ nn_trace s\<rparr>)"

inductive node_step :: "(int \<Rightarrow> string) \<Rightarrow> nsys \<Rightarrow> nsys \<Rightarrow> bool" for strerror where
  nn_worker_runs: "worker_alive (nd_client (nn_node s)) \<Longrightarrow> discovers (cl_config (nd_client (nn_node s))) ans \<Longrightarrow>
     node_step strerror s (node_worker strerror stamp ans s)"
| nn_client_called: "api_step strerror (node_sys s) y \<Longrightarrow>
     node_step strerror s (s\<lparr>nn_node := (nn_node s)\<lparr>nd_client := s_client y\<rparr>, nn_worker := s_worker y,
       nn_lock := s_lock y, nn_joins := s_stop_joins y\<rparr>)"
| nn_bias_called: "nd_bias_service (nn_node s) \<Longrightarrow> node_bias strerror a1 a2 (nn_node s) = (n, r) \<Longrightarrow>
     node_step strerror s (s\<lparr>nn_node := n\<rparr>)"
| nn_diagnostics_due: "node_diagnostics now (nn_node s) = (n, st) \<Longrightarrow>
     node_step strerror s (s\<lparr>nn_node := n\<rparr>)"

definition node_begins :: "nsys \<Rightarrow> bool" where
  "node_begins s \<longleftrightarrow> (\<exists>now now' ps. ros2_node now now' (Inr ()) ps = Inr (nn_node s))
     \<and> pc_at (nn_worker s) = Exited \<and> nn_lock s = Unlocked \<and> nn_published s = [] \<and> nn_trace s = []"

inductive node_reachable :: "(int \<Rightarrow> string) \<Rightarrow> nsys \<Rightarrow> bool" for strerror where
  nn_begins: "node_begins s \<Longrightarrow> node_reachable strerror s"
| nn_continues: "node_reachable strerror s \<Longrightarrow> node_step strerror s s' \<Longrightarrow> node_reachable strerror s'"

section \<open>The invariant\<close>

definition published_from :: "event list \<Rightarrow> node \<Rightarrow> wrench_message \<Rightarrow> bool" where
  "published_from es n w \<longleftrightarrow>
     (\<exists>smp si. sampled es smp \<and> to_si_sample smp = Inr si \<and> wm_force w = si_force si \<and> wm_torque w = si_torque si
        \<and> wm_frame_id w = ac_frame_id (nd_config n))"

definition node_inv :: "(int \<Rightarrow> string) \<Rightarrow> nsys \<Rightarrow> bool" where
  "node_inv strerror s \<longleftrightarrow>
     reachable strerror (node_sys s)
     \<and> (let n = nn_node s in cl_config (nd_client n) = ac_client (nd_config n)
         \<and> (\<exists>now. validate_config now (ac_client (nd_config n)) = Inr ())
         \<and> traced (nn_trace s) (nd_client n) (nn_worker s)
         \<and> known_trace (ac_client (nd_config n)) (nn_trace s)
         \<and> (\<forall>w \<in> set (nn_published s). published_from (nn_trace s) n w))"

lemma node_sys_fields [simp]:
  "s_client (node_sys s) = nd_client (nn_node s)" "s_worker (node_sys s) = nn_worker s"
  by (simp_all add: node_sys_def)

lemma node_called_sys:
  "node_sys (s\<lparr>nn_node := n\<lparr>nd_client := s_client y\<rparr>, nn_worker := s_worker y, nn_lock := s_lock y, nn_joins := s_stop_joins y\<rparr>) = y"
  by (cases y) (simp add: node_sys_def)

lemma published_mono:
  "published_from es n w \<Longrightarrow> set es \<subseteq> set es' \<Longrightarrow> nd_config n' = nd_config n \<Longrightarrow> published_from es' n' w"
  unfolding published_from_def by (metis sampled_mono)

lemma publish_wrench_from:
  assumes "publish_wrench stamp smp n = Inr w" and "sampled es smp"
  shows "published_from es n w"
proof -
  obtain si where si: "to_si_sample smp = Inr si" and w: "w = \<lparr>wm_stamp = stamp, wm_frame_id = ac_frame_id (nd_config n),
      wm_force = [si_force si ! 0, si_force si ! 1, si_force si ! 2],
      wm_torque = [si_torque si ! 0, si_torque si ! 1, si_torque si ! 2]\<rparr>"
    using assms(1) by (auto simp: publish_wrench_def)
  have "length (si_force si) = 3" "length (si_torque si) = 3"
    using to_si_sample_lengths [OF si] assms(2) by (auto simp: sampled_def make_sample_def Let_def)
  then have "si_force si = [si_force si ! 0, si_force si ! 1, si_force si ! 2]"
    "si_torque si = [si_torque si ! 0, si_torque si ! 1, si_torque si ! 2]"
    by (simp_all add: list_eq_iff_nth_eq eval_nat_numeral less_Suc_eq)
  then show ?thesis unfolding published_from_def using si assms(2) w by auto
qed

lemma node_called_back_from:
  assumes "node_called_back stamp ans place n = (ws, ans')" and "pc_traced es place"
  shows "\<forall>w \<in> set ws. published_from es n w" and "a_discovered ans' = a_discovered ans"
  using assms by (cases place; auto simp: node_called_back_def dest: publish_wrench_from split: sum.splits)+

lemma node_inv_worker:
  assumes "node_inv strerror s" and "worker_alive (nd_client (nn_node s))"
    and "discovers (cl_config (nd_client (nn_node s))) ans"
  shows "node_inv strerror (node_worker strerror stamp ans s)"
proof -
  let ?n = "nn_node s" let ?cw = "(nd_client (nn_node s), nn_worker s)"
  obtain ws ans' where cb: "node_called_back stamp ans (pc_at (nn_worker s)) ?n = (ws, ans')" by force
  obtain c' w' where st: "worker_step strerror ans' ?cw = (c', w')" by force
  let ?es = "worker_events strerror ans' ?cw @ nn_trace s"
  let ?s' = "s\<lparr>nn_node := ?n\<lparr>nd_client := c'\<rparr>, nn_worker := w', nn_published := ws @ nn_published s, nn_trace := ?es\<rparr>"
  have s': "node_worker strerror stamp ans s = ?s'" by (simp add: node_worker_def cb st Let_def)
  have r: "reachable strerror (node_sys s)" and cfg: "cl_config (nd_client ?n) = ac_client (nd_config ?n)"
    and tr: "traced (nn_trace s) (nd_client ?n) (nn_worker s)" and kt: "known_trace (ac_client (nd_config ?n)) (nn_trace s)"
    and pub: "\<forall>w \<in> set (nn_published s). published_from (nn_trace s) ?n w"
    using assms(1) by (simp_all add: node_inv_def Let_def)
  have "pc_traced (nn_trace s) (pc_at (nn_worker s))" using tr by (simp add: traced_def)
  note cbf = node_called_back_from [OF cb this]
  obtain cu where "a_discovered ans' = discover_sensor cu (session_options (ac_client (nd_config ?n)))"
    using assms(3) cbf(2) cfg by (auto simp: discovers_def)
  then have "known_trace (ac_client (nd_config ?n)) ?es" using known_worker [OF kt, of ?cw] cfg by simp
  moreover have "reachable strerror (node_sys ?s')"
  proof (rule reachable_step [OF r])
    show "sys_step strerror (node_sys s) (node_sys ?s')"
      using step_worker [of "node_sys s" strerror ans' c' w'] assms(2) st by (simp add: node_sys_def)
  qed
  moreover have "traced ?es c' w'" using traced_worker [of "nn_trace s" ?cw strerror ans'] tr by (simp add: st)
  moreover have "cl_config c' = cl_config (nd_client ?n)" using worker_config [of strerror ans' ?cw] by (simp add: st)
  moreover have "published_from ?es (?n\<lparr>nd_client := c'\<rparr>) w" if "w \<in> set (ws @ nn_published s)" for w
    using that cbf(1) pub by (auto intro: published_mono [of "nn_trace s" ?n w])
  ultimately show ?thesis using assms(1) by (simp add: s' node_inv_def Let_def)
qed

text \<open>Everything else is a call of the client, after which the evaluator may have changed.\<close>

lemma node_inv_called:
  assumes "node_inv strerror s" and "api_step strerror (node_sys s) (node_sys s')"
    and "nd_config (nn_node s') = nd_config (nn_node s)"
    and "nn_trace s' = nn_trace s" and "nn_published s' = nn_published s"
  shows "node_inv strerror s'"
proof -
  have r: "reachable strerror (node_sys s)" using assms(1) by (simp add: node_inv_def)
  have "reachable strerror (node_sys s')" by (rule reachable_step [OF r step_api [OF assms(2)]])
  moreover have "traced (nn_trace s) (nd_client (nn_node s')) (nn_worker s')"
    using traced_api [OF assms(2)] assms(1) reachable_parts(1) [OF r] by (simp add: node_inv_def Let_def)
  moreover have "cl_config (nd_client (nn_node s')) = cl_config (nd_client (nn_node s))"
    using api_config [OF assms(2)] by simp
  moreover have "published_from (nn_trace s) (nn_node s') w" if "w \<in> set (nn_published s)" for w
    using that assms(1,3) by (auto simp: node_inv_def Let_def intro: published_mono)
  ultimately show ?thesis using assms by (simp add: node_inv_def Let_def)
qed

lemma node_inv_step: "node_step strerror s s' \<Longrightarrow> node_inv strerror s \<Longrightarrow> node_inv strerror s'"
proof (induction rule: node_step.induct)
  case (nn_worker_runs s ans stamp)
  then show ?case by (intro node_inv_worker)
next
  case (nn_client_called s y)
  show ?case by (rule node_inv_called [OF nn_client_called.prems]) (use nn_client_called.hyps in \<open>simp_all add: node_called_sys\<close>)
next
  case (nn_bias_called s a1 a2 n r)
  let ?b = "bias strerror a1 a2 (nd_client (nn_node s))"
  have n: "n = (nn_node s)\<lparr>nd_client := fst ?b\<rparr>"
    using nn_bias_called.hyps(2) by (auto simp: node_bias_def split: prod.splits sum.splits)
  have "api_step strerror (node_sys s) ((node_sys s)\<lparr>s_client := fst ?b\<rparr>)"
    by (rule api_bias [of _ a1 a2 _ _ "snd ?b"]) simp
  then show ?case by (intro node_inv_called [OF nn_bias_called.prems]) (simp_all add: n node_sys_def)
next
  case (nn_diagnostics_due now s n st)
  let ?h = "take_health now (nd_client (nn_node s))"
  obtain ev where n: "n = (nn_node s)\<lparr>nd_client := fst ?h, nd_evaluator := ev\<rparr>"
    using nn_diagnostics_due.hyps by (auto simp: node_diagnostics_def split: prod.splits)
  have "api_step strerror (node_sys s) ((node_sys s)\<lparr>s_client := fst ?h\<rparr>)"
    by (rule api_health [of now _ _ "snd ?h"]) simp
  then show ?case by (intro node_inv_called [OF nn_diagnostics_due.prems]) (simp_all add: n node_sys_def)
qed

lemma node_inv_begins:
  assumes "node_begins s"
  shows "node_inv strerror s"
proof -
  obtain now now' ps where b: "ros2_node now now' (Inr ()) ps = Inr (nn_node s)"
    using assms by (auto simp: node_begins_def)
  obtain m c ev where "client_init now' (ac_client m) = Inr c"
    and n: "\<lparr>nd_config = m, nd_client = c, nd_evaluator = ev, nd_bias_service = ac_allow_bias m\<rparr> = nn_node s"
    using b by (auto simp: ros2_node_def)
  then have c: "client_init now' (ac_client (nd_config (nn_node s))) = Inr c" "nd_client (nn_node s) = c"
    by (simp_all flip: n)
  then have "initial (node_sys s)" using assms by (auto simp: initial_def node_begins_def node_sys_def)
  then have "reachable strerror (node_sys s)" by (rule reachable_initial)
  moreover have "cl_config c = ac_client (nd_config (nn_node s))" "latest c = None" "sensor_configuration (health c) = None"
    "validate_config now' (ac_client (nd_config (nn_node s))) = Inr ()"
    using c(1) by (auto simp: client_init_def default_health_def)
  ultimately show ?thesis
    using assms c(2) by (auto simp: node_inv_def node_begins_def traced_def known_trace_def Let_def)
qed

lemma node_reachable_inv: "node_reachable strerror s \<Longrightarrow> node_inv strerror s"
  by (induction rule: node_reachable.induct) (simp_all add: node_inv_begins node_inv_step)

section \<open>From the datagram to the message\<close>

lemma published_pipeline:
  assumes "node_reachable strerror s" and "w \<in> set (nn_published s)"
  shows "\<exists>bytes rec received_at cfg.
    Got bytes \<in> set (nn_trace s) \<and> decode_record (Some bytes) 36 = Inr rec
    \<and> Accepted rec received_at \<in> set (nn_trace s)
    \<and> known_configuration (ac_client (nd_config (nn_node s))) cfg
    \<and> validate_calibration (calibration cfg) = Inr ()
    \<and> wm_force w @ wm_torque w = si_axes (calibration cfg) rec
    \<and> list_all isfinite (wm_force w @ wm_torque w)
    \<and> wm_frame_id w = ac_frame_id (nd_config (nn_node s))"
proof -
  have inv: "node_inv strerror s" by (rule node_reachable_inv [OF assms(1)])
  then obtain now where v: "validate_config now (ac_client (nd_config (nn_node s))) = Inr ()"
    and kt: "known_trace (ac_client (nd_config (nn_node s))) (nn_trace s)" by (auto simp: node_inv_def Let_def)
  obtain smp si where smp: "sampled (nn_trace s) smp" and si: "to_si_sample smp = Inr si"
    and w: "wm_force w = si_force si" "wm_torque w = si_torque si" "wm_frame_id w = ac_frame_id (nd_config (nn_node s))"
    using inv assms(2) by (auto simp: node_inv_def Let_def published_from_def)
  obtain bytes rec received_at cfg cal where b: "Got bytes \<in> set (nn_trace s)" "Accepted rec received_at \<in> set (nn_trace s)"
    "decode_record (Some bytes) 36 = Inr rec" and m: "smp = make_sample rec received_at cfg"
    and cal: "calibration cfg = cal" "validate_calibration cal = Inr ()"
    and k: "\<exists>cfg'. known_configuration (ac_client (nd_config (nn_node s))) cfg' \<and> calibration cfg' = cal"
    by (rule sampled_known [OF smp kt v])
  have fin: "si_sample_is_finite si" using to_si_sample_result [of smp] by (simp add: si)
  have "length (si_force si) = length (si_torque si)" using to_si_sample_lengths [OF si] by simp
  then have "list_all isfinite (si_force si @ si_torque si)"
    using fin by (auto simp: si_sample_is_finite_def list_all_length nth_append)
  then show ?thesis using b k cal w converted_axes(1) [OF si [unfolded m]] by metis
qed

section \<open>A node that publishes\<close>

lemma run_node_quiet:
  assumes "length as \<le> callback_distance (pc_at (nn_worker s))"
    and "run_worker strerror as (nd_client (nn_node s), nn_worker s) = (c', w')"
  shows "\<exists>t. fold (node_worker strerror stamp) as s =
    s\<lparr>nn_node := (nn_node s)\<lparr>nd_client := c'\<rparr>, nn_worker := w', nn_trace := t\<rparr>"
  using assms
proof (induction as arbitrary: s)
  case Nil
  then have "s\<lparr>nn_node := (nn_node s)\<lparr>nd_client := c'\<rparr>, nn_worker := w', nn_trace := nn_trace s\<rparr> = s" by (cases s) simp
  then show ?case by (intro exI [of _ "nn_trace s"]) simp
next
  case (Cons a as)
  let ?cw = "(nd_client (nn_node s), nn_worker s)"
  obtain c1 w1 where 1: "worker_step strerror a ?cw = (c1, w1)" by force
  have "callback_distance (pc_at (nn_worker s)) \<noteq> 0" using Cons.prems(1) by simp
  then have "node_called_back stamp a (pc_at (nn_worker s)) n = ([], a)" for n
    by (auto simp: node_called_back_def split: pc.split)
  then have s1: "node_worker strerror stamp a s = s\<lparr>nn_node := (nn_node s)\<lparr>nd_client := c1\<rparr>, nn_worker := w1,
      nn_trace := worker_events strerror a ?cw @ nn_trace s\<rparr>" (is "_ = ?s1")
    using 1 by (simp add: node_worker_def Let_def)
  have "length as \<le> callback_distance (pc_at w1)"
    using Cons.prems(1) callback_distance_step [of ?cw strerror a] 1 by simp
  then show ?case using Cons.IH [of ?s1] Cons.prems(2) 1 s1 by simp
qed

lemma run_node_reachable:
  assumes "node_reachable strerror s" and "worker_alive (nd_client (nn_node s))"
    and "list_all (discovers (cl_config (nd_client (nn_node s)))) as"
  shows "node_reachable strerror (fold (node_worker strerror stamp) as s)"
  using assms
proof (induction as arbitrary: s)
  case (Cons a as)
  let ?cw = "(nd_client (nn_node s), nn_worker s)"
  obtain ws a' where cb: "node_called_back stamp a (pc_at (nn_worker s)) (nn_node s) = (ws, a')" by force
  have 1: "nd_client (nn_node (node_worker strerror stamp a s)) = fst (worker_step strerror a' ?cw)"
    by (simp add: node_worker_def cb case_prod_unfold Let_def)
  have "node_reachable strerror (node_worker strerror stamp a s)"
    using Cons.prems by (intro nn_continues [OF Cons.prems(1)] nn_worker_runs) simp_all
  then show ?case
    using Cons.IH [of "node_worker strerror stamp a s"] Cons.prems(2,3) alive_step [of strerror a' ?cw]
      worker_config [of strerror a' ?cw] by (simp add: 1)
qed simp

lemma node_run:
  assumes "node_reachable strerror s" and "nd_client (nn_node s) = c" and "nn_lock s = Unlocked"
    and "start_check False c = (c, Start_Proceeds)"
    and "good_answer ans c cfg rec deadline" and "discovers (cl_config c) ans"
    and "calibration_override (cl_config c) = None" and "classify_status (raw_status rec) \<noteq> SevError"
    and "ft_advances (snd (ft_observe (raw_ft_sequence rec) (ft_begin_session (ft_sequence c))))"
    and "to_si_sample (make_sample rec (a_now ans) cfg) = Inr si"
  shows "\<exists>s' w. node_reachable strerror s' \<and> w \<in> set (nn_published s') \<and> wm_stamp w = stamp
    \<and> nd_config (nn_node s') = nd_config (nn_node s)"
proof -
  let ?s1 = "s\<lparr>nn_node := (nn_node s)\<lparr>nd_client := started c\<rparr>, nn_worker := worker_start c\<rparr>"
  have "api_step strerror (node_sys s) ((node_sys s)\<lparr>s_client := started c, s_worker := worker_start c\<rparr>)"
    unfolding started_def by (rule api_start [of _ False]) (use assms(2-4) in \<open>simp_all add: node_sys_def\<close>)
  from nn_client_called [OF this] have "node_step strerror s ?s1" by (simp add: node_sys_def)
  then have r1: "node_reachable strerror ?s1" by (rule nn_continues [OF assms(1)])
  obtain c1 w1 cfg' where run: "run_worker strerror (replicate 17 ans) (started c, worker_start c) = (c1, w1)"
    and pc: "pc_at w1 = InCallback (make_sample rec (a_now ans) cfg') None deadline"
    and cal: "calibration cfg' = calibration cfg"
    by (rule fresh_session_sample [OF assms(5,7-9)])
  have "\<exists>t. fold (node_worker strerror stamp) (replicate 17 ans) ?s1 =
      ?s1\<lparr>nn_node := (nn_node ?s1)\<lparr>nd_client := c1\<rparr>, nn_worker := w1, nn_trace := t\<rparr>"
    by (rule run_node_quiet) (use run in \<open>simp_all add: worker_start_def\<close>)
  then obtain t where t: "fold (node_worker strerror stamp) (replicate 17 ans) ?s1 =
      ?s1\<lparr>nn_node := (nn_node ?s1)\<lparr>nd_client := c1\<rparr>, nn_worker := w1, nn_trace := t\<rparr>" (is "_ = ?s2") by blast
  have si: "to_si_sample (make_sample rec (a_now ans) cfg') = Inr (si\<lparr>si_configuration_revision := revision cfg'\<rparr>)"
    using to_si_sample_revision [OF assms(10)] make_sample_calibration [OF cal] by simp
  obtain w where w: "publish_wrench stamp (make_sample rec (a_now ans) cfg') n = Inr w" "wm_stamp w = stamp"
    if "n = nn_node ?s2" for n by (simp add: publish_wrench_def si)
  let ?s3 = "node_worker strerror stamp ans ?s2"
  have "fold (node_worker strerror stamp) (replicate 18 ans) ?s1 = ?s3"
    using t by (simp add: eval_nat_numeral)
  moreover have "node_reachable strerror (fold (node_worker strerror stamp) (replicate 18 ans) ?s1)"
    by (rule run_node_reachable [OF r1]) (use assms(6) started_alive in \<open>simp_all add: list_all_iff\<close>)
  moreover have "nn_published ?s3 = w # nn_published s" "nd_config (nn_node ?s3) = nd_config (nn_node s)"
    using w(1) [OF refl] by (simp_all add: node_worker_def node_called_back_def pc case_prod_unfold Let_def)
  ultimately show ?thesis using w(2) [OF refl] by (intro exI [of _ ?s3] exI [of _ w]) simp
qed

section \<open>A concrete node\<close>

definition example_adapter :: adapter_parameters where
  "example_adapter = default_parameters\<lparr>ap_receive_timeout := fone, ap_rate_tolerance := fzero\<rparr>"

text \<open>A server on which only these two parameters are set.\<close>

definition example_server :: ros2_parameters where
  "example_server = \<lparr>declare_string = (\<lambda>n v. Inr v), declare_int = (\<lambda>n v. Inr v), declare_bool = (\<lambda>n v. Inr v),
     declare_double = (\<lambda>n v. Inr (if n = ''receive_timeout'' then fone else if n = ''rate_tolerance'' then fzero else v))\<rparr>"

lemma example_server_read: "ros2_read_parameters example_server = Inr example_adapter"
  by (simp add: ros2_read_parameters_def example_server_def example_adapter_def default_parameters_def)

lemma example_adapter_client:
  "mapped_client example_adapter = default_config\<lparr>receive_timeout := fone, recovery_policy := Reconnect\<rparr>"
  by (simp add: mapped_client_def example_adapter_def default_parameters_def default_config_def)

lemma example_adapter_ok: "adapter_ok (\<lambda>k. 1000) example_adapter"
proof -
  have "config_ok (\<lambda>k. 1000) (mapped_client example_adapter)"
    unfolding example_adapter_client using default_client_valid by (simp add: validate_config_iff)
  moreover have "usable_rate fone"
    using fround_x87_int [of 1000000000 False] usable_rate_iff [of fone]
    by (simp add: bad_period_def period_ns_def fone_def fzero_def ticks_max_def)
  moreover have "\<exists>ev. evaluator_init (Fin False 2000) fzero = Inr ev"
    by (simp add: evaluator_init_iff) (simp add: fzero_def fone_def)
  ultimately show ?thesis
    by (simp add: adapter_ok_def) (simp add: example_adapter_def default_parameters_def all_blank_def is_space_def)
qed

lemma example_node_begins:
  obtains s where "node_begins s" and "client_init (\<lambda>k. 1000) (mapped_client example_adapter) = Inr (nd_client (nn_node s))"
    and "nd_config (nn_node s) = mapped_adapter example_adapter"
proof -
  have "config_ok (\<lambda>k. 1000) (mapped_client example_adapter)" using example_adapter_ok by (simp add: adapter_ok_def)
  from ros2_node_Inr [OF example_server_read example_adapter_ok this]
  obtain c ev where n: "ros2_node (\<lambda>k. 1000) (\<lambda>k. 1000) (Inr ()) example_server =
    Inr \<lparr>nd_config = mapped_adapter example_adapter, nd_client = c, nd_evaluator = ev,
      nd_bias_service = ap_allow_bias example_adapter\<rparr>" (is "_ = Inr ?n") by blast
  have c: "client_init (\<lambda>k. 1000) (mapped_client example_adapter) = Inr c"
    using n by (auto simp: ros2_node_def ros2_read_config_def map_adapter_parameters_iff mapped_adapter_def)
  let ?s = "\<lparr>nn_node = ?n, nn_worker = \<lparr>pc_at = Exited, backoff = fone, valid_seen = False\<rparr>, nn_lock = Unlocked,
     nn_joins = False, nn_published = [], nn_trace = []\<rparr>"
  have "node_begins ?s" using n by (auto simp: node_begins_def)
  then show thesis using that [of ?s] c by simp
qed

lemma steady_node:
  obtains s w where "node_reachable strerror s" and "w \<in> set (nn_published s)" and "wm_stamp w = 77"
    and "nd_config (nn_node s) = mapped_adapter example_adapter"
proof -
  obtain s0 where s0: "node_begins s0" "nd_config (nn_node s0) = mapped_adapter example_adapter"
    and ci: "client_init (\<lambda>k. 1000) (mapped_client example_adapter) = Inr (nd_client (nn_node s0))"
    by (rule example_node_begins)
  obtain c where c: "nd_client (nn_node s0) = c" by blast
  note f = fresh_client [OF ci, unfolded c]
  have cfg: "receive_timeout (cl_config c) = fone" "calibration_override (cl_config c) = None"
    by (simp_all add: f(1) example_adapter_client) (simp add: default_config_def)
  have ft: "ft_advances (snd (ft_observe (raw_ft_sequence steady_record) (ft_begin_session (ft_sequence c))))"
    by (simp add: f(2) ft_observe_def ft_begin_session_def ft_init_def ft_advances_def Let_def case_prod_unfold)
  have st: "classify_status (raw_status steady_record) \<noteq> SevError" by (simp add: steady_record_def classify_status_def)
  obtain si where si: "to_si_sample (make_sample steady_record (a_now (steady_answer (cl_config c))) example_configuration) = Inr si"
    using steady_converts by (auto simp: steady_answer_def)
  have lock: "nn_lock s0 = Unlocked" using s0(1) by (simp add: node_begins_def)
  have good: "good_answer (steady_answer (cl_config c)) c example_configuration steady_record 1000001000"
    using steady_good [OF cfg(1)] f(1,5) by simp
  show thesis
    using node_run [OF nn_begins [OF s0(1)] c lock f(4) good steady_discovers cfg(2) st ft si, of strerror 77] that s0(2)
    by metis
qed

end
