(* ===== verification/Executor_Thread.thy ===== *)
theory Executor_Thread
  imports Hardware_Interface
begin

text \<open>
  The thread of the plugin that spins the auxiliary executor,
  \<open>src/netft_hardware_interface.cpp\<close>: what \<open>start_auxiliary\<close> starts and \<open>stop_auxiliary\<close> joins.
  \<open>testing\<close> says whether the file is compiled with \<open>NETFT_ROS2_CONTROL_TESTING\<close>, which adds the
  counter of threads and two hooks that throw once.
\<close>

section \<open>State\<close>

record test_hooks =
  g_test_return_initial_sample :: bool
  g_test_failed_write_axis :: int
  g_test_throw_executor_cancel :: bool
  g_test_auxiliary_threads :: int
  g_test_throw_executor_spin :: bool

definition hooks_init :: test_hooks where
  "hooks_init = \<lparr>g_test_return_initial_sample = False, g_test_failed_write_axis = -1,
     g_test_throw_executor_cancel = False, g_test_auxiliary_threads = 0, g_test_throw_executor_spin = False\<rparr>"

text \<open>Where the thread is: before its counter, in the loop, in a handler, after its counter.\<close>

datatype aux_pc = Aux_Entered | Aux_Checking | Aux_Hooked | Aux_Spinning | Aux_Caught | Aux_Leaving | Aux_Gone

text \<open>
  One \<open>spin_once\<close>, which returns after twenty milliseconds at the latest: it runs callbacks of
  the service and the timer, and may throw after some of them.
\<close>

datatype spin = Spun "plugin_op list" | Spin_Throws "plugin_op list"

fun executor_op :: "plugin_op \<Rightarrow> bool" where
  "executor_op (Bias_Called strerror a1 a2) = True"
| "executor_op (Diagnostics_Due now) = True"
| "executor_op x = False"

fun spin_ops :: "spin \<Rightarrow> plugin_op list" where
  "spin_ops (Spun ops) = ops"
| "spin_ops (Spin_Throws ops) = ops"

section \<open>The thread\<close>

fun aux_step :: "bool \<Rightarrow> api \<Rightarrow> spin \<Rightarrow> test_hooks \<times> plugin \<times> aux_pc \<Rightarrow> test_hooks \<times> plugin \<times> aux_pc" where
  "aux_step testing a sp (h, p, Aux_Entered) =
     (if testing then h\<lparr>g_test_auxiliary_threads := g_test_auxiliary_threads h + 1\<rparr> else h, p, Aux_Checking)"
| "aux_step testing a sp (h, p, Aux_Checking) =
     (h, p, if pl_stopping p then Aux_Leaving else if testing then Aux_Hooked else Aux_Spinning)"
| "aux_step testing a sp (h, p, Aux_Hooked) =
     (h\<lparr>g_test_throw_executor_spin := False\<rparr>, p,
      if g_test_throw_executor_spin h then Aux_Caught else Aux_Spinning)"
| "aux_step testing a sp (h, p, Aux_Spinning) =
     (h, fold (apply_op a) (spin_ops sp) p, case sp of Spun ops \<Rightarrow> Aux_Checking | Spin_Throws ops \<Rightarrow> Aux_Caught)"
| "aux_step testing a sp (h, p, Aux_Caught) = (h, auxiliary_failed p, Aux_Leaving)"
| "aux_step testing a sp (h, p, Aux_Leaving) =
     (if testing then h\<lparr>g_test_auxiliary_threads := g_test_auxiliary_threads h - 1\<rparr> else h, p, Aux_Gone)"
| "aux_step testing a sp (h, p, Aux_Gone) = (h, p, Aux_Gone)"

fun run_aux :: "bool \<Rightarrow> api \<Rightarrow> spin list \<Rightarrow> test_hooks \<times> plugin \<times> aux_pc \<Rightarrow> test_hooks \<times> plugin \<times> aux_pc" where
  "run_aux testing a [] s = s"
| "run_aux testing a (sp # sps) s = run_aux testing a sps (aux_step testing a sp s)"

text \<open>
  \<open>stop_auxiliary\<close> up to the join: the flag, and the executor cancelled if there is one; an
  exception of \<open>cancel\<close> is dropped. After the join it lets go of the resources.
\<close>

definition stop_auxiliary_begin :: "bool \<Rightarrow> test_hooks \<times> plugin \<Rightarrow> test_hooks \<times> plugin" where
  "stop_auxiliary_begin testing s =
     (case s of (h, p) \<Rightarrow>
       (if testing \<and> pl_evaluator p \<noteq> None then h\<lparr>g_test_throw_executor_cancel := False\<rparr> else h,
        p\<lparr>pl_stopping := True\<rparr>))"

definition stop_auxiliary_end :: "plugin \<Rightarrow> plugin" where
  "stop_auxiliary_end p = p\<lparr>pl_evaluator := None, pl_bias_service := False\<rparr>"

lemma stop_auxiliary_parts: "stop_auxiliary_end (snd (stop_auxiliary_begin testing (h, p))) = stop_auxiliary p"
  by (simp add: stop_auxiliary_begin_def stop_auxiliary_end_def stop_auxiliary_def)

section \<open>The callbacks keep the flag and the latches\<close>

lemma executor_op_keeps:
  assumes "executor_op x"
  shows "pl_stopping (apply_op a x p) = pl_stopping p" and "pl_fault (apply_op a x p) = pl_fault p"
    and "pl_write_fault (apply_op a x p) = pl_write_fault p"
  using assms
  by (cases x; auto simp: handle_bias_def publish_diagnostics_def Let_def split: option.splits prod.splits sum.splits)+

lemma executor_ops_keep:
  assumes "list_all executor_op xs"
  shows "pl_stopping (fold (apply_op a) xs p) = pl_stopping p" and "pl_fault (fold (apply_op a) xs p) = pl_fault p"
    and "pl_write_fault (fold (apply_op a) xs p) = pl_write_fault p"
  using assms by (induction xs arbitrary: p) (simp_all add: executor_op_keeps)

definition spins :: "spin \<Rightarrow> bool" where
  "spins sp \<longleftrightarrow> list_all executor_op (spin_ops sp)"

lemma aux_step_keeps:
  assumes "spins sp" and "aux_step testing a sp (h, p, c) = (h', p', c')"
  shows "pl_stopping p' = pl_stopping p"
    and "pl_stopping p \<or> c \<noteq> Aux_Caught \<Longrightarrow> pl_fault p' = pl_fault p"
    and "pl_write_fault p' = pl_write_fault p"
  using assms
  by (cases c; auto simp: spins_def executor_ops_keep auxiliary_failed_def latch_fatal_fault_def split: if_splits)+

section \<open>Stopping the thread\<close>

fun aux_rank :: "aux_pc \<Rightarrow> nat" where
  "aux_rank Aux_Gone = 0"
| "aux_rank Aux_Leaving = 1"
| "aux_rank Aux_Checking = 2"
| "aux_rank Aux_Caught = 2"
| "aux_rank Aux_Entered = 3"
| "aux_rank Aux_Spinning = 3"
| "aux_rank Aux_Hooked = 4"

lemma aux_rank_step:
  assumes "aux_step testing a sp (h, p, c) = (h', p', c')" and "pl_stopping p"
  shows "aux_rank c' \<le> aux_rank c - 1"
  using assms by (cases c) (auto split: spin.splits if_splits)

lemma run_aux_stops:
  assumes "list_all spins sps" and "pl_stopping p" and "run_aux testing a sps (h, p, c) = (h', p', c')"
  shows "pl_stopping p' \<and> pl_fault p' = pl_fault p \<and> pl_write_fault p' = pl_write_fault p
    \<and> aux_rank c' \<le> aux_rank c - length sps"
  using assms
proof (induction sps arbitrary: h p c)
  case (Cons sp sps)
  obtain h1 p1 c1 where 1: "aux_step testing a sp (h, p, c) = (h1, p1, c1)" by (cases "aux_step testing a sp (h, p, c)")
  note k = aux_step_keeps [OF _ 1] and r = aux_rank_step [OF 1 Cons.prems(2)]
  show ?case using Cons.IH [of p1 h1 c1] Cons.prems k r 1 by auto
qed simp

section \<open>The counter\<close>

fun counted :: "aux_pc \<Rightarrow> int" where
  "counted Aux_Entered = 0"
| "counted Aux_Gone = 0"
| "counted c = 1"

lemma counter_step:
  "aux_step testing a sp (h, p, c) = (h', p', c') \<Longrightarrow>
     g_test_auxiliary_threads h' - (if testing then counted c' else 0)
       = g_test_auxiliary_threads h - (if testing then counted c else 0)"
  by (cases c) (auto split: spin.splits if_splits)

lemma run_aux_counter:
  "run_aux testing a sps (h, p, c) = (h', p', c') \<Longrightarrow>
     g_test_auxiliary_threads h' - (if testing then counted c' else 0)
       = g_test_auxiliary_threads h - (if testing then counted c else 0)"
proof (induction sps arbitrary: h p c)
  case (Cons sp sps)
  obtain h1 p1 c1 where 1: "aux_step testing a sp (h, p, c) = (h1, p1, c1)" by (cases "aux_step testing a sp (h, p, c)")
  then show ?case using Cons.IH [of h1 p1 c1] Cons.prems counter_step [OF 1] by simp
qed simp

section \<open>The production build\<close>

text \<open>It looks at no hook, and the thread never is where the hook is.\<close>

lemma production_step:
  assumes "c \<noteq> Aux_Hooked" and "aux_step False a sp (h, p, c) = (h', p', c')"
  shows "h' = h" and "c' \<noteq> Aux_Hooked"
  using assms by (cases c; auto split: spin.splits if_splits)+



section \<open>A failing executor\<close>

text \<open>An exception while nobody is stopping the thread makes the first fault and ends it.\<close>

lemma executor_failure_latches:
  assumes "\<not> pl_stopping p" and "list_all executor_op ops"
  shows "run_aux testing a [Spin_Throws ops, sp] (h, p, Aux_Spinning)
      = (h, latch_fatal_fault FC_Callback (fold (apply_op a) ops p), Aux_Leaving)"
  using assms by (simp add: auxiliary_failed_def executor_ops_keep)

end
