(* ===== verification/Test_Access.thy ===== *)
theory Test_Access
  imports Executor_Thread
begin

text \<open>
  The plugin compiled for tests, \<open>src/netft_hardware_interface.cpp\<close> under
  \<open>NETFT_ROS2_CONTROL_TESTING\<close>: the hooks in \<open>read\<close> and \<open>write_axes\<close>, the pointer to the active
  instance, and the functions of \<open>ros2_control_test_access::detail\<close>. The lemmas say that a
  hook only changes an answer the production code has to expect anyway.
\<close>

section \<open>The names of the faults\<close>

datatype test_fault =
    TF_None | TF_SensorConfiguration | TF_Timeout | TF_Socket | TF_SeriousStatus
  | TF_FtStall | TF_FtBackward | TF_MalformedStorm | TF_Callback

fun to_test_fault :: "fault_code \<Rightarrow> test_fault" where
  "to_test_fault FC_None = TF_None"
| "to_test_fault FC_SensorConfiguration = TF_SensorConfiguration"
| "to_test_fault FC_Timeout = TF_Timeout"
| "to_test_fault FC_Socket = TF_Socket"
| "to_test_fault FC_SeriousStatus = TF_SeriousStatus"
| "to_test_fault FC_FtStall = TF_FtStall"
| "to_test_fault FC_FtBackward = TF_FtBackward"
| "to_test_fault FC_MalformedStorm = TF_MalformedStorm"
| "to_test_fault FC_Callback = TF_Callback"

fun to_client_fault :: "test_fault \<Rightarrow> fault_code" where
  "to_client_fault TF_None = FC_None"
| "to_client_fault TF_SensorConfiguration = FC_SensorConfiguration"
| "to_client_fault TF_Timeout = FC_Timeout"
| "to_client_fault TF_Socket = FC_Socket"
| "to_client_fault TF_SeriousStatus = FC_SeriousStatus"
| "to_client_fault TF_FtStall = FC_FtStall"
| "to_client_fault TF_FtBackward = FC_FtBackward"
| "to_client_fault TF_MalformedStorm = FC_MalformedStorm"
| "to_client_fault TF_Callback = FC_Callback"

lemma fault_names_inverse [simp]:
  "to_client_fault (to_test_fault f) = f" "to_test_fault (to_client_fault t) = t"
  by (cases f; simp) (cases t; simp)

lemma to_client_fault_None [simp]: "to_client_fault t = FC_None \<longleftrightarrow> t = TF_None"
  by (cases t) simp_all

section \<open>The hooks of read\<close>

definition tested_sample :: "si_sample option \<Rightarrow> test_hooks \<Rightarrow> test_hooks \<times> si_sample option" where
  "tested_sample current h =
     (h\<lparr>g_test_return_initial_sample := False\<rparr>,
      if g_test_return_initial_sample h then Some empty_si_sample else current)"

fun tested_write_from ::
  "(nat \<Rightarrow> bool) \<Rightarrow> nat \<Rightarrow> fp list \<Rightarrow> test_hooks \<times> fp list \<Rightarrow> test_hooks \<times> fp list \<times> bool" where
  "tested_write_from ok i [] (h, axes) = (h, axes, True)"
| "tested_write_from ok i (v # vs) (h, axes) =
     (if g_test_failed_write_axis h = int i then (h\<lparr>g_test_failed_write_axis := -1\<rparr>, axes, False)
      else if ok i then tested_write_from ok (Suc i) vs (h, axes[i := v]) else (h, axes, False))"

definition tested_write_axes ::
  "api \<Rightarrow> (nat \<Rightarrow> bool) \<Rightarrow> si_sample \<Rightarrow> test_hooks \<times> plugin \<Rightarrow> test_hooks \<times> plugin \<times> bool" where
  "tested_write_axes a ok smp s =
     (let (h, p) = s;
          values = si_force smp @ si_torque smp;
          (h', axes, written) = (if a = Legacy then (h, values, True)
                                 else tested_write_from ok 0 values (h, pl_axes p))
      in (h', p\<lparr>pl_axes := axes\<rparr>, written))"

definition tested_read ::
  "api \<Rightarrow> ticks \<Rightarrow> si_sample option \<Rightarrow> (nat \<Rightarrow> bool) \<Rightarrow> (nat \<Rightarrow> bool) \<Rightarrow> test_hooks \<times> plugin
    \<Rightarrow> test_hooks \<times> plugin \<times> bool" where
  "tested_read a now current ok ok' s =
     (let (h, p) = s;
          (h1, sample) = tested_sample current h;
          (p1, f) = fault_latched p;
          failed = (\<lambda>h p. (h, invalidate_interfaces a ok' p, False))
      in case sample of
           None \<Rightarrow> failed h1 p1
         | Some smp \<Rightarrow>
             if f \<or> pl_write_fault p1 then failed h1 p1
             else if \<not> si_sample_is_finite smp then failed h1 (latch_fatal_fault FC_SensorConfiguration p1)
             else if sample_is_stale now smp p1 then failed h1 (latch_fatal_fault FC_Timeout p1)
             else case tested_write_axes a ok smp (h1, p1) of
                    (h2, p2, True) \<Rightarrow> (h2, p2, True)
                  | (h2, p2, False) \<Rightarrow> failed h2 (p2\<lparr>pl_write_fault := True\<rparr>))"

text \<open>An armed hook is one write that the framework refuses.\<close>

definition hooked :: "test_hooks \<Rightarrow> (nat \<Rightarrow> bool) \<Rightarrow> nat \<Rightarrow> bool" where
  "hooked h ok i \<longleftrightarrow> ok i \<and> int i \<noteq> g_test_failed_write_axis h"

lemma tested_write_from_eq:
  "\<exists>axis \<in> {g_test_failed_write_axis h, -1}.
     tested_write_from ok i vs (h, axes) = (h\<lparr>g_test_failed_write_axis := axis\<rparr>, write_from (hooked h ok) i vs axes)"
  by (induction vs arbitrary: i axes) (auto simp: hooked_def)

lemma tested_write_axes_eq:
  "\<exists>axis \<in> {g_test_failed_write_axis h, -1}.
     tested_write_axes a ok smp (h, p) = (h\<lparr>g_test_failed_write_axis := axis\<rparr>, write_axes a (hooked h ok) smp p)"
proof (cases "a = Legacy")
  case False
  from tested_write_from_eq [of h ok 0 "si_force smp @ si_torque smp" "pl_axes p"]
  show ?thesis using False by (auto simp: tested_write_axes_def write_axes_def case_prod_unfold Let_def)
qed (simp add: tested_write_axes_def write_axes_def)

lemma tested_read_eq:
  "\<exists>axis \<in> {g_test_failed_write_axis h, -1}.
     tested_read a now current ok ok' (h, p) =
       (h\<lparr>g_test_return_initial_sample := False, g_test_failed_write_axis := axis\<rparr>,
        read a now (if g_test_return_initial_sample h then Some empty_si_sample else current) (hooked h ok) ok' p)"
proof -
  let ?h1 = "h\<lparr>g_test_return_initial_sample := False\<rparr>"
  let ?current = "if g_test_return_initial_sample h then Some empty_si_sample else current"
  obtain p1 f where fl: "fault_latched p = (p1, f)" by force
  have same: "hooked ?h1 ok = hooked h ok" "g_test_failed_write_axis ?h1 = g_test_failed_write_axis h"
    by (simp_all add: hooked_def fun_eq_iff)
  have kept: "?h1 = h\<lparr>g_test_return_initial_sample := False, g_test_failed_write_axis := g_test_failed_write_axis h\<rparr>"
    by simp
  show ?thesis
  proof (cases ?current)
    case None
    then show ?thesis using kept by (auto simp: tested_read_def tested_sample_def read_def fl)
  next
    case (Some smp)
    obtain axis where ax: "axis \<in> {g_test_failed_write_axis h, -1}"
      and w: "tested_write_axes a ok smp (?h1, p1) = (?h1\<lparr>g_test_failed_write_axis := axis\<rparr>, write_axes a (hooked h ok) smp p1)"
      using tested_write_axes_eq [of ?h1 a ok smp p1] unfolding same by blast
    obtain p2 b where wa: "write_axes a (hooked h ok) smp p1 = (p2, b)" by force
    have t: "tested_sample current h = (?h1, Some smp)" using Some by (simp add: tested_sample_def)
    show ?thesis
    proof (cases "f \<or> pl_write_fault p1 \<or> \<not> si_sample_is_finite smp \<or> sample_is_stale now smp p1")
      case True
      then show ?thesis unfolding tested_read_def read_def Some using kept by (auto simp: t fl Let_def)
    next
      case False
      then show ?thesis unfolding tested_read_def read_def Some
        by (intro bexI [OF _ ax]) (simp add: t fl w wa split: bool.split)
    qed
  qed
qed


section \<open>The active instance\<close>

text \<open>
  The hooks, the pointer to the instance that was constructed last, and the instances by
  their address. A function that would follow a dangling pointer gives \<open>None\<close>.
\<close>

record test_memory =
  tm_hooks :: test_hooks
  g_test_instance :: "nat option"
  tm_instances :: "nat \<Rightarrow> plugin option"

definition memory_init :: test_memory where
  "memory_init = \<lparr>tm_hooks = hooks_init, g_test_instance = None, tm_instances = Map.empty\<rparr>"

definition constructed :: "nat \<Rightarrow> plugin \<Rightarrow> test_memory \<Rightarrow> test_memory" where
  "constructed this p m = m\<lparr>tm_instances := (tm_instances m)(this \<mapsto> p), g_test_instance := Some this\<rparr>"

definition destructed :: "nat \<Rightarrow> test_memory \<Rightarrow> test_memory" where
  "destructed this m =
     m\<lparr>g_test_instance := (if g_test_instance m = Some this then None else g_test_instance m),
       tm_instances := (tm_instances m)(this := None)\<rparr>"

definition on_instance :: "'a \<Rightarrow> (plugin \<Rightarrow> 'a) \<Rightarrow> test_memory \<Rightarrow> 'a option" where
  "on_instance nothing f m =
     (case g_test_instance m of None \<Rightarrow> Some nothing | Some this \<Rightarrow> map_option f (tm_instances m this))"

definition put_instance :: "plugin \<Rightarrow> test_memory \<Rightarrow> test_memory" where
  "put_instance p m = m\<lparr>tm_instances := (tm_instances m)(the (g_test_instance m) \<mapsto> p)\<rparr>"

section \<open>The access functions\<close>

definition force_initial_sample_once :: "test_memory \<Rightarrow> test_memory" where
  "force_initial_sample_once m = m\<lparr>tm_hooks := (tm_hooks m)\<lparr>g_test_return_initial_sample := True\<rparr>\<rparr>"

text \<open>The axis is cut down to an \<open>int\<close>.\<close>

definition fail_state_write_once_at :: "u64 \<Rightarrow> test_memory \<Rightarrow> test_memory" where
  "fail_state_write_once_at axis m =
     m\<lparr>tm_hooks := (tm_hooks m)\<lparr>g_test_failed_write_axis := sint (ucast axis :: i32)\<rparr>\<rparr>"

definition latch_active_fault :: "test_fault \<Rightarrow> test_memory \<Rightarrow> test_memory option" where
  "latch_active_fault t m = on_instance m (\<lambda>p. put_instance (latch_fatal_fault (to_client_fault t) p) m) m"

definition read_active_instance ::
  "api \<Rightarrow> ticks \<Rightarrow> si_sample option \<Rightarrow> (nat \<Rightarrow> bool) \<Rightarrow> (nat \<Rightarrow> bool) \<Rightarrow> test_memory \<Rightarrow> (test_memory \<times> bool) option" where
  "read_active_instance a now current ok ok' m =
     on_instance (m, False)
       (\<lambda>p. let (h, p', good) = tested_read a now current ok ok' (tm_hooks m, p)
            in ((put_instance p' m)\<lparr>tm_hooks := h\<rparr>, good)) m"

definition active_fault_code :: "test_memory \<Rightarrow> test_fault option" where
  "active_fault_code m =
     on_instance TF_None
       (\<lambda>p. if pl_fault p \<noteq> FC_None then to_test_fault (pl_fault p)
            else case pl_client p of
                   None \<Rightarrow> to_test_fault (pl_fault p)
                 | Some c \<Rightarrow> to_test_fault (latch c)) m"

definition active_client_fault_code :: "test_memory \<Rightarrow> test_fault option" where
  "active_client_fault_code m =
     on_instance TF_None (\<lambda>p. case pl_client p of None \<Rightarrow> TF_None | Some c \<Rightarrow> to_test_fault (latch c)) m"

definition active_latched_fault_code :: "test_memory \<Rightarrow> test_fault option" where
  "active_latched_fault_code m = on_instance TF_None (\<lambda>p. to_test_fault (pl_fault p)) m"

definition active_activity_counters :: "test_memory \<Rightarrow> u64 option" where
  "active_activity_counters m = on_instance 0 pl_generation m"

definition interface_write_fault_latched :: "test_memory \<Rightarrow> bool option" where
  "interface_write_fault_latched m = on_instance False pl_write_fault m"

definition throw_executor_cancel_once :: "test_memory \<Rightarrow> test_memory" where
  "throw_executor_cancel_once m = m\<lparr>tm_hooks := (tm_hooks m)\<lparr>g_test_throw_executor_cancel := True\<rparr>\<rparr>"

definition throw_executor_spin_once :: "test_memory \<Rightarrow> test_memory" where
  "throw_executor_spin_once m = m\<lparr>tm_hooks := (tm_hooks m)\<lparr>g_test_throw_executor_spin := True\<rparr>\<rparr>"

definition auxiliary_thread_count :: "test_memory \<Rightarrow> int" where
  "auxiliary_thread_count m = g_test_auxiliary_threads (tm_hooks m)"

section \<open>No dangling pointer\<close>

text \<open>
  What a test program and the framework do: instances come and go, their callbacks run, the
  access functions are called. \<open>None\<close> is a use of an instance that is gone.
\<close>

datatype access_op =
    Construct nat plugin
  | Destruct nat
  | Callback_Ran nat plugin_op
  | Force_Initial
  | Fail_Write u64
  | Latch_Active test_fault
  | Read_Active ticks "si_sample option" "nat \<Rightarrow> bool" "nat \<Rightarrow> bool"
  | Throw_Cancel
  | Throw_Spin
  | Query

fun access :: "api \<Rightarrow> access_op \<Rightarrow> test_memory \<Rightarrow> test_memory option" where
  "access a (Construct this p) m = Some (constructed this p m)"
| "access a (Destruct this) m = Some (destructed this m)"
| "access a (Callback_Ran this x) m =
     Some (m\<lparr>tm_instances := (tm_instances m)(this := map_option (apply_op a x) (tm_instances m this))\<rparr>)"
| "access a Force_Initial m = Some (force_initial_sample_once m)"
| "access a (Fail_Write axis) m = Some (fail_state_write_once_at axis m)"
| "access a (Latch_Active t) m = latch_active_fault t m"
| "access a (Read_Active now current ok ok') m =
     (case read_active_instance a now current ok ok' m of Some (m', good) \<Rightarrow> Some m' | None \<Rightarrow> None)"
| "access a Throw_Cancel m = Some (throw_executor_cancel_once m)"
| "access a Throw_Spin m = Some (throw_executor_spin_once m)"
| "access a Query m =
     (case (active_fault_code m, active_client_fault_code m, active_latched_fault_code m,
            active_activity_counters m, interface_write_fault_latched m) of
        (Some t, Some t', Some t'', Some n, Some b) \<Rightarrow> Some m
      | _ \<Rightarrow> None)"

fun run_access :: "api \<Rightarrow> access_op list \<Rightarrow> test_memory \<Rightarrow> test_memory option" where
  "run_access a [] m = Some m"
| "run_access a (x # xs) m = (case access a x m of None \<Rightarrow> None | Some m' \<Rightarrow> run_access a xs m')"

definition well_pointed :: "test_memory \<Rightarrow> bool" where
  "well_pointed m \<longleftrightarrow> (case g_test_instance m of None \<Rightarrow> True | Some this \<Rightarrow> tm_instances m this \<noteq> None)"

lemma on_instance_Some: "well_pointed m \<Longrightarrow> \<exists>x. on_instance nothing f m = Some x"
  by (auto simp: well_pointed_def on_instance_def split: option.splits)

lemma well_pointed_put: "well_pointed m \<Longrightarrow> well_pointed (put_instance p m)"
  by (auto simp: well_pointed_def put_instance_def split: option.splits)

lemma well_pointed_init: "well_pointed memory_init"
  by (simp add: well_pointed_def memory_init_def)

lemma latch_active_well_pointed:
  assumes "well_pointed m"
  shows "\<exists>m'. latch_active_fault t m = Some m' \<and> well_pointed m'"
proof (cases "g_test_instance m")
  case None
  then show ?thesis using assms by (simp add: latch_active_fault_def on_instance_def)
next
  case (Some this)
  then obtain p where "tm_instances m this = Some p" using assms by (auto simp: well_pointed_def)
  then show ?thesis using well_pointed_put [OF assms] by (simp add: latch_active_fault_def on_instance_def Some)
qed

lemma read_active_well_pointed:
  assumes "well_pointed m"
  shows "\<exists>m' good. read_active_instance a now current ok ok' m = Some (m', good) \<and> well_pointed m'"
proof (cases "g_test_instance m")
  case None
  then show ?thesis using assms by (auto simp: read_active_instance_def on_instance_def)
next
  case (Some this)
  then obtain p where p: "tm_instances m this = Some p" using assms by (auto simp: well_pointed_def)
  obtain h p' good where r: "tested_read a now current ok ok' (tm_hooks m, p) = (h, p', good)"
    by (cases "tested_read a now current ok ok' (tm_hooks m, p)")
  have "well_pointed ((put_instance p' m)\<lparr>tm_hooks := h\<rparr>)"
    using well_pointed_put [OF assms, of p'] by (simp add: well_pointed_def split: option.splits)
  then show ?thesis by (simp add: read_active_instance_def on_instance_def Some p r)
qed

lemma access_well_pointed:
  assumes "well_pointed m"
  shows "\<exists>m'. access a x m = Some m' \<and> well_pointed m'"
proof (cases x)
  case (Latch_Active t)
  then show ?thesis using latch_active_well_pointed [OF assms, of t] by auto
next
  case (Read_Active now current ok ok')
  then show ?thesis using read_active_well_pointed [OF assms, of a now current ok ok'] by auto
next
  case Query
  then show ?thesis
    using assms on_instance_Some [OF assms]
    by (auto simp: active_fault_code_def active_client_fault_code_def active_latched_fault_code_def
        active_activity_counters_def interface_write_fault_latched_def on_instance_def well_pointed_def
        split: option.splits)
qed (use assms in \<open>auto simp: well_pointed_def constructed_def destructed_def force_initial_sample_once_def
      fail_state_write_once_at_def throw_executor_cancel_once_def throw_executor_spin_once_def split: option.splits\<close>)

text \<open>Instances come and go in any order and the pointer never dangles.\<close>

lemma access_never_dangles: "\<exists>m. run_access a xs memory_init = Some m \<and> well_pointed m"
proof -
  have "\<exists>m'. run_access a xs m = Some m' \<and> well_pointed m'" if "well_pointed m" for m
    using that
  proof (induction xs arbitrary: m)
    case (Cons x xs)
    then obtain m1 where "access a x m = Some m1" "well_pointed m1" using access_well_pointed by blast
    then show ?case using Cons.IH by simp
  qed simp
  then show ?thesis using well_pointed_init by blast
qed

section \<open>What a test sees of a fault it latches\<close>

lemma latched_fault_seen:
  assumes "g_test_instance m = Some this" and "tm_instances m this = Some p" and "pl_fault p = FC_None"
    and "t \<noteq> TF_None" and "latch_active_fault t m = Some m'"
  shows "active_fault_code m' = Some t" and "active_latched_fault_code m' = Some t"
    and "\<exists>m''. read_active_instance a now current ok ok' m' = Some (m'', False)"
proof -
  let ?p = "p\<lparr>pl_fault := to_client_fault t\<rparr>"
  have m': "m' = m\<lparr>tm_instances := (tm_instances m)(this \<mapsto> ?p)\<rparr>"
    using assms by (auto simp: latch_active_fault_def on_instance_def put_instance_def latch_fatal_fault_def)
  show "active_fault_code m' = Some t" "active_latched_fault_code m' = Some t"
    using assms(1,4) by (simp_all add: m' active_fault_code_def active_latched_fault_code_def on_instance_def)
  have "pl_fault ?p \<noteq> FC_None" using assms(4) by simp
  then have "\<not> snd (read a now cur ok2 ok' ?p)" for cur ok2 by (simp add: read_latched)
  then show "\<exists>m''. read_active_instance a now current ok ok' m' = Some (m'', False)"
    using tested_read_eq [of "tm_hooks m" a now current ok ok' ?p] assms(1)
    by (auto simp: m' read_active_instance_def on_instance_def case_prod_unfold)
qed

text \<open>Handing out the initial sample is a stale sample: the next \<open>read\<close> latches a timeout.\<close>

lemma initial_sample_times_out:
  assumes "pl_client p = Some c" and "latch c = FC_None" and "pl_fault p = FC_None" and "\<not> pl_write_fault p"
    and "g_test_return_initial_sample h"
  shows "tested_read a now current ok ok' (h, p) =
    (h\<lparr>g_test_return_initial_sample := False\<rparr>,
     invalidate_interfaces a ok' (p\<lparr>pl_fault := FC_Timeout\<rparr>), False)"
proof -
  have "fault_latched p = (p, False)" by (simp add: fault_latched_def assms)
  moreover have "si_sample_is_finite empty_si_sample" "sample_is_stale now empty_si_sample p"
    by (simp_all add: si_sample_is_finite_def empty_si_sample_def fzero_def sample_is_stale_def)
  ultimately show ?thesis
    using assms by (simp add: tested_read_def tested_sample_def latch_fatal_fault_def)
qed

end
