(* ===== verification/Check_Tool.thy ===== *)
theory Check_Tool
  imports Unit_Conversion Concrete_Configs Udp_Transport
begin

text \<open>
  The bounded acquisition tool, \<open>src/check_main.cpp\<close>: the command line, the two wait loops
  over what the client shows and the clock reads, the JSON report, the replacement of the
  output file, and the exit code. What the client, the clock and the file system answer are
  arguments. SIGINT is a flag that the loops look at.
\<close>

section \<open>The command line\<close>

record options =
  op_config :: config
  op_duration :: fp
  op_output :: "string option"
  op_help :: bool

definition default_options :: options where
  "default_options = \<lparr>op_config = default_config, op_duration = Fin False 5, op_output = None, op_help = False\<rparr>"

definition option_error :: "string \<Rightarrow> exn" where
  "option_error field = InvalidArgument (''invalid '' @ field @ '' value'')"

definition check_number :: "string \<Rightarrow> string \<Rightarrow> fp result" where
  "check_number field value =
     (case whole_double value of Some v \<Rightarrow> Inr v | None \<Rightarrow> Inl (option_error field))"

definition check_integer :: "string \<Rightarrow> string \<Rightarrow> int result" where
  "check_integer field value =
     (case whole_long value of
        Some v \<Rightarrow> if v < -2147483648 \<or> v > 2147483647 then Inl (option_error field) else Inr v
      | None \<Rightarrow> Inl (option_error field))"

text \<open>The state of the loop: the options and the two optional scales.\<close>

type_synonym parse_state = "options \<times> fp option \<times> fp option"

definition value_keys :: "string list" where
  "value_keys = [''--host'', ''--port'', ''--http-port'', ''--configuration-connect-timeout'',
     ''--configuration-timeout'', ''--duration'', ''--counts-per-force'', ''--counts-per-torque'',
     ''--receive-timeout'', ''--output'']"

definition on_config :: "(config \<Rightarrow> config) \<Rightarrow> parse_state \<Rightarrow> parse_state" where
  "on_config f st = (case st of (o', cpf, cpt) \<Rightarrow> (o'\<lparr>op_config := f (op_config o')\<rparr>, cpf, cpt))"

definition set_option :: "string \<Rightarrow> string \<Rightarrow> parse_state \<Rightarrow> parse_state result" where
  "set_option key value st =
     (case st of (o', cpf, cpt) \<Rightarrow>
       if key = ''--host'' then Inr (on_config (sensor_host_update (\<lambda>_. value)) st)
       else if key = ''--port''
       then and_then (check_integer ''port'' value) (\<lambda>v. Inr (on_config (rdt_port_update (\<lambda>_. v)) st))
       else if key = ''--http-port''
       then and_then (check_integer ''http-port'' value) (\<lambda>v. Inr (on_config (http_port_update (\<lambda>_. v)) st))
       else if key = ''--configuration-connect-timeout''
       then and_then (check_number ''configuration-connect-timeout'' value)
              (\<lambda>v. Inr (on_config (configuration_connect_timeout_update (\<lambda>_. v)) st))
       else if key = ''--configuration-timeout''
       then and_then (check_number ''configuration-timeout'' value)
              (\<lambda>v. Inr (on_config (configuration_timeout_update (\<lambda>_. v)) st))
       else if key = ''--duration''
       then and_then (check_number ''duration'' value) (\<lambda>v. Inr (o'\<lparr>op_duration := v\<rparr>, cpf, cpt))
       else if key = ''--counts-per-force''
       then and_then (check_number ''counts-per-force'' value) (\<lambda>v. Inr (o', Some v, cpt))
       else if key = ''--counts-per-torque''
       then and_then (check_number ''counts-per-torque'' value) (\<lambda>v. Inr (o', cpf, Some v))
       else if key = ''--receive-timeout''
       then and_then (check_number ''receive-timeout'' value)
              (\<lambda>v. Inr (on_config (receive_timeout_update (\<lambda>_. v)) st))
       else if key = ''--output'' then Inr (o'\<lparr>op_output := Some value\<rparr>, cpf, cpt)
       else Inr st)"

fun parse_args :: "parse_state \<Rightarrow> string list \<Rightarrow> parse_state result" where
  "parse_args st [] = Inr st"
| "parse_args st (argument # rest) =
     (let key = takeWhile (\<lambda>c. c \<noteq> CHR ''='') argument in
      if argument = ''--json'' then parse_args st rest
      else if argument = ''--help'' then Inr ((fst st)\<lparr>op_help := True\<rparr>, snd st)
      else if key \<notin> set value_keys then Inl (InvalidArgument (''unknown argument: '' @ argument))
      else if CHR ''='' \<in> set argument
      then and_then (set_option key (drop (length key + 1) argument) st) (\<lambda>st'. parse_args st' rest)
      else case rest of
             [] \<Rightarrow> Inl (InvalidArgument (''missing value for '' @ key))
           | v # rest' \<Rightarrow> and_then (set_option key v st) (\<lambda>st'. parse_args st' rest'))"

definition finish_options :: "(nat \<Rightarrow> ticks) \<Rightarrow> parse_state \<Rightarrow> options result" where
  "finish_options now st =
     (case st of (o', cpf, cpt) \<Rightarrow>
       and_then (throw_if (\<not> isfinite (op_duration o') \<or> fle (op_duration o') fzero)
         (InvalidArgument ''duration must be finite and greater than zero'')) (\<lambda>_.
       and_then (throw_if ((cpf = None) \<noteq> (cpt = None))
         (InvalidArgument ''counts-per-force and counts-per-torque must be provided together'')) (\<lambda>_.
       (let o'' = (case (cpf, cpt) of
            (Some f, Some t) \<Rightarrow> o'\<lparr>op_config := (op_config o')\<lparr>calibration_override :=
              Some \<lparr>counts_per_force_unit = f, counts_per_torque_unit = t,
                     force_unit = Newton, torque_unit = NewtonMeter\<rparr>\<rparr>\<rparr>
          | _ \<Rightarrow> o')
        in and_then (validate_config now (op_config o'')) (\<lambda>_. Inr o'')))))"

definition parse_options :: "(nat \<Rightarrow> ticks) \<Rightarrow> string list \<Rightarrow> options result" where
  "parse_options now args =
     and_then (parse_args (default_options, None, None) args) (\<lambda>st.
     if op_help (fst st) then Inr (fst st) else finish_options now st)"

section \<open>The acquisition\<close>

text \<open>
  One turn of a wait loop: what \<open>health\<close>, the interrupt flag, \<open>faulted\<close> and the clock say.
  Deadlines are \<open>double\<close> counts of nanoseconds, as the mixed durations of the code make them.
\<close>

record poll =
  po_received :: u64
  po_interrupted :: bool
  po_faulted :: bool
  po_last_error :: string
  po_now :: ticks

definition deadline_after :: "ticks \<Rightarrow> fp \<Rightarrow> fp" where
  "deadline_after started seconds =
     fadd binary64 (fof_int binary64 started) (fmul binary64 seconds (Fin False 1000000000))"

definition at_ns :: "ticks \<Rightarrow> fp" where
  "at_ns now = fof_int binary64 now"

text \<open>The loops answer \<open>None\<close> as long as they are still waiting.\<close>

fun await_first :: "fp \<Rightarrow> poll list \<Rightarrow> (poll list) result option" where
  "await_first deadline [] = None"
| "await_first deadline (p # ps) =
     (if po_received p \<noteq> 0 then Some (Inr ps)
      else if po_interrupted p then Some (Inl (RuntimeError ''interrupted''))
      else if po_faulted p then Some (Inl (RuntimeError (po_last_error p)))
      else if fle deadline (at_ns (po_now p)) then Some (Inl (RuntimeError ''no Net F/T sample received''))
      else await_first deadline ps)"

fun measure_for :: "fp \<Rightarrow> poll list \<Rightarrow> unit result option" where
  "measure_for finish [] = None"
| "measure_for finish (p # ps) =
     (if \<not> flt (at_ns (po_now p)) finish then Some (Inr ())
      else if po_interrupted p then Some (Inl (RuntimeError ''interrupted''))
      else measure_for finish ps)"

record check_result =
  cr_endpoint :: string
  cr_requested :: fp
  cr_elapsed :: fp
  cr_health :: health_snapshot
  cr_last :: "sample option"

definition first_deadline :: "ticks \<Rightarrow> options \<Rightarrow> fp" where
  "first_deadline started o' =
     deadline_after started (fmax fone (fmul binary64 (receive_timeout (op_config o')) (Fin False 5)))"

text \<open>After \<open>start\<close>: the loops, \<open>stop\<close>, the clock, the last health and the last sample.\<close>

definition run_check ::
  "ticks \<Rightarrow> poll list \<Rightarrow> ticks \<Rightarrow> health_snapshot \<Rightarrow> sample option \<Rightarrow> options \<Rightarrow> check_result result option" where
  "run_check started polls stopped h last_sample o' =
     (case await_first (first_deadline started o') polls of
        None \<Rightarrow> None
      | Some (Inl e) \<Rightarrow> Some (Inl e)
      | Some (Inr rest) \<Rightarrow>
          (case measure_for (deadline_after started (op_duration o')) rest of
             None \<Rightarrow> None
           | Some (Inl e) \<Rightarrow> Some (Inl e)
           | Some (Inr _) \<Rightarrow> Some (Inr
               \<lparr>cr_endpoint = sensor_host (op_config o') @ '':'' @ dec_of_int (rdt_port (op_config o')),
                cr_requested = op_duration o', cr_elapsed = seconds_of (stopped - started),
                cr_health = h, cr_last = last_sample\<rparr>)))"

section \<open>JSON\<close>

definition backslash :: char where "backslash = CHR 0x5C"

text \<open>One character of a string literal; the other control characters as \<open>u00xx\<close>.\<close>

definition json_char :: "char \<Rightarrow> string" where
  "json_char c =
     (if c = dquote \<or> c = backslash then [backslash, c]
      else if c = CHR 0x0A then backslash # ''n''
      else if c = CHR 0x0D then backslash # ''r''
      else if c = CHR 0x09 then backslash # ''t''
      else if code_of c < 32
      then backslash # ''u00'' @ [hex_char (code_of c div 16), hex_char (code_of c mod 16)]
      else [c])"

definition json_string :: "string \<Rightarrow> string" where
  "json_string value = dquote # concat (map json_char value) @ [dquote]"

definition json_number :: "fp \<Rightarrow> string result" where
  "json_number v =
     (if \<not> isfinite v then Inl (RuntimeError ''non-finite JSON value'') else Inr (general_decimal 17 v))"

definition json_optional_sequence :: "u32 option \<Rightarrow> string" where
  "json_optional_sequence v = (case v of Some w \<Rightarrow> dec_of_word w | None \<Rightarrow> ''null'')"

definition json_wrench :: "si_sample option \<Rightarrow> bool \<Rightarrow> string result" where
  "json_wrench s force =
     (case s of
        None \<Rightarrow> Inr ''null''
      | Some si \<Rightarrow>
          (let values = (if force then si_force si else si_torque si) in
           and_then (json_number (values ! 0)) (\<lambda>x.
           and_then (json_number (values ! 1)) (\<lambda>y.
           and_then (json_number (values ! 2)) (\<lambda>z.
           Inr (''['' @ x @ '', '' @ y @ '', '' @ z @ '']''))))))"

fun source_name :: "calibration_source \<Rightarrow> string" where
  "source_name Sensor = ''sensor''"
| "source_name Override = ''override''"

text \<open>The members are written in order; the first value that cannot be written throws.\<close>

fun json_members :: "(string \<times> string result) list \<Rightarrow> string list result" where
  "json_members [] = Inr []"
| "json_members ((k, v) # ms) =
     and_then v (\<lambda>t. and_then (json_members ms) (\<lambda>ts.
       Inr ((''  '' @ [dquote] @ k @ [dquote] @ '': '' @ t) # ts)))"

fun comma_lines :: "string list \<Rightarrow> string" where
  "comma_lines [] = []"
| "comma_lines [t] = t"
| "comma_lines (t # u # ts) = t @ '','' @ [nl] @ comma_lines (u # ts)"

definition json_object :: "(string \<times> string result) list \<Rightarrow> string result" where
  "json_object ms =
     and_then (json_members ms) (\<lambda>ts. Inr (''{'' @ [nl] @ comma_lines ts @ [nl] @ ''}''))"

definition of_configuration :: "health_snapshot \<Rightarrow> (sensor_configuration \<Rightarrow> string result) \<Rightarrow> string result" where
  "of_configuration h f = (case sensor_configuration h of Some c \<Rightarrow> f c | None \<Rightarrow> Inr ''null'')"

definition report_members :: "check_result \<Rightarrow> si_sample option \<Rightarrow> (string \<times> string result) list" where
  "report_members r si =
     (let h = cr_health r in
      [(''configuration_source'', of_configuration h (\<lambda>c. Inr (json_string (source_name (cfg_source c))))),
       (''force_unit'', of_configuration h (\<lambda>c. Inr (json_string (force_unit_to_string (force_unit (calibration c)))))),
       (''torque_unit'', of_configuration h (\<lambda>c. Inr (json_string (torque_unit_to_string (torque_unit (calibration c)))))),
       (''counts_per_force_unit'', of_configuration h (\<lambda>c. json_number (counts_per_force_unit (calibration c)))),
       (''counts_per_torque_unit'', of_configuration h (\<lambda>c. json_number (counts_per_torque_unit (calibration c)))),
       (''device_error_count'', Inr (dec_of_word (device_error_count h))),
       (''device_status'', Inr ([dquote] @ ''0x'' @ hex8 (last_status h) @ [dquote])),
       (''duplicate_count'', Inr (dec_of_word (duplicate_count h))),
       (''elapsed_s'', json_number (cr_elapsed r)),
       (''endpoint'', Inr (json_string (cr_endpoint r))),
       (''last_force_n'', json_wrench si True),
       (''last_ft_sequence'', Inr (json_optional_sequence (last_ft_sequence h))),
       (''last_rdt_sequence'', Inr (json_optional_sequence (last_rdt_sequence h))),
       (''last_torque_nm'', json_wrench si False),
       (''lost_count'', Inr (dec_of_word (lost_count h))),
       (''malformed_count'', Inr (dec_of_word (malformed_count h))),
       (''out_of_order_count'', Inr (dec_of_word (out_of_order_count h))),
       (''receive_rate_hz'', json_number (fdiv binary64 (fof_int binary64 (uint (received_count h))) (cr_elapsed r))),
       (''reconnect_count'', Inr (dec_of_word (reconnect_count h))),
       (''requested_duration_s'', json_number (cr_requested r)),
       (''sample_count'', Inr (dec_of_word (received_count h))),
       (''timeout_count'', Inr (dec_of_word (timeout_count h))),
       (''warning_count'', Inr (dec_of_word (warning_count h)))])"

definition serialize :: "check_result \<Rightarrow> string result" where
  "serialize r =
     and_then (case cr_last r of
                 Some s \<Rightarrow> and_then (to_si_sample s) (\<lambda>si. Inr (Some si))
               | None \<Rightarrow> Inr None) (\<lambda>si.
     json_object (report_members r si))"

definition serialize_error :: "string \<Rightarrow> string \<Rightarrow> string" where
  "serialize_error category msg =
     ''{'' @ [nl] @ comma_lines
       [''  '' @ [dquote] @ ''error'' @ [dquote] @ '': '' @ json_string category,
        ''  '' @ [dquote] @ ''exit_code'' @ [dquote] @ '': 2'',
        ''  '' @ [dquote] @ ''message'' @ [dquote] @ '': '' @ json_string msg] @ [nl] @ ''}''"

section \<open>The output file\<close>

text \<open>
  The file system as the contents of its paths. The answers: the name that \<open>mkstemp\<close> makes
  of the pattern, whether the descriptor becomes a stream, how much of the text is on disk
  when the writes and the close end and whether they all succeed, and how the rename ends.
\<close>

type_synonym files = "string \<rightharpoonup> string"

record file_answers =
  fa_temporary :: "string option"
  fa_stream :: bool
  fa_on_disk :: string
  fa_written :: bool
  fa_rename :: "unit result"

text \<open>The guard object removes the temporary name on every way out, after a rename in vain.\<close>

definition write_output :: "file_answers \<Rightarrow> string \<Rightarrow> string \<Rightarrow> files \<Rightarrow> files \<times> unit result" where
  "write_output fa path text fs =
     (case fa_temporary fa of
        None \<Rightarrow> (fs, Inl (RuntimeError ''unable to create output temporary file''))
      | Some temporary \<Rightarrow>
          if \<not> fa_stream fa
          then ((fs(temporary \<mapsto> []))(temporary := None), Inl (RuntimeError ''unable to write output''))
          else if \<not> fa_written fa
          then ((fs(temporary \<mapsto> fa_on_disk fa))(temporary := None), Inl (RuntimeError ''unable to write output''))
          else (let fs1 = fs(temporary \<mapsto> text @ [nl]) in
                case fa_rename fa of
                  Inl e \<Rightarrow> (fs1(temporary := None), Inl e)
                | Inr _ \<Rightarrow> ((fs1(path \<mapsto> text @ [nl], temporary := None)), Inr ())))"

section \<open>The tool as a whole\<close>

text \<open>Exit code, standard output and standard error of \<open>main\<close>.\<close>

definition usage :: string where
  "usage = ''usage: netft_check [--host HOST] [--port PORT] [--duration SECONDS] '' @
     ''[--http-port PORT] [--configuration-connect-timeout SECONDS] '' @
     ''[--configuration-timeout SECONDS] '' @
     ''[--counts-per-force SCALE] [--counts-per-torque SCALE] '' @
     ''[--receive-timeout SECONDS] [--output PATH] [--json]''"

definition check_passes :: "health_snapshot \<Rightarrow> bool" where
  "check_passes h \<longleftrightarrow> received_count h > 0 \<and> device_error_count h = 0 \<and> warning_count h = 0"

definition report_failure :: "exn \<Rightarrow> int \<times> string \<times> string" where
  "report_failure e =
     (case e of
        InvalidArgument m \<Rightarrow> (2, [], serialize_error ''invalid_arguments'' m @ [nl])
      | _ \<Rightarrow> (2, [], serialize_error ''check_failed'' (what e) @ [nl]))"

text \<open>
  \<open>acquired\<close> is what \<open>run_check\<close> gives for the parsed options, or the exception of the client's
  constructor and \<open>start\<close>; \<open>fa\<close> the answers of the file system.
\<close>

definition check_main ::
  "(nat \<Rightarrow> ticks) \<Rightarrow> (options \<Rightarrow> check_result result) \<Rightarrow> file_answers \<Rightarrow> string list \<Rightarrow> files
     \<Rightarrow> files \<times> int \<times> string \<times> string" where
  "check_main now acquired fa args fs =
     (case parse_options now args of
        Inl e \<Rightarrow> (fs, report_failure e)
      | Inr o' \<Rightarrow>
          if op_help o' then (fs, 0, usage @ [nl], [])
          else case acquired o' of
                 Inl e \<Rightarrow> (fs, report_failure e)
               | Inr r \<Rightarrow>
                   (case serialize r of
                      Inl e \<Rightarrow> (fs, report_failure e)
                    | Inr text \<Rightarrow>
                        (case (case op_output o' of
                                 Some path \<Rightarrow> write_output fa path text fs
                               | None \<Rightarrow> (fs, Inr ())) of
                           (fs', Inl e) \<Rightarrow> (fs', report_failure e)
                         | (fs', Inr _) \<Rightarrow>
                             (fs', (if check_passes (cr_health r) then 0 else 1), text @ [nl], []))))"

section \<open>String literals read back\<close>

text \<open>A reader of JSON string literals, after the opening quote and up to the end of the text.\<close>

definition json_escape :: "char \<Rightarrow> char option" where
  "json_escape e =
     (if e = dquote \<or> e = backslash \<or> e = CHR ''/'' then Some e
      else if e = CHR ''n'' then Some (CHR 0x0A)
      else if e = CHR ''r'' then Some (CHR 0x0D)
      else if e = CHR ''t'' then Some (CHR 0x09)
      else if e = CHR ''b'' then Some (CHR 0x08)
      else if e = CHR ''f'' then Some (CHR 0x0C) else None)"

definition hex_quad :: "string \<Rightarrow> nat option" where
  "hex_quad ds = (if length ds = 4 \<and> list_all is_hex_digit ds then Some (radix_value 16 ds) else None)"

function json_read :: "string \<Rightarrow> string option" where
  "json_read s =
     (case s of
        [] \<Rightarrow> None
      | c # cs \<Rightarrow>
          if c = dquote then (if cs = [] then Some [] else None)
          else if c \<noteq> backslash then (if code_of c < 32 then None else map_option (Cons c) (json_read cs))
          else (case cs of
                  [] \<Rightarrow> None
                | e # r \<Rightarrow>
                    if e \<noteq> CHR ''u''
                    then (case json_escape e of Some x \<Rightarrow> map_option (Cons x) (json_read r) | None \<Rightarrow> None)
                    else (case hex_quad (take 4 r) of
                            Some n \<Rightarrow> if n < 256 then map_option (Cons (char_of n)) (json_read (drop 4 r)) else None
                          | None \<Rightarrow> None)))"
  by pat_completeness auto

termination
  by (relation "measure length") auto

declare json_read.simps [simp del]

lemma digit_of_hex_char:
  assumes "d < 16"
  shows "digit_of (hex_char d) = d" and "is_hex_digit (hex_char d)"
proof -
  have "list_all (\<lambda>d. digit_of (hex_char d) = d \<and> is_hex_digit (hex_char d)) [0..<16]" by code_simp
  with assms show "digit_of (hex_char d) = d" and "is_hex_digit (hex_char d)" by (simp_all add: list_all_iff)
qed

lemma hex_quad_control:
  assumes "n < 256"
  shows "hex_quad [CHR ''0'', CHR ''0'', hex_char (n div 16), hex_char (n mod 16)] = Some n"
proof -
  have z: "is_hex_digit (CHR ''0'')" "digit_of (CHR ''0'') = 0" by code_simp+
  have "n div 16 < 16" "n mod 16 < 16" using assms by (simp_all add: less_mult_imp_div_less)
  then show ?thesis by (simp add: hex_quad_def radix_value_def digit_of_hex_char z)
qed

lemma json_read_char: "json_read (json_char c @ rest) = map_option (Cons c) (json_read rest)"
proof -
  have d: "backslash \<noteq> dquote" by (simp add: backslash_def dquote_def)
  have e: "json_escape dquote = Some dquote" "json_escape backslash = Some backslash"
    "json_escape (CHR ''n'') = Some (CHR 0x0A)" "json_escape (CHR ''r'') = Some (CHR 0x0D)"
    "json_escape (CHR ''t'') = Some (CHR 0x09)" "dquote \<noteq> CHR ''u''" "backslash \<noteq> CHR ''u''"
    by (simp_all add: json_escape_def dquote_def backslash_def)
  consider (plain) "c \<noteq> dquote" "c \<noteq> backslash" "\<not> code_of c < 32" "c \<notin> {CHR 0x0A, CHR 0x0D, CHR 0x09}"
    | (escaped) "c = dquote \<or> c = backslash \<or> c \<in> {CHR 0x0A, CHR 0x0D, CHR 0x09}"
    | (control) "c \<noteq> dquote" "c \<noteq> backslash" "code_of c < 32" "c \<notin> {CHR 0x0A, CHR 0x0D, CHR 0x09}"
    by blast
  then show ?thesis
  proof cases
    case plain
    then show ?thesis by (simp add: json_char_def json_read.simps [of "c # rest"])
  next
    case escaped
    then show ?thesis
      by (auto simp: json_char_def json_read.simps [of "backslash # r" for r] d e d [symmetric])
  next
    case control
    have "char_of (code_of c) = c" by (simp add: code_of_def)
    then show ?thesis
      using control hex_quad_control [of "code_of c"]
      by (simp add: json_char_def json_read.simps [of "backslash # r" for r] d)
  qed
qed

lemma json_read_string: "json_read (concat (map json_char s) @ [dquote]) = Some s"
  by (induction s) (simp_all add: json_read_char json_read.simps [of "[dquote]"])

text \<open>
  Whatever bytes a host name or an error message holds, the literal written for it is a
  JSON string that reads back as the same bytes, with every control character escaped.
\<close>

theorem json_string_reads_back:
  "hd (json_string s) = dquote \<and> json_read (tl (json_string s)) = Some s
   \<and> list_all (\<lambda>c. 32 \<le> code_of c) (json_string s)"
proof -
  have "32 \<le> code_of (hex_char d)" if "d < 16" for d
  proof -
    have "list_all (\<lambda>d. 32 \<le> code_of (hex_char d)) [0..<16]" by code_simp
    with that show ?thesis by (simp add: list_all_iff)
  qed
  moreover have "code_of c div 16 < 16" for c using code_of_less [of c] by (simp add: less_mult_imp_div_less)
  moreover have "32 \<le> code_of dquote" "32 \<le> code_of backslash" "32 \<le> code_of (CHR ''n'')"
    "32 \<le> code_of (CHR ''r'')" "32 \<le> code_of (CHR ''t'')" "32 \<le> code_of (CHR ''u'')" "32 \<le> code_of (CHR ''0'')"
    by code_simp+
  ultimately have "list_all (\<lambda>c. 32 \<le> code_of c) (json_char c)" for c
    by (simp add: json_char_def not_less)
  then have "list_all (\<lambda>c. 32 \<le> code_of c) (concat (map json_char s))"
    by (induction s) simp_all
  then show ?thesis using \<open>32 \<le> code_of dquote\<close> by (simp add: json_string_def json_read_string)
qed

section \<open>What the tool promises\<close>

lemma write_output_atomic:
  assumes "case fa_temporary fa of Some t \<Rightarrow> fs t = None \<and> t \<noteq> path | None \<Rightarrow> True"
  shows "case write_output fa path content fs of
      (fs', Inl e) \<Rightarrow> fs' = fs
    | (fs', Inr _) \<Rightarrow> fs' = fs(path \<mapsto> content @ [nl])"
  using assms by (auto simp: write_output_def Let_def fun_upd_idem_iff fun_upd_twist split: option.splits sum.splits)

lemma failure_report:
  "\<exists>m. report_failure e = (2, [], m) \<and> m \<noteq> []"
  by (cases e) (simp_all add: report_failure_def serialize_error_def)

text \<open>A report that was made is on standard output and in the file, or neither.\<close>

lemma main_reports:
  assumes "parse_options now args = Inr o'" and "\<not> op_help o'" and "acquired o' = Inr r" and "serialize r = Inr json"
    and "case fa_temporary fa of None \<Rightarrow> True | Some t \<Rightarrow> fs t = None \<and> op_output o' \<noteq> Some t"
  shows "case check_main now acquired fa args fs of (fs', code, out, err) \<Rightarrow>
    code = 2 \<and> out = [] \<and> err \<noteq> [] \<and> fs' = fs
    \<or> code = (if check_passes (cr_health r) then 0 else 1) \<and> out = json @ [nl] \<and> err = [] \<and>
       fs' = (case op_output o' of None \<Rightarrow> fs | Some path \<Rightarrow> fs(path \<mapsto> json @ [nl]))"
proof (cases "op_output o'")
  case None
  then show ?thesis using assms(1-4) by (simp add: check_main_def)
next
  case (Some path)
  obtain fs' res where w: "write_output fa path json fs = (fs', res)" by force
  have atomic: "case res of Inl e \<Rightarrow> fs' = fs | Inr _ \<Rightarrow> fs' = fs(path \<mapsto> json @ [nl])"
    using write_output_atomic [where fa = fa and fs = fs and path = path and content = json] assms(5) Some
    by (auto simp: w split: option.splits)
  show ?thesis
  proof (cases res)
    case (Inl e)
    then show ?thesis using failure_report [of e] assms(1-4) Some w atomic by (auto simp: check_main_def)
  next
    case (Inr u)
    then show ?thesis using assms(1-4) Some w atomic by (simp add: check_main_def)
  qed
qed


lemma finish_keeps_help: "finish_options now st = Inr o' \<Longrightarrow> op_help o' = op_help (fst st)"
  by (auto simp: finish_options_def Let_def split: prod.splits option.splits)


section \<open>Accepted options\<close>

text \<open>The options as the loop over the arguments keeps them.\<close>

definition plain_options :: "parse_state \<Rightarrow> bool" where
  "plain_options st \<longleftrightarrow> recovery_policy (op_config (fst st)) = Reconnect \<and>
     calibration_override (op_config (fst st)) = None"

lemma set_option_plain: "plain_options st \<Longrightarrow> set_option key v st = Inr st' \<Longrightarrow> plain_options st'"
  by (cases st) (auto simp: set_option_def on_config_def plain_options_def split: if_split_asm)

lemma parse_args_plain: "plain_options st \<Longrightarrow> parse_args st args = Inr st' \<Longrightarrow> plain_options st'"
proof (induction st args arbitrary: st' rule: parse_args.induct)
  case (2 st argument rest)
  let ?key = "takeWhile (\<lambda>c. c \<noteq> CHR ''='') argument"
  consider "argument = ''--json''" | "argument \<noteq> ''--json''" "argument = ''--help''"
    | "argument \<noteq> ''--json''" "argument \<noteq> ''--help''" "?key \<in> set value_keys"
    using "2.prems"(2) by (auto simp: Let_def split: if_split_asm)
  then show ?case
  proof cases
    case 1
    with 2 show ?thesis by simp
  next
    case 2
    with "2.prems" show ?thesis by (auto simp: Let_def plain_options_def)
  next
    case 3
    show ?thesis
    proof (cases "CHR ''='' \<in> set argument")
      case True
      with "2.prems"(2) 3 obtain st1 where "set_option ?key (drop (length ?key + 1) argument) st = Inr st1"
        "parse_args st1 rest = Inr st'" by (auto simp: Let_def)
      then show ?thesis using "2.IH"(2) [OF refl 3(1,2)] "2.prems"(1) 3 True set_option_plain by blast
    next
      case False
      with "2.prems"(2) 3 obtain v rest' where r: "rest = v # rest'" by (auto simp: Let_def split: list.split_asm)
      with "2.prems"(2) 3 False obtain st1 where "set_option ?key v st = Inr st1"
        "parse_args st1 rest' = Inr st'" by (auto simp: Let_def)
      then show ?thesis using "2.IH"(3) [OF refl 3(1,2)] "2.prems"(1) 3 False r set_option_plain by blast
    qed
  qed
qed simp

lemma finish_options_Inr:
  assumes "finish_options now st = Inr o'" and "plain_options st"
  shows "config_ok now (op_config o')" and "isfinite (op_duration o')" and "flt fzero (op_duration o')"
    and "recovery_policy (op_config o') = Reconnect"
    and "pred_option (\<lambda>c. force_unit c = Newton \<and> torque_unit c = NewtonMeter) (calibration_override (op_config o'))"
  using assms
  by (auto simp: finish_options_def plain_options_def validate_config_iff fle_fzero_iff Let_def
      split: prod.splits option.splits)

text \<open>
  A command line that is accepted, other than for help, gives a configuration the client
  accepts, a positive finite duration, the \<open>Reconnect\<close> policy, and a calibration override
  only as a pair of scales in newtons and newton-metres.
\<close>

theorem accepted_options_contract:
  assumes "parse_options now args = Inr o'"
  shows "op_help o' \<or>
    config_ok now (op_config o') \<and> isfinite (op_duration o') \<and> flt fzero (op_duration o') \<and>
    recovery_policy (op_config o') = Reconnect \<and>
    pred_option (\<lambda>c. force_unit c = Newton \<and> torque_unit c = NewtonMeter) (calibration_override (op_config o'))"
proof -
  obtain st where st: "parse_args (default_options, None, None) args = Inr st"
    and o': "(if op_help (fst st) then Inr (fst st) else finish_options now st) = Inr o'"
    using assms by (auto simp: parse_options_def)
  have "plain_options (default_options, None, None)"
    by (simp add: plain_options_def default_options_def default_config_def)
  from parse_args_plain [OF this st] have "plain_options st" .
  with o' finish_options_Inr [of now st o'] show ?thesis by (auto split: if_split_asm)
qed

theorem accepted_options_contract_witness:
  "case parse_options (\<lambda>k. 1000) [''--receive-timeout'', ''1'', ''--duration=1''] of
     Inr o' \<Rightarrow> config_ok (\<lambda>k. 1000) (op_config o') \<and> receive_timeout (op_config o') = fone
   | Inl e \<Rightarrow> False"
proof -
  let ?args = "[''--receive-timeout'', ''1'', ''--duration=1'']"
  define o1 where "o1 = default_options\<lparr>op_config := default_config\<lparr>receive_timeout := fone\<rparr>, op_duration := fone\<rparr>"
  have "parse_args (default_options, None, None) ?args = Inr (o1, None, None)"
    by (simp add: value_keys_def set_option_def on_config_def check_number_def read_one o1_def default_options_def)
  moreover have "finish_options (\<lambda>k. 1000) (o1, None, None) = Inr o1"
    using default_client_valid [of Reconnect]
    by (simp add: finish_options_def o1_def default_config_def fone_def fzero_def)
  ultimately have p: "parse_options (\<lambda>k. 1000) ?args = Inr o1"
    by (simp add: parse_options_def o1_def default_options_def)
  show ?thesis
    using accepted_options_contract [OF p] unfolding p by (simp add: o1_def default_options_def)
qed

section \<open>A misnamed failure\<close>

text \<open>
  A measurement that cannot be converted to SI units is thrown as an invalid argument, so
  the report blames the command line: \<open>invalid_arguments\<close>, not \<open>check_failed\<close>.
\<close>

lemma unrepresentable_measurement_blamed_on_arguments:
  assumes "to_si_sample s = Inl e" and "cr_last r = Some s"
  shows "\<exists>m. serialize r = Inl (InvalidArgument m) \<and>
    report_failure (InvalidArgument m) = (2, [], serialize_error ''invalid_arguments'' m @ [nl])"
  using to_si_sample_result [of s] assms by (auto simp: serialize_def report_failure_def)

end
