(* ===== verification/Client_Facade.thy ===== *)
theory Client_Facade
  imports Client_System
begin

text \<open>
  The destructor of the client, \<open>src/core/src/client.cpp\<close>, and the process-wide destroyer to
  which a client hands its implementation when it is destroyed inside its own callback. The
  other members of the facade are in \<open>Client_Calls\<close>.
\<close>

section \<open>The deferred destroyer\<close>

text \<open>The queue of \<open>DeferredDestroyer\<close> and the values its thread has stopped, in order.\<close>

record 'v destroyer =
  pending :: "'v list"
  destroyed :: "'v list"

text \<open>The one destroyer of the process, made at its first use and never destroyed.\<close>

definition deferred_destroyer :: "'v destroyer" where
  "deferred_destroyer = \<lparr>pending = [], destroyed = []\<rparr>"

definition enqueue :: "'v \<Rightarrow> 'v destroyer \<Rightarrow> 'v destroyer" where
  "enqueue v d = d\<lparr>pending := pending d @ [v]\<rparr>"

text \<open>One turn of \<open>run\<close>: wait for a value, take it from the front and stop it.\<close>

definition destroyer_turn :: "'v destroyer \<Rightarrow> 'v destroyer option" where
  "destroyer_turn d =
     (case pending d of
        [] \<Rightarrow> None
      | v # vs \<Rightarrow> Some (d\<lparr>pending := vs, destroyed := destroyed d @ [v]\<rparr>))"

inductive destroyer_run :: "'v destroyer \<Rightarrow> 'v list \<Rightarrow> 'v destroyer \<Rightarrow> bool" where
  run_idle: "destroyer_run d [] d"
| run_enqueue: "destroyer_run d vs d' \<Longrightarrow> destroyer_run d (vs @ [v]) (enqueue v d')"
| run_turn: "destroyer_run d vs d' \<Longrightarrow> destroyer_turn d' = Some d'' \<Longrightarrow> destroyer_run d vs d''"

text \<open>Every value handed over is stopped once, in the order of the handing over.\<close>

lemma destroyer_fifo:
  assumes "destroyer_run d vs d'"
  shows "destroyed d' @ pending d' = destroyed d @ pending d @ vs"
  using assms
proof (induction rule: destroyer_run.induct)
  case (run_turn d vs d' d'')
  then show ?case by (auto simp: destroyer_turn_def split: list.splits)
qed (simp_all add: enqueue_def)

lemma deferred_destroyer_fifo: "destroyer_run deferred_destroyer vs d \<Longrightarrow> destroyed d @ pending d = vs"
  using destroyer_fifo [of deferred_destroyer vs d] by (simp add: deferred_destroyer_def)

section \<open>The destructor\<close>

text \<open>
  A whole \<open>stop\<close> up to its decision; the lifecycle mutex is held throughout, and the caller
  of interest is either the worker itself, inside its callback, or another thread.
\<close>

definition stop_sections ::
  "(int \<Rightarrow> string) \<Rightarrow> os_count \<Rightarrow> bool \<Rightarrow> client \<Rightarrow> client \<times> stop_end" where
  "stop_sections strerror answer self c =
     stop_decide self (stop_command strerror answer (stop_request c))"

text \<open>
  \<open>~Client\<close>: the implementation it leaves, how its stop ended, and the destroyer. An
  implementation that was moved to the destroyer is not destroyed here.
\<close>

definition client_destructor ::
  "(int \<Rightarrow> string) \<Rightarrow> os_count \<Rightarrow> bool \<Rightarrow> client \<Rightarrow> client destroyer \<Rightarrow> client \<times> stop_end \<times> client destroyer" where
  "client_destructor strerror answer self c d =
     (let (c', r) = stop_sections strerror answer self c
      in (c', r, if from_worker_thread self c then enqueue c' d else d))"

lemma stop_sections_reachable:
  assumes "reachable strerror s" and "s_lock s = Unlocked" and "may_be_worker self (s_worker s)"
    and "stop_sections strerror answer self (s_client s) = (c', r)"
  shows "reachable strerror (s\<lparr>s_client := c', s_stop_joins := (if r = Stop_Joins then True else s_stop_joins s)\<rparr>)"
proof -
  define s1 where "s1 = s\<lparr>s_client := stop_request (s_client s), s_lock := StopRequested self\<rparr>"
  define s2 where "s2 = s1\<lparr>s_client := stop_command strerror answer (s_client s1), s_lock := StopCommanded self\<rparr>"
  have "reachable strerror s1"
    unfolding s1_def using assms(1-3) by (intro reachable_step [OF assms(1)] step_stop_request)
  then have "reachable strerror s2"
    unfolding s2_def by (rule reachable_step) (rule step_stop_command, simp add: s1_def)
  moreover have "sys_step strerror s2 (s2\<lparr>s_client := c', s_lock := Unlocked,
      s_stop_joins := (if r = Stop_Joins then True else s_stop_joins s2)\<rparr>)"
    by (rule step_stop_decide) (use assms(4) in \<open>simp_all add: s2_def s1_def stop_sections_def\<close>)
  ultimately have "reachable strerror (s2\<lparr>s_client := c', s_lock := Unlocked,
      s_stop_joins := (if r = Stop_Joins then True else s_stop_joins s2)\<rparr>)"
    by (rule reachable_step)
  moreover have "s2\<lparr>s_client := c', s_lock := Unlocked, s_stop_joins := (if r = Stop_Joins then True else s_stop_joins s2)\<rparr>
      = s\<lparr>s_client := c', s_stop_joins := (if r = Stop_Joins then True else s_stop_joins s)\<rparr>"
    using assms(2) by (intro sys.equality) (simp_all add: s2_def s1_def)
  ultimately show ?thesis by simp
qed

lemma stop_thread_fields [simp]:
  "worker_active (stop_command strerror a (stop_request c)) = worker_active c"
  "worker_exited (stop_request c) = worker_exited c"
  "worker_alive (stop_request c) = worker_alive c"
  "stopping (stop_command strerror a (stop_request c))"
  by (simp_all add: stop_command_def stop_streaming_def transport_shutdown_def Let_def stop_request_def
      worker_alive_def send_command_def)

lemma from_worker_stop [simp]:
  "from_worker_thread self (stop_command strerror a (stop_request c)) = from_worker_thread self c"
  by (simp add: from_worker_thread_def)

lemma stop_by_other:
  assumes "worker_alive c"
  shows "snd (stop_sections strerror a False c) \<noteq> Stop_Returns"
proof -
  have "worker_alive (stop_command strerror a (stop_request c))" using assms by simp
  then show ?thesis
    by (auto simp: stop_sections_def stop_decide_def from_worker_thread_def worker_alive_def)
qed

text \<open>
  C17: destroying a client is safe from anywhere. Inside its own callback the destructor never
  waits or joins: the stop request stands, the session is closed, the state is one the system
  can be in, and the implementation goes to the end of the queue of the destroyer, whose stop,
  on its own thread, does not return while the worker lives. On any other thread nothing is
  queued, and with no worker left the destructor returns at once with the client at rest.
\<close>

theorem destructor_contract:
  assumes "reachable strerror s" and "s_lock s = Unlocked" and "may_be_worker self (s_worker s)"
    and "client_destructor strerror answer self (s_client s) d = (c', r, d')"
  shows "reachable strerror (s\<lparr>s_client := c', s_stop_joins := (if r = Stop_Joins then True else s_stop_joins s)\<rparr>)
    \<and> stopping c' \<and> \<not> session_started c'
    \<and> (from_worker_thread self (s_client s) \<longrightarrow> r = Stop_Returns \<and> pending d' = pending d @ [c']
        \<and> snd (stop_sections strerror answer' False c') \<noteq> Stop_Returns)
    \<and> (\<not> from_worker_thread self (s_client s) \<longrightarrow> d' = d
        \<and> (worker_alive (s_client s) \<longrightarrow> r \<noteq> Stop_Returns)
        \<and> (\<not> worker_alive (s_client s) \<longrightarrow> r = Stop_Returns \<and> h_state (health c') \<in> {CS_Stopped, CS_Faulted}))"
proof -
  have st: "stop_sections strerror answer self (s_client s) = (c', r)"
    and d': "d' = (if from_worker_thread self (s_client s) then enqueue c' d else d)"
    using assms(4) by (auto simp: client_destructor_def split: prod.splits)
  let ?c = "stop_command strerror answer (stop_request (s_client s))"
  have dec: "stop_decide self ?c = (c', r)" using st by (simp add: stop_sections_def)
  have rch: "reachable strerror (s\<lparr>s_client := c', s_stop_joins := (if r = Stop_Joins then True else s_stop_joins s)\<rparr>)"
    by (rule stop_sections_reachable [OF assms(1-3) st])
  have alive: "worker_alive ?c = worker_alive (s_client s)" by simp
  have exit: "\<not> worker_alive (s_client s) \<Longrightarrow> worker_exited (s_client s)"
    using reachable_parts(3,7) [OF assms(1)] by (auto simp: session_inv_def exited_pc_def)
  have flds: "stopping c' \<and> \<not> session_started c'"
    using dec by (auto simp: stop_decide_def split: if_split_asm)
  have inside: "r = Stop_Returns \<and> pending d' = pending d @ [c'] \<and> snd (stop_sections strerror answer' False c') \<noteq> Stop_Returns"
    if f: "from_worker_thread self (s_client s)"
  proof -
    have "c' = ?c" "r = Stop_Returns" using dec f by (auto simp: stop_decide_def)
    moreover have "worker_alive (s_client s)" using exit f by (auto simp: from_worker_thread_def)
    ultimately show ?thesis using f d' stop_by_other [of c'] alive by (simp add: enqueue_def)
  qed
  have outside: "d' = d \<and> (worker_alive (s_client s) \<longrightarrow> r \<noteq> Stop_Returns)
      \<and> (\<not> worker_alive (s_client s) \<longrightarrow> r = Stop_Returns \<and> h_state (health c') \<in> {CS_Stopped, CS_Faulted})"
    if f: "\<not> from_worker_thread self (s_client s)"
  proof (intro conjI impI)
    show "d' = d" using f d' by simp
    show "r \<noteq> Stop_Returns" if "worker_alive (s_client s)"
      using dec f that alive by (auto simp: stop_decide_def worker_alive_def split: if_split_asm)
    assume dead: "\<not> worker_alive (s_client s)"
    then have r: "r = Stop_Returns" and c': "c' = mark_stopped ?c"
      using dec f alive by (auto simp: stop_decide_def worker_alive_def split: if_split_asm)
    then show "r = Stop_Returns" by simp
    show "h_state (health c') \<in> {CS_Stopped, CS_Faulted}"
      using reachable_parts(4,7) [OF rch] dead alive c' by (simp add: rest_inv_def)
  qed
  show ?thesis using rch flds inside outside by blast
qed

section \<open>A client destroyed inside its callback\<close>

definition callback_run :: "client \<times> worker" where
  "callback_run = run_worker (\<lambda>e. []) (replicate 17 good_example) (started idle_client, worker_start idle_client)"

lemma callback_run_fields:
  "\<exists>s. pc_at (snd callback_run) = InCallback s None 1000001000" "from_worker_thread True (fst callback_run)"
  using fresh_session_callback [OF good_example, of "\<lambda>e. []"]
  by (auto simp: callback_run_def example_config_def default_config_def example_record_def
      classify_status_def ft_observe_def ft_begin_session_def ft_init_def ft_advances_def case_prod_unfold Let_def)

definition callback_sys :: sys where
  "callback_sys = idle_sys\<lparr>s_client := fst callback_run, s_worker := snd callback_run\<rparr>"

lemma reachable_callback: "reachable (\<lambda>e. []) callback_sys"
  using reachable_run [OF reachable_started, of "\<lambda>e. []" "replicate 17 good_example"] started_alive
  by (simp add: callback_sys_def callback_run_def)

theorem destructor_contract_witness:
  "let (c', r, d') = client_destructor (\<lambda>e. []) (Inr 8) True (s_client callback_sys) deferred_destroyer
   in r = Stop_Returns \<and> pending d' = [c'] \<and> stopping c'"
proof -
  have "may_be_worker True (s_worker callback_sys)"
    using callback_run_fields(1) by (auto simp: may_be_worker_def callback_sys_def)
  moreover have "from_worker_thread True (s_client callback_sys)"
    using callback_run_fields(2) by (simp add: callback_sys_def)
  moreover have "s_lock callback_sys = Unlocked" by (simp add: callback_sys_def idle_sys_def)
  moreover obtain c' r d' where eq: "client_destructor (\<lambda>e. []) (Inr 8) True (s_client callback_sys)
      deferred_destroyer = (c', r, d')"
    by (cases "client_destructor (\<lambda>e. []) (Inr 8) True (s_client callback_sys) deferred_destroyer") auto
  ultimately have "r = Stop_Returns \<and> pending d' = [c'] \<and> stopping c'"
    using destructor_contract [OF reachable_callback _ _ eq, of undefined] by (simp add: deferred_destroyer_def)
  then show ?thesis by (simp only: eq Let_def prod.case)
qed

end
