(* ===== verification/Client_Calls.thy ===== *)
theory Client_Calls
  imports Client_Facade
begin

text \<open>
  The calls of \<open>start\<close>, \<open>stop\<close> and the other public operations from their beginning to their
  end, \<open>src/core/src/detail/client_impl.cpp\<close> and the facade \<open>src/core/src/client.cpp\<close> in front
  of it: the loops around the sections of \<open>Client_Lifecycle\<close>, the joins and the waits. A call
  is made while no other caller is between two of its sections; the worker runs, as far as the
  answers of its environment reach, where the call waits for it. \<open>None\<close> is a call that has not
  returned.
\<close>

section \<open>Waiting for the worker\<close>

text \<open>\<open>std::thread::join\<close>: the worker runs to its end.\<close>

fun join_worker :: "(int \<Rightarrow> string) \<Rightarrow> answer list \<Rightarrow> client \<times> worker \<Rightarrow> (client \<times> worker) option" where
  "join_worker strerror [] s = (if pc_at (snd s) = Exited then Some s else None)"
| "join_worker strerror (a # as) s =
     (if pc_at (snd s) = Exited then Some s else join_worker strerror as (worker_step strerror a s))"

lemma exited_stays: "pc_at (snd s) = Exited \<Longrightarrow> run_worker strerror as s = s"
  by (induction as) (simp_all add: worker_step_def)

lemma join_worker_run:
  "join_worker strerror as s =
     (if pc_at (snd (run_worker strerror as s)) = Exited then Some (run_worker strerror as s) else None)"
  by (induction as arbitrary: s) (simp_all add: exited_stays worker_step_def)

text \<open>Another thread that waits in a join of its own gets the lifecycle mutex back and leaves it.\<close>

definition join_finished :: "sys \<Rightarrow> sys" where
  "join_finished s = s\<lparr>s_client := (if s_stop_joins s then stop_joined (s_client s) else start_reaped (s_client s))\<rparr>"

definition with_worker :: "client \<times> worker \<Rightarrow> sys \<Rightarrow> sys" where
  "with_worker cw s = s\<lparr>s_client := fst cw, s_worker := snd cw\<rparr>"

section \<open>stop\<close>

text \<open>
  One turn of the loop for each answer of the socket to the stop request. A turn that finds
  another thread joining waits for it and tries again.
\<close>

fun stop_call :: "(int \<Rightarrow> string) \<Rightarrow> os_count list \<Rightarrow> answer list \<Rightarrow> bool \<Rightarrow> sys \<Rightarrow> sys option" where
  "stop_call strerror [] as self s = None"
| "stop_call strerror (sent # sents) as self s =
     (let (c', r) = stop_sections strerror sent self (s_client s);
          s1 = s\<lparr>s_client := c', s_stop_joins := (if r = Stop_Joins then True else s_stop_joins s)\<rparr>
      in case r of
           Stop_Returns \<Rightarrow> Some s1
         | Stop_Joins \<Rightarrow>
             map_option (\<lambda>cw. with_worker (stop_joined (fst cw), snd cw) s1) (join_worker strerror as (c', s_worker s))
         | Stop_Waits \<Rightarrow>
             (case join_worker strerror as (c', s_worker s) of
                None \<Rightarrow> None
              | Some cw \<Rightarrow> stop_call strerror sents [] self (join_finished (with_worker cw s1))))"

text \<open>The destructor of the implementation, for a worker that is gone already.\<close>

definition impl_destructor :: "(int \<Rightarrow> string) \<Rightarrow> os_count list \<Rightarrow> sys \<Rightarrow> sys option" where
  "impl_destructor strerror sents s = stop_call strerror sents [] False s"

section \<open>start\<close>

text \<open>The creation of the thread, after the hook of the tests when one is set.\<close>

definition create_worker_thread :: "unit result option \<Rightarrow> unit result \<Rightarrow> unit result" where
  "create_worker_thread hook spawned = (case hook of None \<Rightarrow> spawned | Some r \<Rightarrow> and_then r (\<lambda>_. spawned))"

text \<open>
  One turn of the loop for each unit of the fuel. \<open>noticed\<close> says whether the wait for a
  faulted worker sees the worker's notification: see \<open>Condition_Waits\<close> for when it does not.
\<close>

fun start_call ::
  "nat \<Rightarrow> (int \<Rightarrow> string) \<Rightarrow> bool \<Rightarrow> answer list \<Rightarrow> unit result \<Rightarrow> bool \<Rightarrow> bool \<Rightarrow> sys \<Rightarrow> (sys \<times> unit result) option" where
  "start_call 0 strerror noticed as made callback self s = None"
| "start_call (Suc n) strerror noticed as made callback self s =
     (let (c', r) = start_check self (s_client s);
          s1 = s\<lparr>s_client := c', s_stop_joins := (if r = Start_Reaps then False else s_stop_joins s)\<rparr>
      in case r of
           Start_Refused e \<Rightarrow> Some (s1, Inl e)
         | Start_Waits \<Rightarrow>
             (case join_worker strerror as (c', s_worker s) of
                None \<Rightarrow> None
              | Some cw \<Rightarrow>
                  if joining c'
                  then start_call n strerror noticed as made callback self (join_finished (with_worker cw s1))
                  else if noticed then start_call n strerror noticed as made callback self (with_worker cw s1)
                  else None)
         | Start_Reaps \<Rightarrow>
             (case join_worker strerror as (c', s_worker s) of
                None \<Rightarrow> None
              | Some cw \<Rightarrow> start_call n strerror noticed as made callback self (join_finished (with_worker cw s1)))
         | Start_Proceeds \<Rightarrow>
             Some (case made of
                     Inr _ \<Rightarrow> (s1\<lparr>s_client := start_committed (start_reset callback c'), s_worker := worker_start c'\<rparr>, Inr ())
                   | Inl e \<Rightarrow> (s1\<lparr>s_client := start_rollback c' (start_reset callback c')\<rparr>, Inl e)))"

section \<open>The first sample\<close>

text \<open>
  \<open>wait_for_first_sample\<close>: the worker runs until the condition of the wait holds; when the
  answers are used up before, the deadline has passed. The hook of the tests comes in between.
\<close>

fun await_condition :: "(int \<Rightarrow> string) \<Rightarrow> u64 \<Rightarrow> answer list \<Rightarrow> client \<times> worker \<Rightarrow> client \<times> worker" where
  "await_condition strerror g [] s = s"
| "await_condition strerror g (a # as) s =
     (if wait_over g (fst s) \<or> \<not> worker_alive (fst s) then s
      else await_condition strerror g as (worker_step strerror a s))"

definition wait_call ::
  "(int \<Rightarrow> string) \<Rightarrow> (u64 \<Rightarrow> sys \<Rightarrow> sys) option \<Rightarrow> ticks \<Rightarrow> fp \<Rightarrow> answer list \<Rightarrow> sys \<Rightarrow> sys \<times> bool result" where
  "wait_call strerror hook now timeout as s =
     (case wait_begin now timeout (s_client s) of
        Inl e \<Rightarrow> (s, Inl e)
      | Inr None \<Rightarrow> (s, Inr False)
      | Inr (Some (deadline, g)) \<Rightarrow>
          (let s1 = with_worker (await_condition strerror g as (s_client s, s_worker s)) s;
               s2 = (case hook of None \<Rightarrow> s1 | Some f \<Rightarrow> f g s1)
           in (s2, Inr (wait_answer g (s_client s2)))))"

section \<open>The getters\<close>

definition client_fault_code :: "client \<Rightarrow> fault_code" where
  "client_fault_code c = latch c"

definition latest_sample :: "client \<Rightarrow> sample option" where
  "latest_sample c = latest c"

section \<open>The facade\<close>

text \<open>The public members, with what the environment answers while they run.\<close>

datatype request =
    Req_Start "unit result" bool | Req_Stop | Req_Bias os_count os_count | Req_Wait ticks fp
  | Req_Faulted | Req_Fault_Code | Req_Health ticks | Req_Latest

datatype reply =
    Reply_Done "unit result" | Reply_Waited "bool result" | Reply_Bool bool | Reply_Code fault_code
  | Reply_Health health_snapshot | Reply_Sample "sample option"

fun facade_call ::
  "(int \<Rightarrow> string) \<Rightarrow> bool \<Rightarrow> os_count list \<Rightarrow> answer list \<Rightarrow> bool \<Rightarrow> sys \<Rightarrow> request \<Rightarrow> (sys \<times> reply) option" where
  "facade_call strerror noticed sents as self s (Req_Start spawned callback) =
     map_option (map_prod id Reply_Done)
       (start_call 4 strerror noticed as (create_worker_thread None spawned) callback self s)"
| "facade_call strerror noticed sents as self s Req_Stop =
     map_option (\<lambda>s'. (s', Reply_Done (Inr ()))) (stop_call strerror sents as self s)"
| "facade_call strerror noticed sents as self s (Req_Bias a1 a2) =
     (let (c', r) = bias strerror a1 a2 (s_client s) in Some (s\<lparr>s_client := c'\<rparr>, Reply_Done r))"
| "facade_call strerror noticed sents as self s (Req_Wait now timeout) =
     Some (map_prod id Reply_Waited (wait_call strerror None now timeout as s))"
| "facade_call strerror noticed sents as self s Req_Faulted = Some (s, Reply_Bool (faulted (s_client s)))"
| "facade_call strerror noticed sents as self s Req_Fault_Code = Some (s, Reply_Code (client_fault_code (s_client s)))"
| "facade_call strerror noticed sents as self s (Req_Health now) =
     (let (c', h) = take_health now (s_client s) in Some (s\<lparr>s_client := c'\<rparr>, Reply_Health h))"
| "facade_call strerror noticed sents as self s Req_Latest = Some (s, Reply_Sample (latest_sample (s_client s)))"

section \<open>Who joins\<close>

text \<open>
  A worker that is being joined was told to stop or has exited, and its handle is gone from
  the client; the sections of \<open>stop\<close>, and its join, run under the stop request.
\<close>

definition joins_inv :: "sys \<Rightarrow> bool" where
  "joins_inv s \<longleftrightarrow> (s_lock s \<noteq> Unlocked \<longrightarrow> stopping (s_client s))
     \<and> (joining (s_client s) \<longrightarrow> \<not> worker_joinable (s_client s) \<and> (stopping (s_client s) \<or> exited_pc (pc_at (s_worker s))))
     \<and> (joining (s_client s) \<and> s_stop_joins s \<longrightarrow> stopping (s_client s))"

lemma worker_step_joins [simp]:
  "joining (fst (worker_step strerror a s)) = joining (fst s)"
  "worker_joinable (fst (worker_step strerror a s)) = worker_joinable (fst s)"
  "stopping (fst (worker_step strerror a s)) = stopping (fst s)"
  "worker_active (fst (worker_step strerror a s)) = worker_active (fst s)"
  by (cases "pc_at (snd s)";
      auto simp: worker_step_def Let_def case_prod_unfold send_command_def close_session_def stop_streaming_def
        set_fault_def latch_publish_def apply_configuration_def deliver_sample_def record_callback_error_def
        observe_record_def split: sum.split exn.split option.split if_splits)+

lemma mark_stopped_threads [simp]:
  "joining (mark_stopped c) = joining c" "worker_joinable (mark_stopped c) = worker_joinable c"
  "stopping (mark_stopped c) = stopping c" "worker_active (mark_stopped c) = worker_active c"
  by (simp_all add: mark_stopped_def)

lemma exited_pc_step: "exited_pc (pc_at (snd s)) \<Longrightarrow> exited_pc (pc_at (snd (worker_step strerror a s)))"
  by (cases "pc_at (snd s)") (auto simp: exited_pc_def worker_step_def)

lemma joins_inv_step: "sys_step strerror s s' \<Longrightarrow> reachable strerror s \<Longrightarrow> joins_inv s \<Longrightarrow> joins_inv s'"
proof (induction rule: sys_step_induct)
  case (step_worker s a c' w')
  then show ?case
    using worker_step_joins [of strerror a "(s_client s, s_worker s)"] exited_pc_step [of "(s_client s, s_worker s)" strerror a] by (auto simp: joins_inv_def)
next
  case (step_stop_decide s self c' r)
  then show ?case
    using stop_decide_cases [of self "s_client s" c' r] by (auto simp: joins_inv_def)
next
  case (step_start_check s self c' r)
  have "worker_exited (s_client s) \<longleftrightarrow> exited_pc (pc_at (s_worker s))"
    using reachable_parts(3) [OF step_start_check.prems(1)] by (simp add: session_inv_def)
  with step_start_check show ?case
    by (auto simp: joins_inv_def start_check_def Let_def exited_pc_def split: if_splits)
next
  case (step_start s self c' callback)
  then show ?case
    using start_check_Proceeds [of self "s_client s" c']
    by (auto simp: joins_inv_def worker_alive_def start_committed_def start_reset_def)
next
  case (step_start_failed s self c' callback)
  then show ?case
    using start_check_Proceeds [of self "s_client s" c'] start_rollback_reset [OF reachable_parts(1)] by simp
next
  case (step_bias answer1 answer2 s c' r)
  then show ?case using bias_keeps [OF step_bias.hyps] by (simp add: joins_inv_def)
next
  case (step_health now s c' h)
  then show ?case by (auto simp: take_health_def Let_def joins_inv_def)
qed (auto simp: joins_inv_def stop_request_def stop_joined_def start_reaped_def stop_command_def
    stop_streaming_def Let_def send_command_def transport_shutdown_def)

lemma client_init_threads: "client_init now cfg = Inr c \<Longrightarrow> \<not> joining c \<and> \<not> worker_joinable c"
  by (auto simp: client_init_def)

lemma reachable_joins: "reachable strerror s \<Longrightarrow> joins_inv s"
proof (induction rule: reachable.induct)
  case (reachable_initial s)
  then show ?case using client_init_threads by (auto simp: initial_def joins_inv_def)
qed (rule joins_inv_step)

section \<open>stop returns\<close>

lemma with_worker_fields [simp]:
  "s_client (with_worker cw s) = fst cw" "s_worker (with_worker cw s) = snd cw"
  "s_lock (with_worker cw s) = s_lock s" "s_stop_joins (with_worker cw s) = s_stop_joins s"
  by (simp_all add: with_worker_def)

lemma join_reachable:
  assumes "reachable strerror s" and "worker_alive (s_client s)"
    and "pc_at (snd (run_worker strerror as (s_client s, s_worker s))) = Exited"
  obtains cw where "join_worker strerror as (s_client s, s_worker s) = Some cw" and "pc_at (snd cw) = Exited"
    and "reachable strerror (with_worker cw s)" and "cw = run_worker strerror as (s_client s, s_worker s)"
proof -
  let ?cw = "run_worker strerror as (s_client s, s_worker s)"
  have "reachable strerror (with_worker ?cw s)"
    using reachable_run [OF assms(1,2), of as] by (simp add: with_worker_def)
  then show thesis using that [of ?cw] assms(3) by (simp add: join_worker_run)
qed

lemma run_worker_threads [simp]:
  "joining (fst (run_worker strerror as s)) = joining (fst s)"
  "worker_joinable (fst (run_worker strerror as s)) = worker_joinable (fst s)"
  "stopping (fst (run_worker strerror as s)) = stopping (fst s)"
  by (induction as arbitrary: s) simp_all

lemma join_finished_reachable:
  assumes "reachable strerror s" and "s_lock s = Unlocked" and "joining (s_client s)" and "pc_at (s_worker s) = Exited"
  shows "reachable strerror (join_finished s)"
  unfolding join_finished_def
  using step_stop_joined [of s strerror] step_start_reaped [of s strerror] assms
  by (cases "s_stop_joins s") (auto intro: reachable_step [OF assms(1)])

lemma joined_fields [simp]:
  "worker_alive (stop_joined c) = worker_joinable c" "stopping (stop_joined c) = stopping c"
  "worker_alive (start_reaped c) = worker_joinable c" "stopping (start_reaped c) = stopping c"
  "joining (start_reaped c) = False" "joining (stop_joined c) = False"
  "worker_joinable (stop_joined c) = worker_joinable c" "worker_joinable (start_reaped c) = worker_joinable c"
  by (simp_all add: stop_joined_def start_reaped_def worker_alive_def)

lemma join_finished_fields [simp]:
  "s_lock (join_finished s) = s_lock s" "s_worker (join_finished s) = s_worker s"
  "joining (s_client (join_finished s)) = False" "stopping (s_client (join_finished s)) = stopping (s_client s)"
  "worker_joinable (s_client (join_finished s)) = worker_joinable (s_client s)"
  "worker_alive (s_client (join_finished s)) = worker_joinable (s_client s)"
  by (simp_all add: join_finished_def)

text \<open>A client at rest: told to stop, its worker gone, its socket closed.\<close>

definition at_rest :: "client \<Rightarrow> bool" where
  "at_rest c \<longleftrightarrow> stopping c \<and> \<not> worker_alive c \<and> \<not> session_started c \<and> tr_socket (transport c) = None
     \<and> h_state (health c) \<in> {CS_Stopped, CS_Faulted}"

lemma reachable_at_rest:
  assumes "reachable strerror s" and "stopping (s_client s)" and "\<not> worker_alive (s_client s)"
  shows "at_rest (s_client s)"
  using reachable_parts(3,4,7) [OF assms(1)] assms
  by (auto simp: at_rest_def session_inv_def rest_inv_def sessionless_pc_def exited_pc_def)

lemma stop_sections_threads:
  assumes "stop_sections strerror sent self c = (c', r)"
  shows "stopping c'" and "worker_alive c' = worker_alive c" and "joining c' = (joining c \<or> r = Stop_Joins)"
    and "worker_joinable c' = (worker_joinable c \<and> r \<noteq> Stop_Joins)"
    and "\<not> from_worker_thread self c \<Longrightarrow> r = (if joining c then Stop_Waits else if worker_joinable c then Stop_Joins else Stop_Returns)"
  using assms
  by (auto simp: stop_sections_def stop_decide_def worker_alive_def stop_command_def stop_streaming_def Let_def
      transport_shutdown_def stop_request_def send_command_def from_worker_thread_def split: if_splits)

text \<open>One turn of a thread that finds no other one joining.\<close>

lemma stop_turn:
  assumes "reachable strerror s" and "s_lock s = Unlocked" and "\<not> joining (s_client s)"
    and "\<And>c. stopping c \<Longrightarrow> pc_at (snd (run_worker strerror as (c, s_worker s))) = Exited"
  shows "\<exists>s'. stop_call strerror (sent # sents) as False s = Some s' \<and> reachable strerror s' \<and> s_lock s' = Unlocked
    \<and> at_rest (s_client s')"
proof -
  obtain c' r where st: "stop_sections strerror sent False (s_client s) = (c', r)" by force
  let ?s1 = "s\<lparr>s_client := c', s_stop_joins := (if r = Stop_Joins then True else s_stop_joins s)\<rparr>"
  note t = stop_sections_threads [OF st]
  have r: "r = (if worker_joinable (s_client s) then Stop_Joins else Stop_Returns)"
    using t(5) assms(3) by (simp add: from_worker_thread_def)
  have r1: "reachable strerror ?s1"
    by (rule stop_sections_reachable [OF assms(1,2) _ st]) (simp add: may_be_worker_def)
  show ?thesis
  proof (cases "worker_joinable (s_client s)")
    case False
    then have "\<not> worker_alive c'" using t(2) assms(3) by (simp add: worker_alive_def)
    then have "at_rest c'" using reachable_at_rest [OF r1] t(1) by simp
    then show ?thesis using st r r1 False assms(2) by simp
  next
    case True
    have e: "pc_at (snd (run_worker strerror as (c', s_worker s))) = Exited" by (rule assms(4) [OF t(1)])
    obtain cw where cw: "join_worker strerror as (c', s_worker s) = Some cw" "pc_at (snd cw) = Exited"
      "reachable strerror (with_worker cw ?s1)" "cw = run_worker strerror as (c', s_worker s)"
      by (rule join_reachable [OF r1, of as]) (use t r True e in \<open>simp_all add: worker_alive_def\<close>)
    let ?s2 = "with_worker (stop_joined (fst cw), snd cw) ?s1"
    have "?s2 = join_finished (with_worker cw ?s1)"
      using t r True by (intro sys.equality) (simp_all add: join_finished_def)
    then have "reachable strerror ?s2"
      using join_finished_reachable [OF cw(3)] cw t r True assms(2) by simp
    moreover have "at_rest (s_client ?s2)"
      using reachable_at_rest [OF calculation] t r True cw(4) by simp
    ultimately show ?thesis using st r True cw(1) assms(2) by simp
  qed
qed

lemma waits_end_stopped:
  assumes "list_all wait_ends as" and "11 \<le> length as" and "stopping c"
  shows "pc_at (snd (run_worker strerror as (c, w))) = Exited"
  using stop_steps [of "(c, w)" as strerror] stop_rank_le [of "pc_at w"] assms stop_rank_0
  by (metis fst_conv snd_conv diff_is_0_eq le_trans le_zero_eq)

text \<open>
  Whatever the worker is doing and whether or not another thread is joining it, \<open>stop\<close> on a
  thread other than the worker returns, and leaves the client at rest.
\<close>

lemma stop_call_rests:
  assumes "reachable strerror s" and "s_lock s = Unlocked"
    and "list_all wait_ends as" and "11 \<le> length as" and "2 \<le> length sents"
  shows "\<exists>s'. stop_call strerror sents as False s = Some s' \<and> reachable strerror s' \<and> s_lock s' = Unlocked
    \<and> at_rest (s_client s')"
proof -
  obtain sent sent' rest where sents: "sents = sent # sent' # rest"
    using assms(5) by (cases sents; cases "tl sents") auto
  show ?thesis
  proof (cases "joining (s_client s)")
    case False
    show ?thesis
      unfolding sents by (rule stop_turn [OF assms(1,2) False waits_end_stopped [OF assms(3,4)]])
  next
    case True
    obtain c' r where st: "stop_sections strerror sent False (s_client s) = (c', r)" by force
    let ?s1 = "s\<lparr>s_client := c', s_stop_joins := s_stop_joins s\<rparr>"
    note t = stop_sections_threads [OF st]
    have r: "r = Stop_Waits" using t(5) True by (simp add: from_worker_thread_def)
    have r1: "reachable strerror ?s1"
      using stop_sections_reachable [OF assms(1,2) _ st] r by (simp add: may_be_worker_def)
    obtain cw where cw: "join_worker strerror as (c', s_worker s) = Some cw" "pc_at (snd cw) = Exited"
      "reachable strerror (with_worker cw ?s1)" "cw = run_worker strerror as (c', s_worker s)"
      by (rule join_reachable [OF r1, of as])
        (use t True waits_end_stopped [OF assms(3,4) t(1)] in \<open>simp_all add: worker_alive_def\<close>)
    let ?s2 = "join_finished (with_worker cw ?s1)"
    have "reachable strerror ?s2"
      by (rule join_finished_reachable [OF cw(3)]) (use cw t True assms(2) in simp_all)
    then have "\<exists>s'. stop_call strerror (sent' # rest) [] False ?s2 = Some s' \<and> reachable strerror s' \<and> s_lock s' = Unlocked
        \<and> at_rest (s_client s')"
      by (rule stop_turn) (use assms(2) cw(2) in simp_all)
    moreover have "stop_call strerror sents as False s = stop_call strerror (sent' # rest) [] False ?s2"
      unfolding sents stop_call.simps(2) [of strerror sent "sent' # rest"] using st r cw(1) by (simp del: stop_call.simps)
    ultimately show ?thesis by simp
  qed
qed

text \<open>The destructor of a client on such a thread: its stop, and then that of its implementation.\<close>

lemma destroyed_rests:
  assumes "reachable strerror s" and "s_lock s = Unlocked"
    and "list_all wait_ends as" and "11 \<le> length as" and "2 \<le> length sents"
  shows "\<exists>s1 s2. stop_call strerror sents as False s = Some s1 \<and> impl_destructor strerror sents s1 = Some s2
    \<and> reachable strerror s2 \<and> at_rest (s_client s2)"
proof -
  obtain s1 where s1: "stop_call strerror sents as False s = Some s1" "reachable strerror s1" "s_lock s1 = Unlocked"
    "at_rest (s_client s1)"
    using stop_call_rests [OF assms] by blast
  obtain sent rest where sents: "sents = sent # rest" using assms(5) by (cases sents) auto
  have "pc_at (s_worker s1) = Exited" "\<not> joining (s_client s1)"
    using reachable_parts(7) [OF s1(2)] s1(4) by (simp_all add: at_rest_def worker_alive_def)
  then have "\<exists>s2. stop_call strerror sents [] False s1 = Some s2 \<and> reachable strerror s2 \<and> s_lock s2 = Unlocked
      \<and> at_rest (s_client s2)"
    unfolding sents by (intro stop_turn [OF s1(2,3)]) simp_all
  then show ?thesis using s1(1) by (auto simp: impl_destructor_def)
qed

section \<open>start returns\<close>

lemma closing_ends:
  assumes "closing_pc (pc_at w)" and "3 \<le> length as"
  shows "pc_at (snd (run_worker strerror as (c, w))) = Exited"
proof -
  obtain a1 a2 a3 rest where as: "as = a1 # a2 # a3 # rest"
    using assms(2) by (cases as; cases "tl as"; cases "tl (tl as)") auto
  have "pc_at (snd (run_worker strerror [a1, a2, a3] (c, w))) = Exited"
    using assms(1) by (auto simp: closing_pc_def worker_step_def)
  moreover have "run_worker strerror as (c, w) = run_worker strerror rest (run_worker strerror [a1, a2, a3] (c, w))"
    by (simp add: as)
  ultimately show ?thesis by (metis exited_stays)
qed

lemma worker_step_generation [simp]: "generation (fst (worker_step strerror a s)) = generation (fst s)"
  by (cases "pc_at (snd s)";
      auto simp: worker_step_def Let_def case_prod_unfold send_command_def close_session_def stop_streaming_def
        set_fault_def latch_publish_def apply_configuration_def deliver_sample_def record_callback_error_def
        observe_record_def split: sum.split exn.split option.split if_splits)

lemma run_worker_generation [simp]: "generation (fst (run_worker strerror as s)) = generation (fst s)"
  by (induction as arbitrary: s) simp_all

lemma joined_generation [simp]:
  "generation (s_client (join_finished s)) = generation (s_client s)"
  by (simp add: join_finished_def stop_joined_def start_reaped_def mark_stopped_def)

text \<open>What a thread other than the worker gets from \<open>start\<close>, seen from the state it began in.\<close>

definition start_outcome ::
  "(int \<Rightarrow> string) \<Rightarrow> unit result \<Rightarrow> bool \<Rightarrow> sys \<Rightarrow> sys \<times> unit result \<Rightarrow> bool" where
  "start_outcome strerror made callback s out \<longleftrightarrow>
     (case out of (s', r) \<Rightarrow> reachable strerror s' \<and> s_lock s' = Unlocked \<and>
       (case r of
          Inr _ \<Rightarrow> made = Inr () \<and> worker_alive (s_client s') \<and> pc_at (s_worker s') = RunHead
            \<and> \<not> stopping (s_client s') \<and> \<not> faulted (s_client s') \<and> latest (s_client s') = None
            \<and> has_callback (s_client s') = callback \<and> generation (s_client s') = generation (s_client s) + 1
        | Inl e \<Rightarrow> (made = Inl e \<and> \<not> worker_alive (s_client s') \<and> generation (s_client s') = generation (s_client s))
            \<or> (e = LogicError ''client is already running'' \<and> s' = s \<and> worker_joinable (s_client s)
                \<and> \<not> worker_exited (s_client s) \<and> \<not> faulted (s_client s))))"

lemma start_idle:
  assumes "reachable strerror s" and "s_lock s = Unlocked" and "\<not> worker_alive (s_client s)"
    and "generation (s_client s) = generation (s_client s0)"
  shows "\<exists>out. start_call (Suc n) strerror noticed as made callback False s = Some out
    \<and> start_outcome strerror made callback s0 out"
proof -
  have ch: "start_check False (s_client s) = (s_client s, Start_Proceeds)"
    using assms(3) by (simp add: start_check_def from_worker_thread_def worker_alive_def Let_def)
  show ?thesis
  proof (cases made)
    case (Inl e)
    have "reachable strerror (s\<lparr>s_client := start_rollback (s_client s) (start_reset callback (s_client s))\<rparr>)"
      by (rule reachable_step [OF assms(1) step_start_failed]) (use ch assms(2) in simp_all)
    then show ?thesis
      using ch Inl assms start_rollback_reset [OF reachable_parts(1) [OF assms(1)], of callback]
      by (simp add: start_outcome_def)
  next
    case (Inr u)
    let ?c = "start_committed (start_reset callback (s_client s))"
    have "reachable strerror (s\<lparr>s_client := ?c, s_worker := worker_start (s_client s)\<rparr>)"
      by (rule reachable_step [OF assms(1) step_start]) (use ch assms(2) in simp_all)
    moreover have "worker_alive ?c" "\<not> stopping ?c" "\<not> faulted ?c" "latest ?c = None" "has_callback ?c = callback"
      "generation ?c = generation (s_client s0) + 1"
      using assms(4) by (simp_all add: start_committed_def start_reset_def worker_alive_def faulted_iff latch_reset_def)
    ultimately show ?thesis using ch Inr assms(2) by (simp add: start_outcome_def worker_start_def)
  qed
qed

lemma start_joining:
  assumes "reachable strerror s" and "s_lock s = Unlocked" and "joining (s_client s)"
    and "pc_at (snd (run_worker strerror as (s_client s, s_worker s))) = Exited"
    and "generation (s_client s) = generation (s_client s0)"
  shows "\<exists>cw. join_worker strerror as (s_client s, s_worker s) = Some cw
    \<and> (\<exists>out. start_call (Suc n) strerror noticed as' made callback False (join_finished (with_worker cw s)) = Some out
        \<and> start_outcome strerror made callback s0 out)"
proof -
  obtain cw where cw: "join_worker strerror as (s_client s, s_worker s) = Some cw" "pc_at (snd cw) = Exited"
    "reachable strerror (with_worker cw s)" "cw = run_worker strerror as (s_client s, s_worker s)"
    by (rule join_reachable [OF assms(1) _ assms(4)]) (use assms(3) in \<open>simp add: worker_alive_def\<close>)
  have "\<not> worker_joinable (s_client s)" using reachable_joins [OF assms(1)] assms(3) by (simp add: joins_inv_def)
  then have "\<exists>out. start_call (Suc n) strerror noticed as' made callback False (join_finished (with_worker cw s)) = Some out
      \<and> start_outcome strerror made callback s0 out"
    by (intro start_idle join_finished_reachable [OF cw(3)]) (use cw assms in simp_all)
  then show ?thesis using cw(1) by (simp only: option.inject ex_simps) blast
qed

lemma start_exited:
  assumes "reachable strerror s" and "s_lock s = Unlocked" and "\<not> joining (s_client s)" and "worker_joinable (s_client s)"
    and "worker_exited (s_client s)" and "3 \<le> length as" and "generation (s_client s) = generation (s_client s0)"
  shows "\<exists>out. start_call (Suc (Suc n)) strerror noticed as made callback False s = Some out
    \<and> start_outcome strerror made callback s0 out"
proof -
  let ?c = "(s_client s)\<lparr>joining := True, worker_joinable := False\<rparr>"
  let ?s1 = "s\<lparr>s_client := ?c, s_stop_joins := False\<rparr>"
  have ch: "start_check False (s_client s) = (?c, Start_Reaps)"
    using assms(3-5) by (simp add: start_check_def from_worker_thread_def Let_def)
  have r1: "reachable strerror ?s1"
    using step_start_check [of s False ?c Start_Reaps strerror] ch assms(2)
    by (intro reachable_step [OF assms(1)]) (simp add: may_be_worker_def)
  have "closing_pc (pc_at (s_worker s))"
    using reachable_parts(3) [OF assms(1)] assms(5) by (auto simp: session_inv_def exited_pc_def closing_pc_def)
  from closing_ends [OF this assms(6)]
  have "pc_at (snd (run_worker strerror as (?c, s_worker s))) = Exited" .
  then have "\<exists>cw. join_worker strerror as (s_client ?s1, s_worker ?s1) = Some cw
      \<and> (\<exists>out. start_call (Suc n) strerror noticed as made callback False (join_finished (with_worker cw ?s1)) = Some out
          \<and> start_outcome strerror made callback s0 out)"
    by (intro start_joining [OF r1]) (use assms(2,7) in simp_all)
  then show ?thesis
    unfolding start_call.simps(2) [of "Suc n"] using ch by (auto simp del: start_call.simps)
qed

lemma start_call_ends:
  assumes "reachable strerror s" and "s_lock s = Unlocked" and "list_all wait_ends as" and "11 \<le> length as"
  shows "case start_call 4 strerror noticed as made callback False s of
      Some out \<Rightarrow> start_outcome strerror made callback s out
    | None \<Rightarrow> \<not> noticed \<and> worker_joinable (s_client s) \<and> \<not> worker_exited (s_client s) \<and> faulted (s_client s)"
proof -
  let ?goal = "\<exists>out. start_call 4 strerror noticed as made callback False s = Some out \<and> start_outcome strerror made callback s out"
  have len: "3 \<le> length as" using assms(4) by simp
  have four: "(4::nat) = Suc 3" "(3::nat) = Suc (Suc 1)" by simp_all
  consider (joins) "joining (s_client s)"
    | (idle) "\<not> joining (s_client s)" "\<not> worker_joinable (s_client s)"
    | (exited) "\<not> joining (s_client s)" "worker_joinable (s_client s)" "worker_exited (s_client s)"
    | (runs) "\<not> joining (s_client s)" "worker_joinable (s_client s)" "\<not> worker_exited (s_client s)" "\<not> faulted (s_client s)"
    | (faulted) "\<not> joining (s_client s)" "worker_joinable (s_client s)" "\<not> worker_exited (s_client s)" "faulted (s_client s)"
    by blast
  then show ?thesis
  proof cases
    case joins
    have ch: "start_check False (s_client s) = (s_client s, Start_Waits)"
      using joins by (simp add: start_check_def from_worker_thread_def Let_def)
    have "pc_at (snd (run_worker strerror as (s_client s, s_worker s))) = Exited"
      using reachable_joins [OF assms(1)] joins waits_end_stopped [OF assms(3,4)] closing_ends [OF _ len]
      by (auto simp: joins_inv_def exited_pc_def closing_pc_def)
    from start_joining [OF assms(1,2) joins this refl, of "Suc 1" noticed as made callback]
    have ?goal unfolding four(1) start_call.simps(2) four(2) using ch joins by (auto simp del: start_call.simps)
    then show ?thesis by auto
  next
    case idle
    then have ?goal unfolding four(1) by (intro start_idle [OF assms(1,2)]) (simp_all add: worker_alive_def)
    then show ?thesis by auto
  next
    case exited
    then have ?goal unfolding four by (intro start_exited [OF assms(1,2)]) (use len in simp_all)
    then show ?thesis by auto
  next
    case runs
    then have "start_check False (s_client s) = (s_client s, Start_Refused (LogicError ''client is already running''))"
      by (simp add: start_check_def from_worker_thread_def Let_def)
    then show ?thesis
      unfolding four(1) start_call.simps(2) using runs assms(1,2) by (simp add: start_outcome_def del: start_call.simps)
  next
    case faulted
    then have ch: "start_check False (s_client s) = (s_client s, Start_Waits)"
      by (simp add: start_check_def from_worker_thread_def Let_def)
    have "closing_pc (pc_at (s_worker s))" using reachable_parts(2) [OF assms(1)] faulted(4) by (simp add: faulted_iff)
    note ends = closing_ends [OF this len]
    obtain cw where cw: "join_worker strerror as (s_client s, s_worker s) = Some cw" "pc_at (snd cw) = Exited"
      "reachable strerror (with_worker cw s)" "cw = run_worker strerror as (s_client s, s_worker s)"
      by (rule join_reachable [OF assms(1) _ ends]) (use faulted in \<open>simp add: worker_alive_def\<close>)
    show ?thesis
    proof (cases noticed)
      case False
      then show ?thesis
        unfolding four(1) start_call.simps(2) using ch cw(1) faulted by (simp del: start_call.simps)
    next
      case True
      have "worker_exited (fst cw)" using reachable_parts(3) [OF cw(3)] cw(2) by (simp add: session_inv_def exited_pc_def)
      then have "\<exists>out. start_call (Suc (Suc 1)) strerror noticed as made callback False (with_worker cw s) = Some out
          \<and> start_outcome strerror made callback s out"
        by (intro start_exited [OF cw(3)]) (use cw(4) faulted assms(2) len in simp_all)
      then have ?goal
        unfolding four(1) start_call.simps(2) four(2) using ch cw(1) faulted(1) True by (auto simp del: start_call.simps)
      then show ?thesis by auto
    qed
  qed
qed

section \<open>The calls end\<close>

text \<open>
  C9: \<open>stop\<close> returns. Whatever the worker is doing and whether or not another thread is
  joining it, a call on a thread other than the worker ends, once every wait for a datagram
  ends, with the client at rest: told to stop, no worker thread, no session, the socket
  closed, stopped or faulted. Inside the callback the call returns without waiting.
\<close>

theorem stop_call_returns:
  assumes "reachable strerror s" and "s_lock s = Unlocked"
    and "list_all wait_ends as" and "11 \<le> length as" and "2 \<le> length sents"
  shows "(\<exists>s'. stop_call strerror sents as False s = Some s' \<and> reachable strerror s' \<and> s_lock s' = Unlocked
      \<and> at_rest (s_client s'))
    \<and> (from_worker_thread True (s_client s) \<longrightarrow>
        (\<exists>s'. stop_call strerror sents [] True s = Some s' \<and> s_worker s' = s_worker s
          \<and> stopping (s_client s') \<and> \<not> session_started (s_client s')))"
proof
  show "\<exists>s'. stop_call strerror sents as False s = Some s' \<and> reachable strerror s' \<and> s_lock s' = Unlocked
      \<and> at_rest (s_client s')"
    by (rule stop_call_rests [OF assms])
  obtain sent rest where sents: "sents = sent # rest" using assms(5) by (cases sents) auto
  show "from_worker_thread True (s_client s) \<longrightarrow>
      (\<exists>s'. stop_call strerror sents [] True s = Some s' \<and> s_worker s' = s_worker s
        \<and> stopping (s_client s') \<and> \<not> session_started (s_client s'))"
    by (auto simp: sents stop_sections_def stop_decide_def)
qed

text \<open>A streaming client inside its callback, stopped from another thread and from the callback.\<close>

theorem stop_call_returns_witness:
  "\<exists>s'. stop_call (\<lambda>e. []) [Inr 8, Inr 8] (replicate 11 quiet_answer) False callback_sys = Some s'
    \<and> at_rest (s_client s')"
proof -
  have "list_all wait_ends (replicate 11 quiet_answer)"
    by (simp add: quiet_answer_def wait_ends_def list_all_length)
  moreover have "s_lock callback_sys = Unlocked" by (simp add: callback_sys_def idle_sys_def)
  ultimately show ?thesis
    using stop_call_returns [OF reachable_callback, of "replicate 11 quiet_answer" "[Inr 8, Inr 8]"] by auto
qed

text \<open>
  C18: \<open>start\<close> by a thread other than the worker gives a fresh worker with an empty latch and
  no sample of an earlier generation, or changes nothing that matters: it throws at once on a
  client that is running unfaulted, leaving it untouched, or rethrows the failure to create
  the thread with no worker left. It returns, unless it has to wait for a faulted worker that
  has not exited yet and misses that worker's notification.
\<close>

theorem start_call_outcome:
  assumes "reachable strerror s" and "s_lock s = Unlocked" and "list_all wait_ends as" and "11 \<le> length as"
  shows "case start_call 4 strerror noticed as made callback False s of
      Some out \<Rightarrow> start_outcome strerror made callback s out
    | None \<Rightarrow> \<not> noticed \<and> worker_joinable (s_client s) \<and> \<not> worker_exited (s_client s) \<and> faulted (s_client s)"
  by (rule start_call_ends [OF assms])

theorem start_call_outcome_witness:
  "\<exists>s' r. start_call 4 (\<lambda>e. []) False (replicate 11 quiet_answer) (Inr ()) True False callback_sys = Some (s', r)
    \<and> (r = Inr () \<or> (s' = callback_sys \<and> r = Inl (LogicError ''client is already running'')))"
proof -
  have "list_all wait_ends (replicate 11 quiet_answer)"
    by (simp add: quiet_answer_def wait_ends_def list_all_length)
  moreover have "s_lock callback_sys = Unlocked" by (simp add: callback_sys_def idle_sys_def)
  moreover have "\<not> faulted (s_client callback_sys)"
    using callback_run_fields(1) reachable_parts(2) [OF reachable_callback]
    by (auto simp: callback_sys_def closing_pc_def faulted_iff)
  ultimately have "case start_call 4 (\<lambda>e. []) False (replicate 11 quiet_answer) (Inr ()) True False callback_sys of
      Some out \<Rightarrow> start_outcome (\<lambda>e. []) (Inr ()) True callback_sys out | None \<Rightarrow> False"
    using start_call_outcome [OF reachable_callback, of "replicate 11 quiet_answer" False "Inr ()" True]
    by (auto split: option.splits)
  then obtain s' r where out: "start_call 4 (\<lambda>e. []) False (replicate 11 quiet_answer) (Inr ()) True False callback_sys = Some (s', r)"
    "start_outcome (\<lambda>e. []) (Inr ()) True callback_sys (s', r)" by (auto split: option.splits)
  then show ?thesis by (cases r) (auto simp: start_outcome_def)
qed

section \<open>The facade forwards\<close>

text \<open>Every public call that returns leaves a state that the interleaved sections can reach.\<close>

lemma with_worker_same [simp]:
  "with_worker cw (s\<lparr>s_client := c, s_worker := w\<rparr>) = with_worker cw s"
  "with_worker (s_client s, s_worker s) s = s"
  by (simp_all add: with_worker_def)

lemma await_condition_reachable:
  assumes "reachable strerror s"
  shows "reachable strerror (with_worker (await_condition strerror g as (s_client s, s_worker s)) s)"
  using assms
proof (induction as arbitrary: s)
  case (Cons a as)
  obtain c' w' where st: "worker_step strerror a (s_client s, s_worker s) = (c', w')" by force
  let ?s1 = "s\<lparr>s_client := c', s_worker := w'\<rparr>"
  have "reachable strerror ?s1" if "worker_alive (s_client s)"
    using that st by (intro reachable_step [OF Cons.prems] step_worker)
  then show ?case using Cons.IH [of ?s1] Cons.prems st by simp
qed (simp add: with_worker_def)

lemma facade_call_reachable:
  assumes "reachable strerror s" and "s_lock s = Unlocked" and "list_all wait_ends as" and "11 \<le> length as"
    and "2 \<le> length sents" and "facade_call strerror noticed sents as False s req = Some (s', rep)"
  shows "reachable strerror s'"
proof (cases req)
  case (Req_Start spawned callback)
  obtain out where "start_call 4 strerror noticed as (create_worker_thread None spawned) callback False s = Some out" "s' = fst out"
    using assms(6) by (auto simp: Req_Start)
  then show ?thesis
    using start_call_ends [OF assms(1-4), of noticed "create_worker_thread None spawned" callback]
    by (auto simp: start_outcome_def)
next
  case Req_Stop
  then show ?thesis using assms(6) stop_call_rests [OF assms(1-5)] by auto
next
  case (Req_Bias a1 a2)
  then show ?thesis
    using assms(6) step_bias [of strerror a1 a2 s] by (auto split: prod.splits intro: reachable_step [OF assms(1)])
next
  case (Req_Wait now timeout)
  have "s' = fst (wait_call strerror None now timeout as s)" 
    using assms(6) by (cases "wait_call strerror None now timeout as s") (auto simp: Req_Wait)
  then show ?thesis
    using await_condition_reachable [OF assms(1)] assms(1)
    by (auto simp: wait_call_def Let_def split: sum.split option.split)
next
  case (Req_Health now)
  then show ?thesis
    using assms(6) step_health [of now s _ _ strerror] by (auto split: prod.splits intro: reachable_step [OF assms(1)])
qed (use assms(1,6) in auto)

end
