(* ===== verification/Check_System.thy ===== *)
theory Check_System
  imports Session_Run Check_Tool Client_Calls
begin

text \<open>
  The tool with its client inside, \<open>run_check\<close> of \<open>src/check_main.cpp\<close> step by step: the main
  thread in its two loops and in the stops that end them, the worker whose callback fills the
  slot of the last sample, and the signal flag, interleaved. It shows that \<open>Check_Tool.run_check\<close>
  is what this system computes from what the main thread saw, where the last sample of the
  report comes from, and that every way out leaves a client at rest.
\<close>

section \<open>The slot and the guard\<close>

text \<open>\<open>LastSampleSlot\<close>: what the callback stores and the main thread loads.\<close>

definition slot_store :: "sample \<Rightarrow> sample option \<Rightarrow> sample option" where
  "slot_store smp slot = Some smp"

definition slot_load :: "sample option \<Rightarrow> sample option" where
  "slot_load slot = slot"

section \<open>The main thread\<close>

text \<open>
  A place for each access to the client, the clock or the slot. \<open>CP_Leaving\<close> is the way out of
  \<open>run_check\<close> with a result or an exception, counting the stops that are done of the guard's,
  that of the destructor of the client and that of its implementation's.
\<close>

datatype check_place =
    CP_Starting | CP_First | CP_Checking | CP_Fault_Seen | CP_Clock | CP_Measuring | CP_Stopping | CP_Stopped
  | CP_Elapsed fp | CP_Report fp health_snapshot
  | CP_Leaving nat "check_result result" | CP_Over "check_result result"

record csys =
  cs_sys :: sys
  cs_slot :: "sample option"
  cs_place :: check_place
  cs_polls :: "poll list"
  cs_trace :: "event list"

definition poll_of :: "u64 \<Rightarrow> bool \<Rightarrow> bool \<Rightarrow> string \<Rightarrow> ticks \<Rightarrow> poll" where
  "poll_of received sigint fault m now =
     \<lparr>po_received = received, po_interrupted = sigint, po_faulted = fault, po_last_error = m, po_now = now\<rparr>"

text \<open>A step to a place, with the poll that the step completes.\<close>

definition goes :: "check_place \<Rightarrow> poll list \<Rightarrow> csys \<Rightarrow> csys" where
  "goes p ps s = s\<lparr>cs_place := p, cs_polls := cs_polls s @ ps\<rparr>"

definition throws :: "exn \<Rightarrow> check_place" where
  "throws e = CP_Leaving 0 (Inl e)"

definition check_client :: "csys \<Rightarrow> client" where
  "check_client s = s_client (cs_sys s)"

definition with_client :: "client \<Rightarrow> csys \<Rightarrow> csys" where
  "with_client c s = s\<lparr>cs_sys := (cs_sys s)\<lparr>s_client := c\<rparr>\<rparr>"

section \<open>The stop of one caller\<close>

text \<open>The sections of a \<open>stop\<close> by a thread other than the worker, and whether it returns.\<close>

inductive stop_advance :: "(int \<Rightarrow> string) \<Rightarrow> sys \<Rightarrow> sys \<Rightarrow> bool \<Rightarrow> bool" for strerror where
  sa_request: "s_lock y = Unlocked \<Longrightarrow> \<not> joining (s_client y) \<Longrightarrow>
     stop_advance strerror y (y\<lparr>s_client := stop_request (s_client y), s_lock := StopRequested False\<rparr>) False"
| sa_command: "s_lock y = StopRequested False \<Longrightarrow>
     stop_advance strerror y (y\<lparr>s_client := stop_command strerror answer (s_client y), s_lock := StopCommanded False\<rparr>) False"
| sa_decide: "s_lock y = StopCommanded False \<Longrightarrow> stop_decide False (s_client y) = (c', r) \<Longrightarrow>
     stop_advance strerror y (y\<lparr>s_client := c', s_lock := Unlocked,
       s_stop_joins := (if r = Stop_Joins then True else s_stop_joins y)\<rparr>) (r = Stop_Returns)"
| sa_joined: "s_lock y = Unlocked \<Longrightarrow> joining (s_client y) \<Longrightarrow> s_stop_joins y \<Longrightarrow> pc_at (s_worker y) = Exited \<Longrightarrow>
     stop_advance strerror y (y\<lparr>s_client := stop_joined (s_client y)\<rparr>) True"

lemma stop_advance_api: "stop_advance strerror y y' done \<Longrightarrow> api_step strerror y y'"
proof (induction rule: stop_advance.induct)
  case (sa_request y)
  then show ?case by (intro api_stop_request) (simp_all add: may_be_worker_def)
next
  case (sa_command y answer)
  then show ?case by (intro api_stop_command)
next
  case (sa_decide y c' r)
  then show ?case by (intro api_stop_decide)
next
  case (sa_joined y)
  then show ?case by (intro api_stop_joined)
qed

text \<open>The stop that a place is in, and the place after it.\<close>

fun in_stop :: "check_place \<Rightarrow> bool" where
  "in_stop CP_Stopping = True"
| "in_stop (CP_Leaving n r) = True"
| "in_stop p = False"

fun after_stop :: "check_place \<Rightarrow> check_place" where
  "after_stop CP_Stopping = CP_Stopped"
| "after_stop (CP_Leaving n r) = (if n < 2 then CP_Leaving (Suc n) r else CP_Over r)"
| "after_stop p = p"

section \<open>The system\<close>

text \<open>The callback stores the sample; it does not throw.\<close>

definition check_worker :: "(int \<Rightarrow> string) \<Rightarrow> answer \<Rightarrow> csys \<Rightarrow> csys" where
  "check_worker strerror ans s =
     (let cw = (check_client s, s_worker (cs_sys s));
          ans' = ans\<lparr>a_callback := Returned\<rparr>
      in s\<lparr>cs_sys := with_worker (worker_step strerror ans' cw) (cs_sys s),
           cs_slot := (case pc_at (snd cw) of InCallback smp out d \<Rightarrow> slot_store smp (cs_slot s) | _ \<Rightarrow> cs_slot s),
           cs_trace := worker_events strerror ans' cw @ cs_trace s\<rparr>)"

text \<open>\<open>t0\<close> is the reading of the clock before \<open>start\<close>; the flag is read by the main thread only.\<close>

inductive check_step :: "(int \<Rightarrow> string) \<Rightarrow> ticks \<Rightarrow> options \<Rightarrow> csys \<Rightarrow> csys \<Rightarrow> bool" for strerror t0 opts where
  ck_worker: "worker_alive (check_client s) \<Longrightarrow> discovers (cl_config (check_client s)) ans \<Longrightarrow>
     check_step strerror t0 opts s (check_worker strerror ans s)"
| ck_start: "cs_place s = CP_Starting \<Longrightarrow> start_call 4 strerror True [] made True False (cs_sys s) = Some (y, r) \<Longrightarrow>
     check_step strerror t0 opts s
       (goes (case r of Inr u \<Rightarrow> CP_First | Inl e \<Rightarrow> throws e) [] (s\<lparr>cs_sys := y\<rparr>))"
| ck_received: "cs_place s = CP_First \<Longrightarrow> take_health now (check_client s) = (c', h) \<Longrightarrow> received_count h \<noteq> 0 \<Longrightarrow>
     check_step strerror t0 opts s (goes CP_Measuring [poll_of (received_count h) False False [] 0] (with_client c' s))"
| ck_empty: "cs_place s = CP_First \<Longrightarrow> take_health now (check_client s) = (c', h) \<Longrightarrow> received_count h = 0 \<Longrightarrow>
     check_step strerror t0 opts s (goes CP_Checking [] (with_client c' s))"
| ck_interrupted: "cs_place s = CP_Checking \<Longrightarrow>
     check_step strerror t0 opts s (goes (throws (RuntimeError ''interrupted'')) [poll_of 0 True False [] 0] s)"
| ck_fault: "cs_place s = CP_Checking \<Longrightarrow> faulted (check_client s) \<Longrightarrow>
     check_step strerror t0 opts s (goes CP_Fault_Seen [] s)"
| ck_no_fault: "cs_place s = CP_Checking \<Longrightarrow> \<not> faulted (check_client s) \<Longrightarrow>
     check_step strerror t0 opts s (goes CP_Clock [] s)"
| ck_fault_text: "cs_place s = CP_Fault_Seen \<Longrightarrow> take_health now (check_client s) = (c', h) \<Longrightarrow>
     check_step strerror t0 opts s
       (goes (throws (RuntimeError (last_error h))) [poll_of 0 False True (last_error h) 0] (with_client c' s))"
| ck_clock: "cs_place s = CP_Clock \<Longrightarrow>
     check_step strerror t0 opts s
       (goes (if fle (first_deadline t0 opts) (at_ns now) then throws (RuntimeError ''no Net F/T sample received'')
              else CP_First) [poll_of 0 False False [] now] s)"
| ck_measure: "cs_place s = CP_Measuring \<Longrightarrow>
     check_step strerror t0 opts s
       (goes (if \<not> flt (at_ns now) (deadline_after t0 (op_duration opts)) then CP_Stopping
              else if sigint then throws (RuntimeError ''interrupted'') else CP_Measuring)
          [poll_of 0 sigint False [] now] s)"
| ck_stop: "in_stop (cs_place s) \<Longrightarrow> stop_advance strerror (cs_sys s) y returned \<Longrightarrow>
     check_step strerror t0 opts s
       (goes (if returned then after_stop (cs_place s) else cs_place s) [] (s\<lparr>cs_sys := y\<rparr>))"
| ck_elapsed: "cs_place s = CP_Stopped \<Longrightarrow>
     check_step strerror t0 opts s (goes (CP_Elapsed (seconds_of (now - t0))) [] s)"
| ck_health: "cs_place s = CP_Elapsed e \<Longrightarrow> take_health now (check_client s) = (c', h) \<Longrightarrow>
     check_step strerror t0 opts s (goes (CP_Report e h) [] (with_client c' s))"
| ck_load: "cs_place s = CP_Report e h \<Longrightarrow>
     check_step strerror t0 opts s
       (goes (CP_Leaving 0 (Inr \<lparr>cr_endpoint = sensor_host (op_config opts) @ '':'' @ dec_of_int (rdt_port (op_config opts)),
          cr_requested = op_duration opts, cr_elapsed = e, cr_health = h, cr_last = slot_load (cs_slot s)\<rparr>)) [] s)"

text \<open>The client was built of the options; the guard is armed.\<close>

definition check_begins :: "options \<Rightarrow> csys \<Rightarrow> bool" where
  "check_begins opts s \<longleftrightarrow> (\<exists>now. client_init now (op_config opts) = Inr (check_client s))
     \<and> pc_at (s_worker (cs_sys s)) = Exited \<and> s_lock (cs_sys s) = Unlocked
     \<and> cs_slot s = None \<and> cs_place s = CP_Starting \<and> cs_polls s = [] \<and> cs_trace s = []"

inductive check_reachable :: "(int \<Rightarrow> string) \<Rightarrow> ticks \<Rightarrow> options \<Rightarrow> csys \<Rightarrow> bool" for strerror t0 opts where
  ck_begins: "check_begins opts s \<Longrightarrow> check_reachable strerror t0 opts s"
| ck_continues: "check_reachable strerror t0 opts s \<Longrightarrow> check_step strerror t0 opts s s' \<Longrightarrow>
     check_reachable strerror t0 opts s'"

section \<open>The threads\<close>

text \<open>The places that only a finished stop leads to.\<close>

fun stopped_place :: "check_place \<Rightarrow> bool" where
  "stopped_place CP_Stopped = True"
| "stopped_place (CP_Elapsed e) = True"
| "stopped_place (CP_Report e h) = True"
| "stopped_place (CP_Leaving n r) = (n > 0 \<or> (case r of Inl e \<Rightarrow> False | Inr res \<Rightarrow> True))"
| "stopped_place (CP_Over r) = True"
| "stopped_place p = False"

definition thread_inv :: "csys \<Rightarrow> bool" where
  "thread_inv s \<longleftrightarrow>
     (let y = cs_sys s; p = cs_place s in
      (stopped_place p \<longrightarrow> \<not> worker_alive (s_client y) \<and> stopping (s_client y))
      \<and> (p = CP_Starting \<longrightarrow> \<not> worker_alive (s_client y))
      \<and> (\<not> in_stop p \<longrightarrow> s_lock y = Unlocked \<and> \<not> joining (s_client y)))"

lemma place_simps [simp]:
  "stopped_place (throws e) = False" "in_stop (throws e) = True" "throws e \<noteq> CP_Starting"
  by (simp_all add: throws_def)

lemma goes_fields [simp]:
  "cs_sys (goes p ps s) = cs_sys s" "cs_slot (goes p ps s) = cs_slot s" "cs_place (goes p ps s) = p"
  "cs_trace (goes p ps s) = cs_trace s" "cs_polls (goes p ps s) = cs_polls s @ ps"
  by (simp_all add: goes_def)

lemma with_client_fields [simp]:
  "cs_sys (with_client c s) = (cs_sys s)\<lparr>s_client := c\<rparr>" "cs_slot (with_client c s) = cs_slot s"
  "cs_place (with_client c s) = cs_place s" "cs_trace (with_client c s) = cs_trace s"
  "cs_polls (with_client c s) = cs_polls s"
  by (simp_all add: with_client_def)

lemma take_health_threads:
  "take_health now c = (c', h) \<Longrightarrow> worker_alive c' = worker_alive c \<and> stopping c' = stopping c \<and> joining c' = joining c"
  by (auto simp: take_health_def Let_def worker_alive_def)

text \<open>The start of a client without a worker is one section.\<close>

lemma start_call_once:
  assumes "\<not> worker_alive (s_client y)" and "s_lock y = Unlocked"
    and "start_call 4 strerror noticed as made callback False y = Some (y', r)"
  shows "api_step strerror y y'" and "r = Inr u \<Longrightarrow> worker_alive (s_client y')" and "r = Inl e \<Longrightarrow> s_client y' = start_rollback (s_client y) (start_reset callback (s_client y))"
    and "s_lock y' = Unlocked" and "\<not> joining (s_client y')"
proof -
  let ?c = "s_client y"
  have ch: "start_check False ?c = (?c, Start_Proceeds)"
    using assms(1) by (simp add: start_check_def from_worker_thread_def worker_alive_def Let_def)
  have "start_call (Suc 3) strerror noticed as made callback False y = Some (y', r)" using assms(3) by simp
  then have y': "(y', r) = (case made of
      Inr u \<Rightarrow> (y\<lparr>s_client := start_committed (start_reset callback ?c), s_worker := worker_start ?c\<rparr>, Inr ())
    | Inl e \<Rightarrow> (y\<lparr>s_client := start_rollback ?c (start_reset callback ?c)\<rparr>, Inl e))"
    by (simp only: start_call.simps(2)) (use ch in \<open>auto simp del: start_call.simps\<close>)
  show "api_step strerror y y'"
  proof (cases made)
    case (Inl e)
    then show ?thesis using y' api_start_failed [OF assms(2) ch, of strerror callback] by simp
  next
    case (Inr u)
    then show ?thesis using y' api_start [OF assms(2) ch, of strerror callback] by simp
  qed
  have "\<not> joining ?c" using assms(1) by (simp add: worker_alive_def)
  then show "r = Inr u \<Longrightarrow> worker_alive (s_client y')" "r = Inl e \<Longrightarrow> s_client y' = start_rollback ?c (start_reset callback ?c)"
    "s_lock y' = Unlocked" "\<not> joining (s_client y')"
    using y' assms(2)
    by (auto simp: start_committed_def start_reset_def worker_alive_def start_rollback_def set_fault_def latch_publish_def Let_def
        split: sum.splits)
qed

lemma stop_advance_threads:
  assumes "stop_advance strerror y y' done" and "joins_inv y"
  shows "stopping (s_client y')" and "worker_alive (s_client y') \<Longrightarrow> worker_alive (s_client y)"
    and "done \<Longrightarrow> \<not> worker_alive (s_client y') \<and> s_lock y' = Unlocked \<and> \<not> joining (s_client y')"
  using assms
  by (induction rule: stop_advance.induct)
    (auto simp: stop_request_def stop_command_def stop_streaming_def Let_def worker_alive_def stop_decide_def
      from_worker_thread_def stop_joined_def joins_inv_def split: if_splits)

lemma after_stop_places [simp]:
  "in_stop p \<Longrightarrow> after_stop p \<noteq> CP_Starting" "in_stop p \<Longrightarrow> stopped_place (after_stop p)"
  by (cases p; simp)+

lemma thread_inv_step:
  assumes "check_step strerror t0 opts s s'" and "thread_inv s" and "joins_inv (cs_sys s)"
  shows "thread_inv s'"
  using assms
proof (induction rule: check_step.induct)
  case (ck_worker s ans)
  let ?s' = "check_worker strerror ans s"
  have "worker_alive (s_client (cs_sys ?s')) = worker_alive (check_client s)"
    "stopping (s_client (cs_sys ?s')) = stopping (check_client s)" "joining (s_client (cs_sys ?s')) = joining (check_client s)"
    "s_lock (cs_sys ?s') = s_lock (cs_sys s)" "cs_place ?s' = cs_place s"
    by (simp_all add: check_worker_def Let_def check_client_def alive_step)
  then show ?case using ck_worker.prems(1) by (simp add: thread_inv_def Let_def check_client_def)
next
  case (ck_start s y r)
  then have y: "\<not> worker_alive (s_client (cs_sys s))" "s_lock (cs_sys s) = Unlocked" by (simp_all add: thread_inv_def Let_def)
  show ?case using start_call_once [OF y ck_start.hyps(2)] by (simp add: thread_inv_def Let_def split: sum.split)
next
  case (ck_stop s y returned)
  note t = stop_advance_threads [OF ck_stop.hyps(2) ck_stop.prems(2)]
  have ne: "cs_place s \<noteq> CP_Starting" using ck_stop.hyps(1) by auto
  show ?case
    using t ck_stop.prems(1) ck_stop.hyps(1) ne by (cases returned) (auto simp: thread_inv_def Let_def)
next
  case (ck_measure s now sigint)
  then show ?case by (auto simp: thread_inv_def Let_def)
qed (auto simp: thread_inv_def Let_def check_client_def dest: take_health_threads)

section \<open>Where the samples come from\<close>

text \<open>A step of the main thread is a section of the client's, or leaves the client alone.\<close>

lemma main_thread_step:
  assumes "check_step strerror t0 opts s s'" and "thread_inv s"
  shows "(\<exists>ans. worker_alive (check_client s) \<and> discovers (cl_config (check_client s)) ans \<and> s' = check_worker strerror ans s)
    \<or> ((cs_sys s' = cs_sys s \<or> api_step strerror (cs_sys s) (cs_sys s')) \<and> cs_slot s' = cs_slot s \<and> cs_trace s' = cs_trace s)"
  using assms
proof (induction rule: check_step.induct)
  case (ck_start s y r)
  then have y: "\<not> worker_alive (s_client (cs_sys s))" "s_lock (cs_sys s) = Unlocked" by (simp_all add: thread_inv_def Let_def)
  show ?case using start_call_once(1) [OF y ck_start.hyps(2)] by simp
next
  case (ck_stop s y returned)
  then show ?case using stop_advance_api by simp
qed (auto simp: check_client_def intro: api_health)

definition source_inv :: "(int \<Rightarrow> string) \<Rightarrow> options \<Rightarrow> csys \<Rightarrow> bool" where
  "source_inv strerror opts s \<longleftrightarrow>
     reachable strerror (cs_sys s) \<and> cl_config (check_client s) = op_config opts
     \<and> (\<exists>now. validate_config now (op_config opts) = Inr ())
     \<and> traced (cs_trace s) (check_client s) (s_worker (cs_sys s)) \<and> known_trace (op_config opts) (cs_trace s)
     \<and> (\<forall>smp. cs_slot s = Some smp \<longrightarrow> sampled (cs_trace s) smp)"

lemma source_inv_worker:
  assumes "source_inv strerror opts s" and "worker_alive (check_client s)" and "discovers (cl_config (check_client s)) ans"
  shows "source_inv strerror opts (check_worker strerror ans s)"
proof -
  let ?cw = "(check_client s, s_worker (cs_sys s))" and ?a = "ans\<lparr>a_callback := Returned\<rparr>"
  let ?s' = "check_worker strerror ans s"
  obtain c' w' where st: "worker_step strerror ?a ?cw = (c', w')" by force
  let ?es = "worker_events strerror ?a ?cw @ cs_trace s"
  have s': "check_client ?s' = c'" "s_worker (cs_sys ?s') = w'" "cs_trace ?s' = ?es"
    "cs_sys ?s' = (cs_sys s)\<lparr>s_client := c', s_worker := w'\<rparr>"
    by (simp_all add: check_worker_def check_client_def st [unfolded check_client_def] with_worker_def Let_def)
  obtain cu where "a_discovered ?a = discover_sensor cu (session_options (op_config opts))"
    using assms(1,3) by (auto simp: discovers_def source_inv_def)
  then have "known_trace (op_config opts) ?es"
    using known_worker [of "op_config opts" "cs_trace s" ?cw ?a] assms(1) by (simp add: source_inv_def)
  moreover have "reachable strerror (cs_sys ?s')"
    unfolding s' using assms(1,2) st
    by (intro reachable_step [OF _ step_worker]) (simp_all add: source_inv_def check_client_def)
  moreover have "traced ?es c' w'"
    using traced_worker [of "cs_trace s" ?cw strerror ?a] assms(1) by (simp add: st source_inv_def)
  moreover have "cl_config c' = cl_config (check_client s)" using worker_config [of strerror ?a ?cw] by (simp add: st)
  moreover have "sampled ?es smp" if "cs_slot ?s' = Some smp" for smp
  proof (cases "\<exists>smp' out d. pc_at (s_worker (cs_sys s)) = InCallback smp' out d")
    case True
    then show ?thesis
      using that assms(1) by (auto simp: source_inv_def traced_def check_worker_def slot_store_def Let_def intro: sampled_mono)
  next
    case False
    then have "cs_slot ?s' = cs_slot s" by (auto simp: check_worker_def Let_def split: pc.split)
    then have "sampled (cs_trace s) smp" using that assms(1) by (simp add: source_inv_def)
    then show ?thesis by (rule sampled_mono) auto
  qed
  ultimately show ?thesis using assms(1) by (simp add: source_inv_def s')
qed

lemma source_inv_step:
  assumes "check_step strerror t0 opts s s'" and "source_inv strerror opts s" and "thread_inv s"
  shows "source_inv strerror opts s'"
  using main_thread_step [OF assms(1,3)]
proof (elim disjE exE conjE)
  fix ans
  assume "worker_alive (check_client s)" "discovers (cl_config (check_client s)) ans" "s' = check_worker strerror ans s"
  then show ?thesis using source_inv_worker [OF assms(2)] by simp
next
  assume "cs_sys s' = cs_sys s" "cs_slot s' = cs_slot s" "cs_trace s' = cs_trace s"
  then show ?thesis using assms(2) by (simp add: source_inv_def check_client_def)
next
  assume api: "api_step strerror (cs_sys s) (cs_sys s')" and "cs_slot s' = cs_slot s" "cs_trace s' = cs_trace s"
  moreover have r: "reachable strerror (cs_sys s)" using assms(2) by (simp add: source_inv_def)
  moreover have "reachable strerror (cs_sys s')" by (rule reachable_step [OF r step_api [OF api]])
  ultimately show ?thesis
    using assms(2) traced_api [OF api] api_config [OF api] reachable_parts(1) [OF r]
    by (simp add: source_inv_def check_client_def)
qed

section \<open>What the main thread saw\<close>

definition loops :: "ticks \<Rightarrow> options \<Rightarrow> poll list \<Rightarrow> unit result option" where
  "loops t0 opts ps =
     (case await_first (first_deadline t0 opts) ps of
        None \<Rightarrow> None
      | Some (Inl e) \<Rightarrow> Some (Inl e)
      | Some (Inr rest) \<Rightarrow> measure_for (deadline_after t0 (op_duration opts)) rest)"

definition report_of :: "options \<Rightarrow> fp \<Rightarrow> health_snapshot \<Rightarrow> sample option \<Rightarrow> check_result" where
  "report_of opts e h smp =
     \<lparr>cr_endpoint = sensor_host (op_config opts) @ '':'' @ dec_of_int (rdt_port (op_config opts)),
      cr_requested = op_duration opts, cr_elapsed = e, cr_health = h, cr_last = smp\<rparr>"

lemma run_check_loops:
  "run_check t0 ps stopped h smp opts =
     map_option (map_sum id (\<lambda>_. report_of opts (seconds_of (stopped - t0)) h smp)) (loops t0 opts ps)"
  by (simp add: run_check_def loops_def report_of_def split: option.split sum.split)

definition outcome_inv :: "ticks \<Rightarrow> options \<Rightarrow> csys \<Rightarrow> check_result result \<Rightarrow> bool" where
  "outcome_inv t0 opts s r \<longleftrightarrow>
     (case r of
        Inl e \<Rightarrow> cs_polls s = [] \<or> loops t0 opts (cs_polls s) = Some (Inl e)
      | Inr res \<Rightarrow> loops t0 opts (cs_polls s) = Some (Inr ())
          \<and> (\<exists>stopped h. res = report_of opts (seconds_of (stopped - t0)) h (cs_slot s)))"

definition place_inv :: "ticks \<Rightarrow> options \<Rightarrow> csys \<Rightarrow> bool" where
  "place_inv t0 opts s \<longleftrightarrow>
     (case cs_place s of
        CP_Starting \<Rightarrow> cs_polls s = []
      | CP_First \<Rightarrow> \<forall>qs. loops t0 opts (cs_polls s @ qs) = loops t0 opts qs
      | CP_Checking \<Rightarrow> \<forall>qs. loops t0 opts (cs_polls s @ qs) = loops t0 opts qs
      | CP_Fault_Seen \<Rightarrow> \<forall>qs. loops t0 opts (cs_polls s @ qs) = loops t0 opts qs
      | CP_Clock \<Rightarrow> \<forall>qs. loops t0 opts (cs_polls s @ qs) = loops t0 opts qs
      | CP_Measuring \<Rightarrow> \<forall>qs. loops t0 opts (cs_polls s @ qs) = measure_for (deadline_after t0 (op_duration opts)) qs
      | CP_Stopping \<Rightarrow> loops t0 opts (cs_polls s) = Some (Inr ())
      | CP_Stopped \<Rightarrow> loops t0 opts (cs_polls s) = Some (Inr ())
      | CP_Elapsed e \<Rightarrow> loops t0 opts (cs_polls s) = Some (Inr ()) \<and> (\<exists>stopped. e = seconds_of (stopped - t0))
      | CP_Report e h \<Rightarrow> loops t0 opts (cs_polls s) = Some (Inr ()) \<and> (\<exists>stopped. e = seconds_of (stopped - t0))
      | CP_Leaving n r \<Rightarrow> outcome_inv t0 opts s r
      | CP_Over r \<Rightarrow> outcome_inv t0 opts s r)"

lemma loops_Nil [simp]: "loops t0 opts [] = None"
  by (simp add: loops_def)

lemma loops_Cons:
  "loops t0 opts (p # ps) =
     (if po_received p \<noteq> 0 then measure_for (deadline_after t0 (op_duration opts)) ps
      else if po_interrupted p then Some (Inl (RuntimeError ''interrupted''))
      else if po_faulted p then Some (Inl (RuntimeError (po_last_error p)))
      else if fle (first_deadline t0 opts) (at_ns (po_now p)) then Some (Inl (RuntimeError ''no Net F/T sample received''))
      else loops t0 opts ps)"
  by (simp add: loops_def)

lemma poll_of_fields [simp]:
  "po_received (poll_of r i f m n) = r" "po_interrupted (poll_of r i f m n) = i" "po_faulted (poll_of r i f m n) = f"
  "po_last_error (poll_of r i f m n) = m" "po_now (poll_of r i f m n) = n"
  by (simp_all add: poll_of_def)

lemma outcome_goes [simp]: "outcome_inv t0 opts (goes p [] (s\<lparr>cs_sys := y\<rparr>)) r = outcome_inv t0 opts s r"
  by (simp add: outcome_inv_def split: sum.split)

text \<open>A worker that runs keeps the place; when the report is made no worker runs.\<close>

lemma place_inv_step:
  assumes "check_step strerror t0 opts s s'" and "place_inv t0 opts s" and "thread_inv s"
  shows "place_inv t0 opts s'"
  using assms
proof (induction rule: check_step.induct)
  case (ck_worker s ans)
  have same: "cs_place (check_worker strerror ans s) = cs_place s" "cs_polls (check_worker strerror ans s) = cs_polls s"
    by (simp_all add: check_worker_def Let_def)
  have "\<not> stopped_place (cs_place s)" using ck_worker.hyps(1) ck_worker.prems(2) by (auto simp: thread_inv_def check_client_def Let_def)
  then show ?case
    using ck_worker.prems(1) by (cases "cs_place s") (auto simp: place_inv_def outcome_inv_def same split: sum.splits)
next
  case (ck_start s y r)
  then show ?case by (auto simp: place_inv_def outcome_inv_def throws_def split: sum.split)
next
  case (ck_received s now c' h)
  then show ?case by (simp add: place_inv_def loops_Cons)
next
  case (ck_measure s now sigint)
  then have "loops t0 opts (cs_polls s @ qs) = measure_for (deadline_after t0 (op_duration opts)) qs" for qs
    by (simp add: place_inv_def)
  then show ?case by (auto simp: place_inv_def outcome_inv_def throws_def)
next
  case (ck_stop s y returned)
  then show ?case by (cases "cs_place s") (auto simp: place_inv_def)
next
  case (ck_load s e h)
  then show ?case by (auto simp: place_inv_def outcome_inv_def report_of_def slot_load_def)
qed (auto simp: place_inv_def outcome_inv_def throws_def loops_Cons)

section \<open>What holds when the tool has run\<close>

lemma client_init_fields:
  assumes "client_init now cfg = Inr c"
  shows "cl_config c = cfg" "latest c = None" "sensor_configuration (health c) = None" "\<not> worker_alive c"
    "\<not> joining c" "validate_config now cfg = Inr ()" "received_count (health c) = 0"
  using assms by (auto simp: client_init_def default_health_def worker_alive_def)

lemma check_begins_inv:
  assumes "check_begins opts s"
  shows "source_inv strerror opts s" and "thread_inv s" and "place_inv t0 opts s"
proof -
  obtain now where c: "client_init now (op_config opts) = Inr (check_client s)"
    using assms by (auto simp: check_begins_def)
  have "initial (cs_sys s)" using c assms by (auto simp: initial_def check_begins_def check_client_def)
  then have r: "reachable strerror (cs_sys s)" by (rule reachable_initial)
  note f = client_init_fields [OF c]
  show "source_inv strerror opts s"
    using assms r f by (auto simp: source_inv_def check_begins_def traced_def known_trace_def)
  show "thread_inv s"
    using assms f by (simp add: thread_inv_def check_begins_def check_client_def Let_def)
  show "place_inv t0 opts s" using assms by (simp add: place_inv_def check_begins_def)
qed

lemma check_reachable_inv:
  assumes "check_reachable strerror t0 opts s"
  shows "source_inv strerror opts s" and "thread_inv s" and "place_inv t0 opts s"
proof -
  have "source_inv strerror opts s \<and> thread_inv s \<and> place_inv t0 opts s"
    using assms
  proof (induction rule: check_reachable.induct)
    case (ck_begins s)
    then show ?case using check_begins_inv by blast
  next
    case (ck_continues s s')
    moreover have "joins_inv (cs_sys s)" using ck_continues.IH by (auto simp: source_inv_def intro: reachable_joins)
    ultimately show ?case using source_inv_step thread_inv_step place_inv_step by blast
  qed
  then show "source_inv strerror opts s" and "thread_inv s" and "place_inv t0 opts s" by simp_all
qed

lemma check_over_outcome:
  assumes "check_reachable strerror t0 opts s" and "cs_place s = CP_Over r"
  shows "at_rest (check_client s)
    \<and> ((cs_polls s = [] \<and> (\<exists>e. r = Inl e)) \<or> (\<exists>stopped h. run_check t0 (cs_polls s) stopped h (cs_slot s) opts = Some r))"
proof -
  note inv = check_reachable_inv [OF assms(1)]
  have "at_rest (check_client s)"
    using reachable_at_rest [of strerror "cs_sys s"] inv(1,2) assms(2)
    by (simp add: source_inv_def thread_inv_def check_client_def Let_def)
  moreover have "outcome_inv t0 opts s r" using inv(3) assms(2) by (simp add: place_inv_def)
  ultimately show ?thesis
    by (cases r) (auto simp: outcome_inv_def run_check_loops)
qed

text \<open>The last sample of a report was a datagram, and it is what the report prints.\<close>

lemma checked_pipeline:
  assumes "check_reachable strerror t0 opts s" and "cs_place s = CP_Over (Inr res)" and "cr_last res = Some smp"
  shows "\<exists>bytes rec received_at cfg.
    Got bytes \<in> set (cs_trace s) \<and> decode_record (Some bytes) 36 = Inr rec
    \<and> Accepted rec received_at \<in> set (cs_trace s)
    \<and> known_configuration (op_config opts) cfg \<and> validate_calibration (calibration cfg) = Inr ()
    \<and> (\<forall>json. serialize res = Inr json \<longrightarrow>
        (\<exists>si. si_force si @ si_torque si = si_axes (calibration cfg) rec
          \<and> json_object (report_members res (Some si)) = Inr json))"
proof -
  note inv = check_reachable_inv [OF assms(1)]
  have "outcome_inv t0 opts s (Inr res)" using inv(3) assms(2) by (simp add: place_inv_def)
  then have "cs_slot s = Some smp" using assms(3) by (auto simp: outcome_inv_def report_of_def)
  then have smp: "sampled (cs_trace s) smp" and kt: "known_trace (op_config opts) (cs_trace s)"
    using inv(1) by (simp_all add: source_inv_def)
  obtain now where v: "validate_config now (op_config opts) = Inr ()" using inv(1) by (auto simp: source_inv_def)
  obtain bytes rec received_at cfg cal where b: "Got bytes \<in> set (cs_trace s)" "Accepted rec received_at \<in> set (cs_trace s)"
    "decode_record (Some bytes) 36 = Inr rec" and m: "smp = make_sample rec received_at cfg"
    and cal: "calibration cfg = cal" "validate_calibration cal = Inr ()"
    and k: "\<exists>cfg'. known_configuration (op_config opts) cfg' \<and> calibration cfg' = cal"
    by (rule sampled_known [OF smp kt v])
  have "\<exists>si. si_force si @ si_torque si = si_axes cal rec \<and> json_object (report_members res (Some si)) = Inr json"
    if "serialize res = Inr json" for json
    using that converted_axes(1) [of rec received_at cfg] assms(3) m cal(1)
    by (auto simp: serialize_def and_then_Inr)
  then show ?thesis using b k cal by blast
qed

section \<open>The tool comes to its end\<close>

lemma check_worker_fields [simp]:
  "cs_place (check_worker strerror a s) = cs_place s" "cs_polls (check_worker strerror a s) = cs_polls s"
  by (simp_all add: check_worker_def Let_def)

lemma check_worker_sys:
  assumes "a_callback a = Returned"
  shows "cs_sys (check_worker strerror a s) = with_worker (worker_step strerror a (check_client s, s_worker (cs_sys s))) (cs_sys s)"
proof -
  have "a\<lparr>a_callback := Returned\<rparr> = a" using assms by (cases a) simp
  then show ?thesis by (simp add: check_worker_def Let_def)
qed

lemma check_worker_slot: "cs_slot s \<noteq> None \<Longrightarrow> cs_slot (check_worker strerror a s) \<noteq> None"
  by (auto simp: check_worker_def slot_store_def Let_def split: pc.split)

lemma run_check_worker:
  assumes "check_reachable strerror t0 opts s" and "worker_alive (check_client s)"
    and "list_all (\<lambda>a. a_callback a = Returned \<and> discovers (op_config opts) a) as"
  shows "check_reachable strerror t0 opts (fold (check_worker strerror) as s)
    \<and> cs_place (fold (check_worker strerror) as s) = cs_place s
    \<and> (cs_slot s \<noteq> None \<longrightarrow> cs_slot (fold (check_worker strerror) as s) \<noteq> None)
    \<and> cs_sys (fold (check_worker strerror) as s) = with_worker (run_worker strerror as (check_client s, s_worker (cs_sys s))) (cs_sys s)"
  using assms
proof (induction as arbitrary: s)
  case (Cons a as)
  let ?s1 = "check_worker strerror a s"
  have cfg: "cl_config (check_client s) = op_config opts"
    using check_reachable_inv(1) [OF Cons.prems(1)] by (simp add: source_inv_def)
  have y: "cs_sys ?s1 = with_worker (worker_step strerror a (check_client s, s_worker (cs_sys s))) (cs_sys s)"
    using Cons.prems(3) by (simp add: check_worker_sys)
  have "check_reachable strerror t0 opts ?s1"
    using Cons.prems cfg by (intro ck_continues [OF Cons.prems(1)] ck_worker) simp_all
  moreover have "worker_alive (check_client ?s1)"
    using Cons.prems(2) alive_step [of strerror a "(check_client s, s_worker (cs_sys s))"] by (simp add: y check_client_def)
  ultimately show ?case
    using Cons.IH [of ?s1] Cons.prems(3) check_worker_slot [of s strerror a] y
    by (simp add: check_client_def)
qed (simp add: check_client_def)

lemma goes_sys_fields [simp]:
  "check_client (goes p ps s) = check_client s" "check_client (s\<lparr>cs_sys := y\<rparr>) = s_client y"
  by (simp_all add: check_client_def)

lemma goes_again [simp]: "goes p [] ((goes q [] (s\<lparr>cs_sys := y\<rparr>))\<lparr>cs_sys := y'\<rparr>) = goes p [] (s\<lparr>cs_sys := y'\<rparr>)"
  by (simp add: goes_def)

lemma check_stop_section:
  assumes "check_reachable strerror t0 opts (goes p [] (s\<lparr>cs_sys := y\<rparr>))" and "in_stop p"
    and "stop_advance strerror y y' returned"
  shows "check_reachable strerror t0 opts (goes (if returned then after_stop p else p) [] (s\<lparr>cs_sys := y'\<rparr>))"
  using ck_continues [OF assms(1) ck_stop [where y = y' and returned = returned]] assms(2,3)
  by (cases returned) simp_all

text \<open>A stop that begins comes to its end, for a device that keeps answering.\<close>

lemma check_stop_completes:
  assumes "check_reachable strerror t0 opts s" and "in_stop (cs_place s)" and "s_lock (cs_sys s) = Unlocked"
    and "\<not> joining (check_client s)" and "a_callback a = Returned" and "discovers (op_config opts) a" and "wait_ends a"
  shows "\<exists>s'. check_reachable strerror t0 opts s' \<and> cs_place s' = after_stop (cs_place s)
    \<and> (cs_slot s \<noteq> None \<longrightarrow> cs_slot s' \<noteq> None) \<and> s_lock (cs_sys s') = Unlocked \<and> \<not> joining (check_client s')"
proof -
  define p y where "p = cs_place s" and "y = cs_sys s"
  define y1 where "y1 = y\<lparr>s_client := stop_request (s_client y), s_lock := StopRequested False\<rparr>"
  define y2 where "y2 = y1\<lparr>s_client := stop_command strerror (Inr 8) (s_client y1), s_lock := StopCommanded False\<rparr>"
  obtain c' r where d: "stop_decide False (s_client y2) = (c', r)" by force
  define y3 where "y3 = y2\<lparr>s_client := c', s_lock := Unlocked, s_stop_joins := (if r = Stop_Joins then True else s_stop_joins y2)\<rparr>"
  have p: "in_stop p" using assms(2) by (simp add: p_def)
  have "goes p [] (s\<lparr>cs_sys := y\<rparr>) = s" by (simp add: p_def y_def goes_def)
  then have 0: "check_reachable strerror t0 opts (goes p [] (s\<lparr>cs_sys := y\<rparr>))" using assms(1) by simp
  have "stop_advance strerror y y1 False"
    unfolding y1_def using assms(3,4) by (intro sa_request) (simp_all add: y_def check_client_def)
  from check_stop_section [OF 0 p this] have 1: "check_reachable strerror t0 opts (goes p [] (s\<lparr>cs_sys := y1\<rparr>))" by simp
  have "stop_advance strerror y1 y2 False" unfolding y2_def by (rule sa_command) (simp add: y1_def)
  from check_stop_section [OF 1 p this] have 2: "check_reachable strerror t0 opts (goes p [] (s\<lparr>cs_sys := y2\<rparr>))" by simp
  have "stop_advance strerror y2 y3 (r = Stop_Returns)"
    unfolding y3_def by (rule sa_decide [OF _ d]) (simp add: y2_def)
  note 3 = check_stop_section [OF 2 p this]
  have j2: "\<not> joining (s_client y2)" "stopping (s_client y2)"
    using assms(4) by (simp_all add: y2_def y1_def y_def stop_command_def stop_streaming_def stop_request_def check_client_def Let_def)
  then have r: "r = (if worker_joinable (s_client y2) then Stop_Joins else Stop_Returns)"
    "c' = (if worker_joinable (s_client y2) then (s_client y2)\<lparr>joining := True, worker_joinable := False\<rparr> else mark_stopped (s_client y2))"
    using d by (auto simp: stop_decide_def from_worker_thread_def split: if_splits)
  show ?thesis
  proof (cases "worker_joinable (s_client y2)")
    case False
    then show ?thesis using 3 r j2 by (intro exI [of _ "goes (after_stop p) [] (s\<lparr>cs_sys := y3\<rparr>)"]) (simp add: y3_def p_def)
  next
    case True
    define s3 where "s3 = goes p [] (s\<lparr>cs_sys := y3\<rparr>)"
    have s3: "check_reachable strerror t0 opts s3" using 3 r(1) True by (simp add: s3_def)
    have f3: "worker_alive (check_client s3)" "stopping (check_client s3)" "joining (check_client s3)"
      "cs_place s3 = p" "cs_slot s3 = cs_slot s" "s_lock (cs_sys s3) = Unlocked" "s_stop_joins (cs_sys s3)"
      using r True j2 by (simp_all add: s3_def y3_def worker_alive_def)
    let ?as = "replicate 11 a"
    define s4 where "s4 = fold (check_worker strerror) ?as s3"
    let ?cw = "run_worker strerror ?as (check_client s3, s_worker (cs_sys s3))"
    have as: "list_all (\<lambda>a. a_callback a = Returned \<and> discovers (op_config opts) a) ?as" "list_all wait_ends ?as"
      using assms(5-7) by (simp_all add: list_all_length)
    have 4: "check_reachable strerror t0 opts s4" "cs_place s4 = p" "cs_slot s \<noteq> None \<longrightarrow> cs_slot s4 \<noteq> None"
      "cs_sys s4 = with_worker ?cw (cs_sys s3)"
      using run_check_worker [OF s3 f3(1) as(1)] f3(4,5) by (simp_all add: s4_def)
    have e: "pc_at (snd ?cw) = Exited" by (rule waits_end_stopped [OF as(2) _ f3(2)]) simp
    define y5 where "y5 = (cs_sys s4)\<lparr>s_client := stop_joined (s_client (cs_sys s4))\<rparr>"
    have "stop_advance strerror (cs_sys s4) y5 True"
      unfolding y5_def by (rule sa_joined) (use 4(4) e f3(3,6,7) in simp_all)
    from ck_continues [OF 4(1) ck_stop [OF _ this]]
    have "check_reachable strerror t0 opts (goes (after_stop p) [] (s4\<lparr>cs_sys := y5\<rparr>))" using 4(2) p by simp
    then show ?thesis
      using 4 f3(6) by (intro exI [of _ "goes (after_stop p) [] (s4\<lparr>cs_sys := y5\<rparr>)"]) (simp add: y5_def p_def)
  qed
qed

text \<open>From the beginning of the last stops to the end, with the outcome kept.\<close>

lemma check_leaves:
  assumes "check_reachable strerror t0 opts s" and "cs_place s = CP_Leaving 0 r" and "s_lock (cs_sys s) = Unlocked"
    and "\<not> joining (check_client s)" and "a_callback a = Returned" and "discovers (op_config opts) a" and "wait_ends a"
  shows "\<exists>s'. check_reachable strerror t0 opts s' \<and> cs_place s' = CP_Over r \<and> (cs_slot s \<noteq> None \<longrightarrow> cs_slot s' \<noteq> None)"
proof -
  note stop = check_stop_completes [OF _ _ _ _ assms(5-7)]
  obtain s1 where s1: "check_reachable strerror t0 opts s1" "cs_place s1 = CP_Leaving (Suc 0) r"
    "cs_slot s \<noteq> None \<longrightarrow> cs_slot s1 \<noteq> None" "s_lock (cs_sys s1) = Unlocked" "\<not> joining (check_client s1)"
    using stop [OF assms(1) _ assms(3,4)] assms(2) by auto
  obtain s2 where s2: "check_reachable strerror t0 opts s2" "cs_place s2 = CP_Leaving (Suc (Suc 0)) r"
    "cs_slot s1 \<noteq> None \<longrightarrow> cs_slot s2 \<noteq> None" "s_lock (cs_sys s2) = Unlocked" "\<not> joining (check_client s2)"
    using stop [OF s1(1) _ s1(4,5)] s1(2) by auto
  show ?thesis using stop [OF s2(1) _ s2(4,5)] s1(3) s2(2,3) by auto
qed

text \<open>The first sample: the callback fills the slot, and the main thread sees the count.\<close>

lemma check_first_sample:
  assumes "check_begins opts s" and "check_client s = c"
    and "good_answer a c cfg rec deadline" and "discovers (op_config opts) a" and "wait_ends a"
    and "calibration_override (cl_config c) = None" and "classify_status (raw_status rec) \<noteq> SevError"
    and "ft_advances (snd (ft_observe (raw_ft_sequence rec) (ft_begin_session (ft_sequence c))))"
  shows "\<exists>s'. check_reachable strerror t0 opts s' \<and> cs_place s' = CP_Measuring \<and> cs_slot s' \<noteq> None
    \<and> s_lock (cs_sys s') = Unlocked \<and> \<not> joining (check_client s')"
proof -
  have r0: "check_reachable strerror t0 opts s" by (rule ck_begins [OF assms(1)])
  obtain now0 where ci: "client_init now0 (op_config opts) = Inr c" using assms(1,2) by (auto simp: check_begins_def)
  note cf = client_init_fields [OF ci]
  have cb: "a_callback a = Returned" using assms(3) by (simp add: good_answer_def)
  define y1 where "y1 = (cs_sys s)\<lparr>s_client := started c, s_worker := worker_start c\<rparr>"
  have "start_check False c = (c, Start_Proceeds)" by (rule fresh_client(4) [OF ci])
  then have "start_call (Suc 3) strerror True [] (Inr ()) True False (cs_sys s) = Some (y1, Inr ())"
    unfolding start_call.simps(2) using assms(2) by (simp add: y1_def started_def check_client_def del: start_call.simps)
  then have sc: "start_call 4 strerror True [] (Inr ()) True False (cs_sys s) = Some (y1, Inr ())" by (simp del: start_call.simps)
  define s1 where "s1 = goes CP_First [] (s\<lparr>cs_sys := y1\<rparr>)"
  have r1: "check_reachable strerror t0 opts s1"
    using ck_continues [OF r0 ck_start [OF _ sc]] assms(1) by (simp add: s1_def check_begins_def)
  obtain c1 w1 cfg' where run: "run_worker strerror (replicate 17 a) (started c, worker_start c) = (c1, w1)"
    and pc: "pc_at w1 = InCallback (make_sample rec (a_now a) cfg') None deadline"
    and rc: "received_count (health c1) = received_count (health c) + 1"
    by (rule fresh_session_sample [OF assms(3,6-8)])
  have as: "list_all (\<lambda>a. a_callback a = Returned \<and> discovers (op_config opts) a) (replicate n a)" for n
    using cb assms(4) by (simp add: list_all_length)
  have f1: "worker_alive (check_client s1)" "check_client s1 = started c" "s_worker (cs_sys s1) = worker_start c"
    "cs_place s1 = CP_First" "s_lock (cs_sys s1) = Unlocked"
    using started_alive assms(1) by (simp_all add: s1_def y1_def check_begins_def)
  define s2 where "s2 = fold (check_worker strerror) (replicate 17 a) s1"
  have 2: "check_reachable strerror t0 opts s2" "cs_place s2 = CP_First" "cs_sys s2 = with_worker (c1, w1) (cs_sys s1)"
    using run_check_worker [OF r1 f1(1) as, of 17] f1 run by (simp_all add: s2_def)
  have c2: "check_client s2 = c1" "s_worker (cs_sys s2) = w1" by (simp_all add: check_client_def 2(3))
  have alive2: "worker_alive (check_client s2)"
    using reachable_parts(7) [of strerror "cs_sys s2"] check_reachable_inv(1) [OF 2(1)] pc c2
    by (auto simp: source_inv_def check_client_def)
  define s3 where "s3 = check_worker strerror a s2"
  have r3: "check_reachable strerror t0 opts s3"
    using run_check_worker [OF 2(1) alive2 as, of 1] by (simp add: s3_def)
  obtain c3 w3 where st: "worker_step strerror a (c1, w1) = (c3, w3)" by force
  have 3: "cs_place s3 = CP_First" "cs_slot s3 \<noteq> None" "check_client s3 = c3" "s_lock (cs_sys s3) = Unlocked"
    "joining c3 = joining (started c)" "received_count (health c3) = received_count (health c1)"
    using 2(2,3) c2 st pc cb f1(5) run_worker_threads(1) [of strerror "replicate 17 a" "(started c, worker_start c)"] run
    by (auto simp: s3_def check_client_def check_worker_sys) (auto simp: check_worker_def slot_store_def worker_step_def Let_def check_client_def)
  obtain c4 h where th: "take_health 0 c3 = (c4, h)" by force
  have h: "received_count h = 1" "joining c4 = joining c3"
    using th 3(6) rc cf(7) by (auto simp: take_health_def Let_def)
  define s4 where "s4 = goes CP_Measuring [poll_of (received_count h) False False [] 0] (with_client c4 s3)"
  have r4: "check_reachable strerror t0 opts s4"
    unfolding s4_def using 3 th h by (intro ck_continues [OF r3] ck_received) simp_all
  have "\<not> joining (started c)" using cf(5) by (simp add: started_def start_committed_def start_reset_def)
  then show ?thesis using r4 3 h by (intro exI [of _ s4]) (simp add: s4_def check_client_def)
qed

text \<open>The end of the measurement: the stop and the report.\<close>

lemma check_reports:
  assumes "check_reachable strerror t0 opts s4" and "cs_place s4 = CP_Measuring" and "cs_slot s4 \<noteq> None"
    and "s_lock (cs_sys s4) = Unlocked" and "\<not> joining (check_client s4)"
    and "a_callback a = Returned" and "discovers (op_config opts) a" and "wait_ends a"
    and "\<not> flt (at_ns now) (deadline_after t0 (op_duration opts))"
  shows "\<exists>s' res smp. check_reachable strerror t0 opts s' \<and> cs_place s' = CP_Leaving 0 (Inr res) \<and> cr_last res = Some smp
    \<and> s_lock (cs_sys s') = Unlocked \<and> \<not> joining (check_client s')"
proof -
  define s5 where "s5 = goes CP_Stopping [poll_of 0 False False [] now] s4"
  have r5: "check_reachable strerror t0 opts s5"
    using ck_continues [OF assms(1) ck_measure [of s4 strerror t0 opts now False]] assms(2,9) by (simp add: s5_def)
  have 5: "cs_place s5 = CP_Stopping" "s_lock (cs_sys s5) = Unlocked" "\<not> joining (check_client s5)" "cs_slot s5 \<noteq> None"
    using assms(3-5) by (simp_all add: s5_def)
  obtain s6 where 6: "check_reachable strerror t0 opts s6" "cs_place s6 = CP_Stopped" "cs_slot s6 \<noteq> None"
    "s_lock (cs_sys s6) = Unlocked" "\<not> joining (check_client s6)"
    using check_stop_completes [OF r5 _ 5(2,3) assms(6-8)] 5 by auto
  define s7 where "s7 = goes (CP_Elapsed (seconds_of (0 - t0))) [] s6"
  have r7: "check_reachable strerror t0 opts s7" using ck_continues [OF 6(1) ck_elapsed [OF 6(2), where now = 0]] by (simp add: s7_def)
  obtain c8 h8 where th8: "take_health 0 (check_client s7) = (c8, h8)" by force
  define s8 where "s8 = goes (CP_Report (seconds_of (0 - t0)) h8) [] (with_client c8 s7)"
  have r8: "check_reachable strerror t0 opts s8"
    using ck_continues [OF r7 ck_health [OF _ th8]] by (simp add: s8_def s7_def)
  define res where "res = report_of opts (seconds_of (0 - t0)) h8 (cs_slot s8)"
  define s9 where "s9 = goes (CP_Leaving 0 (Inr res)) [] s8"
  have r9: "check_reachable strerror t0 opts s9"
    using ck_continues [OF r8 ck_load] by (simp add: s9_def s8_def res_def report_of_def slot_load_def)
  have 9: "cs_place s9 = CP_Leaving 0 (Inr res)" "s_lock (cs_sys s9) = Unlocked" "\<not> joining (check_client s9)" "cs_slot s8 \<noteq> None"
    using 6 take_health_threads [OF th8] by (simp_all add: s9_def s8_def s7_def check_client_def)
  obtain smp where "cr_last res = Some smp" using 9(4) by (auto simp: res_def report_of_def)
  then show ?thesis using r9 9 by blast
qed

text \<open>A whole run.\<close>

lemma check_run_exists:
  assumes "check_begins opts s" and "check_client s = c"
    and "good_answer a c cfg rec deadline" and "discovers (op_config opts) a" and "wait_ends a"
    and "calibration_override (cl_config c) = None" and "classify_status (raw_status rec) \<noteq> SevError"
    and "ft_advances (snd (ft_observe (raw_ft_sequence rec) (ft_begin_session (ft_sequence c))))"
    and "\<not> flt (at_ns now) (deadline_after t0 (op_duration opts))"
  shows "\<exists>s' res smp. check_reachable strerror t0 opts s' \<and> cs_place s' = CP_Over (Inr res) \<and> cr_last res = Some smp"
proof -
  have cb: "a_callback a = Returned" using assms(3) by (simp add: good_answer_def)
  obtain s4 where 4: "check_reachable strerror t0 opts s4" "cs_place s4 = CP_Measuring" "cs_slot s4 \<noteq> None"
    "s_lock (cs_sys s4) = Unlocked" "\<not> joining (check_client s4)"
    using check_first_sample [OF assms(1-8)] by blast
  obtain s9 res smp where 9: "check_reachable strerror t0 opts s9" "cs_place s9 = CP_Leaving 0 (Inr res)" "cr_last res = Some smp"
    "s_lock (cs_sys s9) = Unlocked" "\<not> joining (check_client s9)"
    using check_reports [OF 4 cb assms(4,5,9)] by blast
  show ?thesis using check_leaves [OF 9(1,2,4,5) cb assms(4,5)] 9(3) by blast
qed

section \<open>A concrete run\<close>

definition example_options :: options where
  "example_options = default_options\<lparr>op_config := default_config\<lparr>receive_timeout := fone\<rparr>, op_duration := fone\<rparr>"

lemma example_check_begins:
  obtains s c where "check_begins example_options s" and "check_client s = c"
    and "client_init (\<lambda>k. 1000) (op_config example_options) = Inr c"
proof -
  have "validate_config (\<lambda>k. 1000) (op_config example_options) = Inr ()"
    using default_client_valid [of Reconnect] by (simp add: example_options_def default_config_def)
  then obtain c where c: "client_init (\<lambda>k. 1000) (op_config example_options) = Inr c"
    by (simp add: client_init_def)
  let ?y = "\<lparr>s_client = c, s_worker = \<lparr>pc_at = Exited, backoff = fone, valid_seen = False\<rparr>, s_lock = Unlocked, s_stop_joins = False\<rparr>"
  let ?s = "\<lparr>cs_sys = ?y, cs_slot = None, cs_place = CP_Starting, cs_polls = [], cs_trace = []\<rparr>"
  have "check_begins example_options ?s" using c by (auto simp: check_begins_def check_client_def)
  then show thesis using that [of ?s c] c by (simp add: check_client_def)
qed

lemma measured_deadline: "\<not> flt (at_ns 2000000000) (deadline_after 0 fone)"
proof -
  have i: "fof_int binary64 0 = Fin False 0" "fof_int binary64 2000000000 = Fin False 2000000000"
    using fof_int_exact [of 0] fof_int_exact [of 2000000000] by simp_all
  have r: "fround binary64 False 1000000000 = Fin False 1000000000" by (simp add: fround_eval)
  show ?thesis by (simp add: at_ns_def deadline_after_def i r fone_def) (simp add: fround_eval)
qed

lemma steady_check:
  obtains s res smp where "check_reachable strerror 0 example_options s" and "cs_place s = CP_Over (Inr res)"
    and "cr_last res = Some smp"
proof -
  obtain s c where s: "check_begins example_options s" "check_client s = c"
    and ci: "client_init (\<lambda>k. 1000) (op_config example_options) = Inr c"
    by (rule example_check_begins)
  note f = fresh_client [OF ci]
  have cfg: "receive_timeout (cl_config c) = fone" "calibration_override (cl_config c) = None"
    by (simp_all add: f(1) example_options_def) (simp add: default_config_def)
  have ft: "ft_advances (snd (ft_observe (raw_ft_sequence steady_record) (ft_begin_session (ft_sequence c))))"
    by (simp add: f(2) ft_observe_def ft_begin_session_def ft_init_def ft_advances_def Let_def case_prod_unfold)
  have st: "classify_status (raw_status steady_record) \<noteq> SevError" by (simp add: steady_record_def classify_status_def)
  have good: "good_answer (steady_answer (cl_config c)) c example_configuration steady_record 1000001000"
    using steady_good [OF cfg(1)] f(1,5) by simp
  have d: "discovers (op_config example_options) (steady_answer (cl_config c))" using steady_discovers f(1) by simp
  have w: "wait_ends (steady_answer (cl_config c))" by (simp add: wait_ends_def steady_answer_def)
  have n: "\<not> flt (at_ns 2000000000) (deadline_after 0 (op_duration example_options))"
    using measured_deadline by (simp add: example_options_def)
  show thesis using check_run_exists [OF s good d w cfg(2) st ft n, of strerror] that by blast
qed

section \<open>The guards\<close>

text \<open>
  \<open>ScopeExit\<close>: the function of the guard runs after the body, whatever the body ends with. In
  \<open>run_check\<close> it is the first stop of \<open>CP_Leaving\<close>, in \<open>write_output\<close> it removes the temporary
  name, and in \<open>main\<close> it puts the handler of SIGINT back.
\<close>

definition scope_exit :: "('s \<Rightarrow> 's) \<Rightarrow> ('s \<Rightarrow> 's \<times> 'a) \<Rightarrow> 's \<Rightarrow> 's \<times> 'a" where
  "scope_exit f act s = (let (s', r) = act s in (f s', r))"

datatype signal_handler = Default_Action | Ignored_Signal | Handle_Interrupt | Other_Handler nat

record process =
  pr_files :: files
  pr_handler :: signal_handler

text \<open>The handler raises the flag that the loops read.\<close>

definition handle_interrupt :: "bool \<Rightarrow> bool" where
  "handle_interrupt flag = True"

definition run_main ::
  "(nat \<Rightarrow> ticks) \<Rightarrow> (options \<Rightarrow> check_result result) \<Rightarrow> file_answers \<Rightarrow> string list \<Rightarrow> process
     \<Rightarrow> process \<times> int \<times> string \<times> string" where
  "run_main now acquired fa args p =
     (let previous = pr_handler p in
      scope_exit (\<lambda>p. p\<lparr>pr_handler := previous\<rparr>)
        (\<lambda>p. let (fs, out) = check_main now acquired fa args (pr_files p) in (p\<lparr>pr_files := fs\<rparr>, out))
        (p\<lparr>pr_handler := Handle_Interrupt\<rparr>))"

lemma run_main_restores:
  "run_main now acquired fa args p =
     (p\<lparr>pr_files := fst (check_main now acquired fa args (pr_files p))\<rparr>, snd (check_main now acquired fa args (pr_files p)))"
  by (simp add: run_main_def scope_exit_def case_prod_unfold Let_def)

lemma write_output_guarded:
  assumes "fa_temporary fa = Some temporary" and "temporary \<noteq> path"
  shows "write_output fa path content fs =
    scope_exit (\<lambda>fs. fs(temporary := None))
      (\<lambda>fs. if \<not> fa_stream fa then (fs, Inl (RuntimeError ''unable to write output''))
        else if \<not> fa_written fa then (fs(temporary \<mapsto> fa_on_disk fa), Inl (RuntimeError ''unable to write output''))
        else case fa_rename fa of
               Inl e \<Rightarrow> (fs(temporary \<mapsto> content @ [nl]), Inl e)
             | Inr u \<Rightarrow> (fs(path \<mapsto> content @ [nl], temporary := None), Inr ()))
      (fs(temporary \<mapsto> []))"
  using assms by (simp add: write_output_def scope_exit_def Let_def fun_upd_twist split: sum.split)

section \<open>The properties of a run\<close>

text \<open>
  C34: whatever the worker, the device and the interrupt do, \<open>run_check\<close> leaves the client at rest:
  told to stop, its worker gone, its socket closed, so the callback cannot touch the slot any
  more. Unless the client could not be started, what it returns or throws is the outcome of
  \<open>run_check\<close> of \<open>Check_Tool\<close> on what the main thread saw, with the last sample of the slot.
\<close>

theorem check_run_outcome:
  assumes "check_reachable strerror t0 opts s" and "cs_place s = CP_Over r"
  shows "at_rest (check_client s)
    \<and> ((cs_polls s = [] \<and> (\<exists>e. r = Inl e)) \<or> (\<exists>stopped h. run_check t0 (cs_polls s) stopped h (cs_slot s) opts = Some r))"
  by (rule check_over_outcome [OF assms])

theorem check_run_outcome_witness:
  "\<exists>s res. cs_place s = CP_Over (Inr res) \<and> at_rest (check_client s)
    \<and> (\<exists>stopped h. run_check 0 (cs_polls s) stopped h (cs_slot s) example_options = Some (Inr res))"
proof -
  obtain s res smp where s: "check_reachable (\<lambda>e. []) 0 example_options s" "cs_place s = CP_Over (Inr res)" "cr_last res = Some smp"
    by (rule steady_check)
  show ?thesis using check_run_outcome [OF s(1,2)] s(2) by auto
qed

text \<open>
  C33: the wrench of a report is measured. When \<open>run_check\<close> returns with a last sample, a datagram
  received in this run decodes to a record that was accepted, and a report that can be written
  shows, as its force and torque, this record scaled by a validated calibration of a session
  (the override of the command line, or what discovery gave) and converted to SI units.
\<close>

theorem checked_report_measured:
  assumes "check_reachable strerror t0 opts s" and "cs_place s = CP_Over (Inr res)" and "cr_last res = Some smp"
  shows "\<exists>bytes rec received_at cfg.
    Got bytes \<in> set (cs_trace s) \<and> decode_record (Some bytes) 36 = Inr rec
    \<and> Accepted rec received_at \<in> set (cs_trace s)
    \<and> known_configuration (op_config opts) cfg \<and> validate_calibration (calibration cfg) = Inr ()
    \<and> (\<forall>json. serialize res = Inr json \<longrightarrow>
        (\<exists>si. si_force si @ si_torque si = si_axes (calibration cfg) rec
          \<and> json_object (report_members res (Some si)) = Inr json))"
  by (rule checked_pipeline [OF assms])

theorem checked_report_measured_witness:
  "\<exists>s res bytes rec. check_reachable (\<lambda>e. []) 0 example_options s \<and> cs_place s = CP_Over (Inr res)
    \<and> Got bytes \<in> set (cs_trace s) \<and> decode_record (Some bytes) 36 = Inr rec"
proof -
  obtain s res smp where s: "check_reachable (\<lambda>e. []) 0 example_options s" "cs_place s = CP_Over (Inr res)" "cr_last res = Some smp"
    by (rule steady_check)
  show ?thesis using checked_report_measured [OF s] s(1,2) by blast
qed

end
