(* ===== verification/Spec2Isabelle.thy ===== *)
theory Spec2Isabelle
  imports Client_Automaton Condition_Waits Rounding_Guard Udp_Windows Plugin_Run Node_System Test_Access Check_System
begin

text \<open>
  A verification development for the ATI Net F/T driver: the acquisition core under
  \<open>src/core\<close> and the ROS adapters beside it. The core talks to a force/torque sensor: it
  fetches the calibration over HTTP, opens an RDT stream over UDP, decodes and judges each
  record, and hands calibrated samples to one callback while a snapshot of its health can be
  read at any time. The adapters convert samples to SI units and present samples and health
  to ROS: two standalone nodes, a ros2\_control plugin, and a command-line check.

  How it is modelled. Structs are records, enums datatypes, the fixed-width counters words,
  \<open>double\<close> and the 80-bit \<open>long double\<close> exact values with correct rounding (\<open>Floating\<close>); an
  exception is the left side of a sum (\<open>exn\<close> and \<open>result\<close> in \<open>Prelude\<close>). What the operating
  system, libcurl, the clock, the callback and the ROS frameworks answer is an argument of the
  definition that asks, so a theorem holds for all answers; what the code relies on is a
  hypothesis of the theorem that needs it.

  The parts, in the order they build on each other:

  \<^item> \<open>Prelude\<close>, \<open>Floating\<close>, \<open>Formatting\<close>, \<open>Text_Numbers\<close>: shared types; rounding, with the
    locale \<open>rounding\<close> interpreted for both formats; the standard library's number output, and
    its readers \<open>stod\<close> and \<open>stol\<close>.
  \<^item> \<open>Types\<close> (\<open>types.hpp\<close>, \<open>types.cpp\<close>, \<open>time.hpp\<close>): the data model, checked durations and
    deadlines, and the validation of calibrations and configurations. Lemmas characterise what
    validates; a validated calibration scales every count to a finite value.
  \<^item> \<open>Protocol\<close>, \<open>Sequence\<close>, \<open>Status\<close>, \<open>Fault_Latch\<close> (the files of those names): the wire format
    byte by byte; the two progress trackers, sharing the contract \<open>progress_tracker\<close>; status
    words; the latch, with the contract \<open>first_fault\<close> that the plugin's own latch keeps too.
  \<^item> \<open>Xml_Config\<close> (\<open>xml_config.cpp\<close>): the scanner as a loop over the rest of the document, with
    its termination proof, and the parser of the fields; \<open>Rounding_Guard\<close>: the floating-point
    environment around the reading of a number. \<open>Discovery\<close> (\<open>discovery.cpp\<close>): option
    checks, the request, the bounded response buffer and the outcome.
  \<^item> \<open>Udp_Transport\<close>, \<open>Udp_Windows\<close> (\<open>udp_transport_posix.cpp\<close>, \<open>udp_transport_windows.cpp\<close>): both
    transports, and the contract \<open>datagram_transport\<close> that both keep.
  \<^item> \<open>Client_State\<close>, \<open>Client_Record\<close>, \<open>Client_Worker\<close>, \<open>Client_Lifecycle\<close> (\<open>client_impl.hpp\<close> and
    \<open>.cpp\<close>): the members of \<open>Client::Impl\<close> as one record; the handling of a record; the worker
    thread as a machine over program counters whose steps are the code's lock sections and
    blocking calls; the public operations as lock sections, and their interleaving with the
    worker as the relation \<open>sys_step\<close>.
  \<^item> \<open>Client_System\<close> and \<open>Client_Automaton\<close>: invariants of every reachable interleaving, the run
    from a start to the first sample, and the refinement of the automaton of what a user can
    see. \<open>Client_Facade\<close> (\<open>client.cpp\<close>): the destructor and the deferred destroyer.
    \<open>Client_Calls\<close> (\<open>client_impl.cpp\<close>, \<open>client.cpp\<close>): the public calls from beginning to end, with
    the loops, joins and waits around the sections, and the facade that forwards to them; \<open>stop\<close>
    and \<open>start\<close> are proved to return.
  \<^item> \<open>Condition_Waits\<close> (\<open>client_impl.cpp\<close>, \<open>client.cpp\<close>): the waits on condition variables beside
    the code that ends them, as sequences of locks, changes and notifications. The contract
    \<open>guarded_writer\<close>, no notification lost, is interpreted for the pairs that keep it; the pairs
    that do not, with a schedule that loses the notification, are \<open>unguarded_pairs\<close>.
  \<^item> \<open>Unit_Conversion\<close>, \<open>Diagnostics\<close>, \<open>Adapter_Config\<close> (\<open>src/ros\<close>): SI conversion; the
    evaluator of health snapshots and the log throttle, proved equal to a table of conditions in
    order of their severity; the parameters of the nodes and their mapping.
  \<^item> \<open>Ros_Nodes\<close> (\<open>ros1_node.cpp\<close>, \<open>ros2_node.cpp\<close>), \<open>Check_Tool\<close> (\<open>check_main.cpp\<close>), \<open>Plugin_Config\<close>
    and \<open>Hardware_Interface\<close> (\<open>netft_hardware_interface.cpp\<close>): the programs. The plugin's
    lifecycle callbacks, its reads, the client activity in between and its fault latch form the
    relation \<open>plugin_reachable\<close>. \<open>Executor_Thread\<close> is the thread behind its service and timer,
    and \<open>Test_Access\<close> the same file as it is compiled for tests. \<open>Concrete_Configs\<close> holds inputs
    that several instances use.
  \<^item> \<open>Acquisition_Trace\<close>, \<open>Session_Run\<close>, \<open>Plugin_System\<close>, \<open>Plugin_Run\<close>, \<open>Node_System\<close>: the parts
    together, and no further code. The trace of what came in from outside; the run of a fresh
    worker into its first callback; the plugin and the nodes with their client, its worker and
    every thread that calls it, interleaved (\<open>psys_step\<close>, \<open>node_step\<close>); concrete runs.
  \<^item> \<open>Check_System\<close> (\<open>check_main.cpp\<close>): the tool with its client inside, a step for each access of
    its main thread (\<open>check_step\<close>), the slot of the last sample and the guards; the loops of
    \<open>Check_Tool\<close> are what this system computes.

  How the parts meet. The worker runs discovery, connects the transport and handles records;
  \<open>stop\<close>, \<open>start\<close> and \<open>bias\<close> reach it only through the shared state. The plugin, the nodes
  and the tool own a client, are called back on its thread, and read its snapshot, which the evaluator turns
  into diagnostics. The composed relations take the callback's answer from its owner, and
  keep the invariants of the client and of the plugin as projections. The properties at the end
  of this theory follow a datagram through decoding, scaling, callback, conversion and buffer
  to the controllers and to the published message; others stand in the theory of the
  topmost part they speak of.

  Bounds. The wait loops of the transports and of the worker take the list of answers they
  get; running out of answers is the value \<open>None\<close> or a step not yet taken, never a result.
  Eleven steps end a stopping worker, nineteen bring a fresh one to its first sample, four end
  the executor's thread: the theorems count them. A call of \<open>stop\<close> takes at most two turns of its
  loop and a call of \<open>start\<close> three, of the four it is given; the theorems say when they return. No
  other definition has fuel; the scanner ends because each turn consumes its tag.

  Not modelled, and why. The test hooks after a published fault and inside the transports: unset in
  production, and reached only by tests of the core. The bytes inside libcurl, WinSock, the sockets and the
  ROS middleware, and rclcpp's own check of names: not part of the repository, so arguments;
  a turn of the ROS executor is the callbacks it runs and whether it throws. Memory exhaustion. The
  memory model below the lock sections: atomics and mutexes are taken as sequentially
  consistent. Which of the notifications that can be lost are lost: a wait is a step not yet taken,
  except in \<open>Condition_Waits\<close> and in \<open>start_call\<close>, which is told. The sign of a NaN, which the code
  never looks at. Class declarations, getters of the nodes and exported test functions that only
  forward. Nothing else of the implementation is left.

  Assumed of the standard library: \<open>stod\<close> and \<open>stol\<close> as in glibc, correctly rounded; a long
  double with a 64-bit significand; the classic locale.
\<close>

section \<open>Properties that span components\<close>

text \<open>
  C1: what the controllers read came from the sensor. Whenever \<open>read\<close> returns \<open>OK\<close>, in any state
  that the plugin, its client's worker and the threads that call the client can reach
  together, the six values are those of one datagram that the transport received and that
  decodes, scaled by the calibration of a configuration that the client's configuration or
  the discovery gave and that validates, and converted to SI units; by the clock reading at which
  the worker accepted that record, it is at most the receive timeout old.
\<close>

theorem read_end_to_end:
  assumes "psys_reachable a strerror s" and "si \<in> set (pl_buffer (ps_plugin s))"
    and "read a now (Some si) ok ok' (ps_plugin s) = (p', True)"
  shows "\<exists>bytes rec received_at cfg.
    Got bytes \<in> set (ps_trace s) \<and> decode_record (Some bytes) 36 = Inr rec
    \<and> Accepted rec received_at \<in> set (ps_trace s)
    \<and> known_configuration (pc_client (pl_config (ps_plugin s))) cfg
    \<and> validate_calibration (calibration cfg) = Inr ()
    \<and> now - received_at \<le> timeout_ns (ps_plugin s)
    \<and> pl_axes p' = si_axes (calibration cfg) rec"
  using assms by (rule read_pipeline)

theorem read_end_to_end_witness:
  "\<exists>s si p' bytes rec. psys_reachable Modern (\<lambda>e. []) s
    \<and> read Modern 5000 (Some si) (\<lambda>i. True) (\<lambda>i. True) (ps_plugin s) = (p', True)
    \<and> pl_axes p' = [fone, fzero, fzero, fzero, fzero, fzero]
    \<and> Got bytes \<in> set (ps_trace s) \<and> decode_record (Some bytes) 36 = Inr rec"
proof -
  obtain s si where s: "psys_reachable Modern (\<lambda>e. []) s" "si \<in> set (pl_buffer (ps_plugin s))"
    and "\<exists>p'. read Modern 5000 (Some si) (\<lambda>i. True) (\<lambda>i. True) (ps_plugin s) = (p', True)
      \<and> pl_axes p' = [fone, fzero, fzero, fzero, fzero, fzero]"
    by (rule steady_activation)
  then obtain p' where p': "read Modern 5000 (Some si) (\<lambda>i. True) (\<lambda>i. True) (ps_plugin s) = (p', True)"
    "pl_axes p' = [fone, fzero, fzero, fzero, fzero, fzero]" by blast
  show ?thesis using read_end_to_end [OF s p'(1)] s(1) p' by blast
qed

text \<open>
  C6: an activation with a working sensor succeeds. From any reachable state with an idle client
  and no failure latched, when the handles are found, discovery and connection succeed and
  the sensor sends an acceptable record, the composed system can run \<open>on_activate\<close> to
  \<open>SUCCESS\<close>: the wait for the first sample answers true, and the buffer then holds a sample
  that, until it is stale, \<open>read\<close> answers with \<open>OK\<close> and the axes of that record.
\<close>

theorem activation_delivers:
  assumes "psys_reachable a strerror s" and "pl_client (ps_plugin s) = Some c"
    and "ps_lock s = Unlocked" and "start_check False c = (c, Start_Proceeds)"
    and "activate_prepare a found ok (ps_plugin s) = (p1, None)"
    and "pl_fault (ps_plugin s) = FC_None" and "\<not> pl_write_fault (ps_plugin s)"
    and "good_answer ans c cfg rec deadline" and "discovers (cl_config c) ans" and "0 < a_now ans"
    and "calibration_override (cl_config c) = None" and "classify_status (raw_status rec) \<noteq> SevError"
    and "ft_advances (snd (ft_observe (raw_ft_sequence rec) (ft_begin_session (ft_sequence c))))"
    and "to_si_sample (make_sample rec (a_now ans) cfg) = Inr si"
  shows "\<exists>s' c'. rtranclp (psys_step a strerror) s s'
    \<and> pl_client (ps_plugin s') = Some c' \<and> timeout_ns (ps_plugin s') = timeout_ns (ps_plugin s)
    \<and> activate_finish a (Inr (wait_answer (generation c + 1) c')) c' ok (ps_plugin s') = (ps_plugin s', Success)
    \<and> (\<exists>si' \<in> set (pl_buffer (ps_plugin s')). \<forall>now ok ok'. now - a_now ans \<le> timeout_ns (ps_plugin s') \<and> (\<forall>i. ok i) \<longrightarrow>
        (\<exists>p'. read a now (Some si') ok ok' (ps_plugin s') = (p', True)
          \<and> pl_axes p' = si_axes (calibration cfg) rec))"
  using assms by (rule activation_run)

theorem activation_delivers_witness:
  "\<exists>s c. rtranclp (psys_step Modern (\<lambda>e. [])) configured_psys s \<and> pl_client (ps_plugin s) = Some c
    \<and> activate_finish Modern (Inr (wait_answer 1 c)) c (\<lambda>i. True) (ps_plugin s) = (ps_plugin s, Success)"
proof (rule steady_setup)
  fix c p1 si
  assume ready: "pl_client (ps_plugin configured_psys) = Some c" "ps_lock configured_psys = Unlocked"
    "start_check False c = (c, Start_Proceeds)"
    "activate_prepare Modern 6 (\<lambda>i. True) (ps_plugin configured_psys) = (p1, None)"
    "pl_fault (ps_plugin configured_psys) = FC_None" "\<not> pl_write_fault (ps_plugin configured_psys)"
    "good_answer (steady_answer example_plugin_client) c example_configuration steady_record 1000001000"
    "discovers (cl_config c) (steady_answer example_plugin_client)" "0 < a_now (steady_answer example_plugin_client)"
    "calibration_override (cl_config c) = None" "classify_status (raw_status steady_record) \<noteq> SevError"
    "ft_advances (snd (ft_observe (raw_ft_sequence steady_record) (ft_begin_session (ft_sequence c))))"
    "to_si_sample (make_sample steady_record (a_now (steady_answer example_plugin_client)) example_configuration) = Inr si"
    and g: "generation c = 0"
  show ?thesis
    using activation_delivers [OF configured_reachable ready, of "\<lambda>e. []"] unfolding g by auto
qed

text \<open>
  C5: what a node publishes came from the sensor. In every state that a standalone node, its
  client's worker, the service and the timer can reach together, each published wrench is that of
  one datagram that the transport received and that decodes, scaled by a validated calibration that
  the parameters or the discovery gave and converted to SI units; it is finite and carries the
  configured frame.
\<close>

theorem node_publishes_measurements:
  assumes "node_reachable strerror s" and "w \<in> set (nn_published s)"
  shows "\<exists>bytes rec received_at cfg.
    Got bytes \<in> set (nn_trace s) \<and> decode_record (Some bytes) 36 = Inr rec
    \<and> Accepted rec received_at \<in> set (nn_trace s)
    \<and> known_configuration (ac_client (nd_config (nn_node s))) cfg
    \<and> validate_calibration (calibration cfg) = Inr ()
    \<and> wm_force w @ wm_torque w = si_axes (calibration cfg) rec
    \<and> list_all isfinite (wm_force w @ wm_torque w)
    \<and> wm_frame_id w = ac_frame_id (nd_config (nn_node s))"
  using assms by (rule published_pipeline)

theorem node_publishes_measurements_witness:
  "\<exists>s w bytes rec. node_reachable (\<lambda>e. []) s \<and> w \<in> set (nn_published s) \<and> wm_frame_id w = ''netft_link''
    \<and> Got bytes \<in> set (nn_trace s) \<and> decode_record (Some bytes) 36 = Inr rec"
proof -
  obtain s w where s: "node_reachable (\<lambda>e. []) s" "w \<in> set (nn_published s)"
    and n: "nd_config (nn_node s) = mapped_adapter example_adapter"
    by (rule steady_node)
  have "ac_frame_id (mapped_adapter example_adapter) = ''netft_link''"
    by (simp add: mapped_adapter_def example_adapter_def default_parameters_def)
  then show ?thesis using node_publishes_measurements [OF s] s n by metis
qed

end
